(* ===== verification/Prelude.thy ===== *)
theory Prelude
  imports Main "HOL-Library.AList"
begin

text \<open>
  What every component of the development shares: error values, the result
  type of fallible Go functions and its sequencing operator, Go maps as
  association lists, and generic lemmas on lists and maps.

  A Go \<open>error\<close> is a value of type \<open>gerror\<close>: the format string the code gives to
  \<open>errors.New\<close> or \<open>fmt.Errorf\<close> with its arguments, a wrapped error (the
  \<open>%w\<close> verb), or a joined list (\<open>errors.Join\<close>). A function returning
  \<open>(T, error)\<close> returns \<open>gerror + 'a\<close>, with \<open>Inl\<close> for a non-nil error.
\<close>

named_theorems result_simps \<open>rewriting of fallible computations\<close>
named_theorems gomap_simps \<open>lookup and domain laws of Go maps\<close>

section \<open>Errors and results\<close>

datatype gerror =
    Errorf string "string list"
  | Wrapf string "string list" gerror
  | JoinErr "gerror list"
  | ErrNotExist
  | AcmeProblem string string
  | StatusError int gerror

text \<open>\<open>errors.Is (err, fs.ErrNotExist)\<close> and \<open>errors.As (err, *acme.Response)\<close> look through wrapped errors.\<close>

fun isNotExist :: "gerror \<Rightarrow> bool" where
  "isNotExist ErrNotExist = True"
| "isNotExist (Wrapf _ _ e) = isNotExist e"
| "isNotExist (JoinErr es) = list_ex isNotExist es"
| "isNotExist _ = False"

fun asProblem :: "gerror \<Rightarrow> (string \<times> string) option" where
  "asProblem (AcmeProblem t d) = Some (t, d)"
| "asProblem (Wrapf _ _ e) = asProblem e"
| "asProblem (JoinErr []) = None"
| "asProblem (JoinErr (e # es)) = (case asProblem e of Some p \<Rightarrow> Some p | None \<Rightarrow> asProblem (JoinErr es))"
| "asProblem _ = None"

text \<open>\<open>errors.As (err, *statusError)\<close>, the management API's error with an HTTP status.\<close>

fun asStatus :: "gerror \<Rightarrow> (int \<times> gerror) option" where
  "asStatus (StatusError c e) = Some (c, e)"
| "asStatus (Wrapf _ _ e) = asStatus e"
| "asStatus (JoinErr []) = None"
| "asStatus (JoinErr (e # es)) = (case asStatus e of Some p \<Rightarrow> Some p | None \<Rightarrow> asStatus (JoinErr es))"
| "asStatus _ = None"

type_synonym 'a result = "gerror + 'a"

fun rbind :: "'e + 'a \<Rightarrow> ('a \<Rightarrow> 'e + 'b) \<Rightarrow> 'e + 'b" where
  "rbind (Inl e) f = Inl e"
| "rbind (Inr x) f = f x"

definition wrap_err :: "('e \<Rightarrow> 'f) \<Rightarrow> 'e + 'a \<Rightarrow> 'f + 'a" where
  "wrap_err w m = (case m of Inl e \<Rightarrow> Inl (w e) | Inr x \<Rightarrow> Inr x)"

definition guard :: "bool \<Rightarrow> 'e \<Rightarrow> 'e + unit" where
  "guard b e = (if b then Inr () else Inl e)"

fun rfold :: "('a \<Rightarrow> 's \<Rightarrow> 'e + 's) \<Rightarrow> 'a list \<Rightarrow> 's \<Rightarrow> 'e + 's" where
  "rfold f [] s = Inr s"
| "rfold f (x # xs) s = rbind (f x s) (rfold f xs)"

fun rmap :: "('a \<Rightarrow> 'e + 'b) \<Rightarrow> 'a list \<Rightarrow> 'e + 'b list" where
  "rmap f [] = Inr []"
| "rmap f (x # xs) = rbind (f x) (\<lambda>y. rbind (rmap f xs) (\<lambda>ys. Inr (y # ys)))"

definition isOk :: "'e + 'a \<Rightarrow> bool" where
  "isOk m = (case m of Inl _ \<Rightarrow> False | Inr _ \<Rightarrow> True)"

lemma isOk_simps [simp]: "isOk (Inr x)" "\<not> isOk (Inl e)"
  by (simp_all add: isOk_def)

lemma isOk_iff: "isOk m \<longleftrightarrow> (\<exists>x. m = Inr x)"
  by (cases m) auto

lemma rbind_Inr_iff [result_simps]:
  "rbind m f = Inr y \<longleftrightarrow> (\<exists>x. m = Inr x \<and> f x = Inr y)"
  by (cases m) auto

lemma if_Inl_Inr_iff: "(if b then Inl e else m) = Inr y \<longleftrightarrow> \<not> b \<and> m = Inr y"
  by auto

lemma rbind_Inl_iff:
  "rbind m f = Inl e \<longleftrightarrow> m = Inl e \<or> (\<exists>x. m = Inr x \<and> f x = Inl e)"
  by (cases m) auto

lemma wrap_err_Inr_iff [result_simps]: "wrap_err w m = Inr x \<longleftrightarrow> m = Inr x"
  by (cases m) (auto simp: wrap_err_def)

lemma wrap_err_simps [simp]:
  "wrap_err w (Inl e) = Inl (w e)" "wrap_err w (Inr x) = Inr x"
  by (simp_all add: wrap_err_def)

lemma guard_Inr_iff [result_simps]: "guard b e = Inr u \<longleftrightarrow> b"
  by (simp add: guard_def)

lemma guard_simps [simp]: "guard True e = Inr ()" "guard False e = Inl e"
  by (simp_all add: guard_def)

lemma rmap_Inr_length: "rmap f xs = Inr ys \<Longrightarrow> length ys = length xs"
  by (induction xs arbitrary: ys) (auto simp: result_simps)

lemma rmap_Inr_map: "(\<And>x. x \<in> set xs \<Longrightarrow> f x = Inr (g x)) \<Longrightarrow> rmap f xs = Inr (map g xs)"
  by (induction xs) auto

lemma rmap_Inr_nth: "rmap f xs = Inr ys \<Longrightarrow> i < length xs \<Longrightarrow> f (xs ! i) = Inr (ys ! i)"
proof (induction xs arbitrary: ys i)
  case (Cons x xs)
  then show ?case by (cases i) (auto simp: result_simps)
qed simp

lemma rmap_Inr_elem: "rmap f xs = Inr ys \<Longrightarrow> x \<in> set xs \<Longrightarrow> \<exists>y \<in> set ys. f x = Inr y"
  by (induction xs arbitrary: ys) (auto simp: result_simps)

lemma rfold_append: "rfold f (xs @ ys) s = rbind (rfold f xs s) (rfold f ys)"
proof (induction xs arbitrary: s)
  case (Cons x xs)
  then show ?case by (cases "f x s") auto
qed simp

text \<open>A property that every step of a fold keeps holds after the fold.\<close>

lemma rfold_invariant:
  assumes "rfold f xs s = Inr t" and "P s"
    and "\<And>x u v. x \<in> set xs \<Longrightarrow> P u \<Longrightarrow> f x u = Inr v \<Longrightarrow> P v"
  shows "P t"
  using assms
proof (induction xs arbitrary: s)
  case (Cons x xs)
  from Cons.prems(1) obtain u where u: "f x s = Inr u" "rfold f xs u = Inr t"
    by (auto simp: result_simps)
  have "P u" by (rule Cons.prems(3) [OF _ Cons.prems(2) u(1)]) simp
  show ?case
    by (rule Cons.IH [OF u(2) \<open>P u\<close>]) (meson Cons.prems(3) list.set_intros(2))
qed simp

text \<open>In a fold that succeeds, every element's own step succeeded at some point of it.\<close>

lemma rfold_step:
  assumes "rfold f xs s = Inr t" and "x \<in> set xs"
  shows "\<exists>u v. f x u = Inr v"
  using assms by (induction xs arbitrary: s) (auto simp: result_simps)

section \<open>Fallible operations on a state\<close>

text \<open>
  An action changes a state and returns a result; \<open>abind\<close> stops at the first
  error and keeps the state reached. \<open>keeps P m\<close> says that the action keeps the
  property \<open>P\<close> of the state, errors included.
\<close>

type_synonym ('s, 'a) action = "'s \<Rightarrow> 'a result \<times> 's"

definition abind :: "('s, 'a) action \<Rightarrow> ('a \<Rightarrow> ('s, 'b) action) \<Rightarrow> ('s, 'b) action" where
  "abind m f = (\<lambda>s. case m s of (Inl e, t) \<Rightarrow> (Inl e, t) | (Inr x, t) \<Rightarrow> f x t)"

definition aok :: "'a \<Rightarrow> ('s, 'a) action" where
  "aok x = (\<lambda>s. (Inr x, s))"

definition afail :: "gerror \<Rightarrow> ('s, 'a) action" where
  "afail e = (\<lambda>s. (Inl e, s))"

definition awrap :: "(gerror \<Rightarrow> gerror) \<Rightarrow> ('s, 'a) action \<Rightarrow> ('s, 'a) action" where
  "awrap w m = (\<lambda>s. case m s of (r, t) \<Rightarrow> (wrap_err w r, t))"

definition aupd :: "('s \<Rightarrow> 's) \<Rightarrow> ('s, unit) action" where
  "aupd f = (\<lambda>s. (Inr (), f s))"

fun afold :: "('a \<Rightarrow> ('s, unit) action) \<Rightarrow> 'a list \<Rightarrow> ('s, unit) action" where
  "afold f [] = aok ()"
| "afold f (x # xs) = abind (f x) (\<lambda>_. afold f xs)"

text \<open>\<open>defer\<close>: the clean-up runs whatever the action's outcome.\<close>

definition adefer :: "('s \<Rightarrow> 's) \<Rightarrow> ('s, 'a) action \<Rightarrow> ('s, 'a) action" where
  "adefer f m = (\<lambda>s. case m s of (r, t) \<Rightarrow> (r, f t))"

definition keeps :: "('s \<Rightarrow> bool) \<Rightarrow> ('s, 'a) action \<Rightarrow> bool" where
  "keeps P m \<longleftrightarrow> (\<forall>s. P s \<longrightarrow> P (snd (m s)))"

named_theorems keeps_intros \<open>actions that keep a property of the state\<close>

lemma keepsD: "keeps P m \<Longrightarrow> P s \<Longrightarrow> m s = (r, t) \<Longrightarrow> P t"
  by (auto simp: keeps_def)

lemma keeps_abind [keeps_intros]: "keeps P m \<Longrightarrow> (\<And>x. keeps P (f x)) \<Longrightarrow> keeps P (abind m f)"
  by (auto simp: keeps_def abind_def split: prod.split sum.split)

lemma keeps_aok [keeps_intros]: "keeps P (aok x)"
  by (simp add: keeps_def aok_def)

lemma keeps_afail [keeps_intros]: "keeps P (afail e)"
  by (simp add: keeps_def afail_def)

lemma keeps_awrap [keeps_intros]: "keeps P m \<Longrightarrow> keeps P (awrap w m)"
  by (auto simp: keeps_def awrap_def split: prod.split)

lemma keeps_aupd: "(\<And>s. P s \<Longrightarrow> P (f s)) \<Longrightarrow> keeps P (aupd f)"
  by (simp add: keeps_def aupd_def)

lemma keeps_afold [keeps_intros]: "(\<And>x. x \<in> set xs \<Longrightarrow> keeps P (f x)) \<Longrightarrow> keeps P (afold f xs)"
  by (induction xs) (auto intro: keeps_intros)

lemma keeps_if [keeps_intros]: "(b \<Longrightarrow> keeps P m) \<Longrightarrow> (\<not> b \<Longrightarrow> keeps P n) \<Longrightarrow> keeps P (if b then m else n)"
  by simp

lemma keeps_option [keeps_intros]:
  "(x = None \<Longrightarrow> keeps P n) \<Longrightarrow> (\<And>y. x = Some y \<Longrightarrow> keeps P (f y)) \<Longrightarrow>
   keeps P (case x of None \<Rightarrow> n | Some y \<Rightarrow> f y)"
  by (cases x) simp_all

lemma keeps_prod [keeps_intros]: "(\<And>a b. keeps P (f a b)) \<Longrightarrow> keeps P (case x of (a, b) \<Rightarrow> f a b)"
  by (cases x) simp

section \<open>Go maps\<close>

text \<open>
  A Go map is an association list without duplicate keys. Iteration over a Go
  map has no specified order; the model fixes the order of the list, and
  theorems quantify over the list and so over every order.
\<close>

type_synonym ('k, 'v) gomap = "('k \<times> 'v) list"

abbreviation mget :: "('k, 'v) gomap \<Rightarrow> 'k \<Rightarrow> 'v option" where
  "mget m k \<equiv> map_of m k"

abbreviation mput :: "'k \<Rightarrow> 'v \<Rightarrow> ('k, 'v) gomap \<Rightarrow> ('k, 'v) gomap" where
  "mput \<equiv> AList.update"

abbreviation mdel :: "'k \<Rightarrow> ('k, 'v) gomap \<Rightarrow> ('k, 'v) gomap" where
  "mdel \<equiv> AList.delete"

abbreviation mkeys :: "('k, 'v) gomap \<Rightarrow> 'k list" where
  "mkeys m \<equiv> map fst m"

definition mhas :: "('k, 'v) gomap \<Rightarrow> 'k \<Rightarrow> bool" where
  "mhas m k = (map_of m k \<noteq> None)"

lemma mget_mput [gomap_simps, simp]: "mget (mput k v m) k' = (if k' = k then Some v else mget m k')"
  by (simp add: update_conv')

lemma mget_mdel [gomap_simps, simp]: "mget (mdel k m) k' = (if k' = k then None else mget m k')"
  by (simp add: delete_conv')

lemma mhas_mput [gomap_simps, simp]: "mhas (mput k v m) k' \<longleftrightarrow> k' = k \<or> mhas m k'"
  by (simp add: mhas_def)

lemma mhas_Nil [simp]: "\<not> mhas [] k"
  by (simp add: mhas_def)

lemma mhas_iff_keys: "mhas m k \<longleftrightarrow> k \<in> set (mkeys m)"
  by (simp add: mhas_def map_of_eq_None_iff)

lemma mput_keys: "set (mkeys (mput k v m)) = insert k (set (mkeys m))"
  by (induction m) auto

lemma mput_keys_all: "P k \<Longrightarrow> list_all P (mkeys m) \<Longrightarrow> list_all P (mkeys (mput k v m))"
  by (induction m) auto

lemma mdel_keys_all: "list_all P (mkeys m) \<Longrightarrow> list_all P (mkeys (mdel k m))"
  by (induction m) (auto simp: AList.delete_eq)

lemma mput_distinct [simp]: "distinct (mkeys m) \<Longrightarrow> distinct (mkeys (mput k v m))"
  by (rule distinct_update)

lemma mdel_distinct [simp]: "distinct (mkeys m) \<Longrightarrow> distinct (mkeys (mdel k m))"
  by (simp add: distinct_delete)

lemma mput_not_Nil [simp]: "mput k v m \<noteq> []"
  by (cases m) auto

lemma mput_fresh: "mget m k = None \<Longrightarrow> mput k v m = m @ [(k, v)]"
  by (induction m) (auto split: if_splits)

lemma mdel_absent: "mget m k = None \<Longrightarrow> mdel k m = m"
  by (induction m) (auto simp: AList.delete_eq split: if_splits)

section \<open>Lists\<close>

lemma takeWhile_all: "(\<And>x. x \<in> set xs \<Longrightarrow> P x) \<Longrightarrow> takeWhile P xs = xs"
  by (induction xs) auto

lemma dropWhile_all: "(\<And>x. x \<in> set xs \<Longrightarrow> P x) \<Longrightarrow> dropWhile P xs = []"
  by (induction xs) auto

lemma dropWhile_none: "xs = [] \<or> \<not> P (hd xs) \<Longrightarrow> dropWhile P xs = xs"
  by (cases xs) auto

end
