(* ===== verification/Go_Strings.thy ===== *)
theory Go_Strings
  imports Prelude
begin

text \<open>
  The functions of Go's \<open>strings\<close> package the code uses, on byte strings
  (\<open>string\<close> is a list of bytes). \<open>toLower\<close>, \<open>toUpper\<close> and \<open>trimSpace\<close> are the
  functions on ASCII text; they leave bytes above 127 alone, while Go also
  folds the case of non-ASCII letters and trims non-ASCII spaces.
\<close>

section \<open>Bytes\<close>

definition is_space :: "char \<Rightarrow> bool" where
  "is_space c = (let n = of_char c :: nat in n = 32 \<or> 9 \<le> n \<and> n \<le> 13)"

definition lower :: "char \<Rightarrow> char" where
  "lower c = (let n = of_char c :: nat in if 65 \<le> n \<and> n \<le> 90 then char_of (n + 32) else c)"

definition upper :: "char \<Rightarrow> char" where
  "upper c = (let n = of_char c :: nat in if 97 \<le> n \<and> n \<le> 122 then char_of (n - 32) else c)"

lemma lower_idem [simp]: "lower (lower c) = lower c"
  by (auto simp: lower_def Let_def)

section \<open>Prefixes, suffixes, trimming\<close>

definition hasPrefix :: "string \<Rightarrow> string \<Rightarrow> bool" where
  "hasPrefix s p = (take (length p) s = p)"

definition hasSuffix :: "string \<Rightarrow> string \<Rightarrow> bool" where
  "hasSuffix s p = hasPrefix (rev s) (rev p)"

definition cutPrefix :: "string \<Rightarrow> string \<Rightarrow> string option" where
  "cutPrefix s p = (if hasPrefix s p then Some (drop (length p) s) else None)"

definition trimPrefix :: "string \<Rightarrow> string \<Rightarrow> string" where
  "trimPrefix s p = (if hasPrefix s p then drop (length p) s else s)"

definition trimSuffix :: "string \<Rightarrow> string \<Rightarrow> string" where
  "trimSuffix s p = (if hasSuffix s p then take (length s - length p) s else s)"

definition trimWhile :: "(char \<Rightarrow> bool) \<Rightarrow> string \<Rightarrow> string" where
  "trimWhile P s = rev (dropWhile P (rev (dropWhile P s)))"

definition trimSpace :: "string \<Rightarrow> string" where
  "trimSpace = trimWhile is_space"

definition trimChars :: "string \<Rightarrow> string \<Rightarrow> string" where
  "trimChars s cutset = trimWhile (\<lambda>c. c \<in> set cutset) s"

definition toLower :: "string \<Rightarrow> string" where
  "toLower s = map lower s"

definition toUpper :: "string \<Rightarrow> string" where
  "toUpper s = map upper s"

lemma hasPrefix_append [simp]: "hasPrefix (p @ s) p"
  by (simp add: hasPrefix_def)

lemma hasPrefix_iff: "hasPrefix s p \<longleftrightarrow> (\<exists>t. s = p @ t)"
  unfolding hasPrefix_def by (metis append_eq_conv_conj append_take_drop_id)

lemma hasPrefix_Nil [simp]: "hasPrefix s []"
  by (simp add: hasPrefix_def)

lemma cutPrefix_Some_iff: "cutPrefix s p = Some t \<longleftrightarrow> s = p @ t"
  by (auto simp: cutPrefix_def hasPrefix_iff)

lemma cutPrefix_None_iff: "cutPrefix s p = None \<longleftrightarrow> \<not> hasPrefix s p"
  by (simp add: cutPrefix_def)

lemma hasSuffix_iff: "hasSuffix s p \<longleftrightarrow> (\<exists>t. s = t @ p)"
proof
  assume "hasSuffix s p"
  then obtain t where "rev s = rev p @ t"
    by (auto simp: hasSuffix_def hasPrefix_iff)
  then have "s = rev t @ p" by (metis rev_append rev_rev_ident)
  then show "\<exists>t. s = t @ p" ..
next
  assume "\<exists>t. s = t @ p"
  then show "hasSuffix s p" by (auto simp: hasSuffix_def)
qed

lemma trimSuffix_append [simp]: "trimSuffix (s @ p) p = s"
  by (auto simp: trimSuffix_def hasSuffix_iff)

lemma trimPrefix_append [simp]: "trimPrefix (p @ s) p = s"
  by (simp add: trimPrefix_def)

section \<open>Searching, cutting, splitting\<close>

definition containsChar :: "string \<Rightarrow> char \<Rightarrow> bool" where
  "containsChar s c = (c \<in> set s)"

definition containsAny :: "string \<Rightarrow> string \<Rightarrow> bool" where
  "containsAny s cs = list_ex (\<lambda>c. c \<in> set cs) s"

fun containsStr :: "string \<Rightarrow> string \<Rightarrow> bool" where
  "containsStr [] sub = (sub = [])"
| "containsStr (c # cs) sub = (hasPrefix (c # cs) sub \<or> containsStr cs sub)"

fun indexChar :: "char \<Rightarrow> string \<Rightarrow> nat option" where
  "indexChar c [] = None"
| "indexChar c (x # xs) = (if x = c then Some 0 else map_option Suc (indexChar c xs))"

definition lastIndexChar :: "char \<Rightarrow> string \<Rightarrow> nat option" where
  "lastIndexChar c s = map_option (\<lambda>i. length s - Suc i) (indexChar c (rev s))"

fun cutChar :: "char \<Rightarrow> string \<Rightarrow> (string \<times> string) option" where
  "cutChar c [] = None"
| "cutChar c (x # xs) =
     (if x = c then Some ([], xs) else map_option (\<lambda>(a, b). (x # a, b)) (cutChar c xs))"

fun cutStr :: "string \<Rightarrow> string \<Rightarrow> (string \<times> string) option" where
  "cutStr sep [] = (if sep = [] then Some ([], []) else None)"
| "cutStr sep (x # xs) =
     (if hasPrefix (x # xs) sep then Some ([], drop (length sep) (x # xs))
      else map_option (\<lambda>(a, b). (x # a, b)) (cutStr sep xs))"

fun splitChar :: "char \<Rightarrow> string \<Rightarrow> string list" where
  "splitChar c [] = [[]]"
| "splitChar c (x # xs) =
     (if x = c then [] # splitChar c xs
      else (case splitChar c xs of [] \<Rightarrow> [[x]] | p # ps \<Rightarrow> (x # p) # ps))"

fun joinStr :: "string \<Rightarrow> string list \<Rightarrow> string" where
  "joinStr sep [] = []"
| "joinStr sep [s] = s"
| "joinStr sep (s # t # ts) = s @ sep @ joinStr sep (t # ts)"

definition replaceChar :: "char \<Rightarrow> string \<Rightarrow> string \<Rightarrow> string" where
  "replaceChar c r s = concat (map (\<lambda>x. if x = c then r else [x]) s)"

lemma cutChar_Some_iff: "cutChar c s = Some (a, b) \<longleftrightarrow> s = a @ c # b \<and> c \<notin> set a"
proof (induction s arbitrary: a b)
  case (Cons x xs)
  show ?case
  proof (cases a)
    case Nil
    then show ?thesis by auto
  next
    case (Cons y a')
    then show ?thesis using Cons.IH [of a' b] by auto
  qed
qed simp

lemma cutChar_None_iff: "cutChar c s = None \<longleftrightarrow> c \<notin> set s"
  by (induction s) auto

lemma indexChar_None_iff: "indexChar c s = None \<longleftrightarrow> c \<notin> set s"
  by (induction s) auto

lemma indexChar_append: "c \<notin> set a \<Longrightarrow> indexChar c (a @ c # b) = Some (length a)"
  by (induction a) auto

lemma lastIndexChar_append: "c \<notin> set b \<Longrightarrow> lastIndexChar c (a @ c # b) = Some (length a)"
  by (simp add: lastIndexChar_def indexChar_append)

lemma splitChar_not_Nil [simp]: "splitChar c s \<noteq> []"
  by (induction s) (auto split: list.splits)

lemma splitChar_no_sep: "c \<notin> set s \<Longrightarrow> splitChar c s = [s]"
  by (induction s) auto

lemma splitChar_append_sep: "c \<notin> set a \<Longrightarrow> splitChar c (a @ c # s) = a # splitChar c s"
  by (induction a) auto

lemma splitChar_parts: "p \<in> set (splitChar c s) \<Longrightarrow> c \<notin> set p"
proof (induction s arbitrary: p)
  case (Cons x xs)
  then show ?case by (cases "splitChar c xs") (auto split: if_splits)
qed simp

lemma joinStr_splitChar: "joinStr [c] (splitChar c s) = s"
proof (induction s)
  case (Cons x xs)
  obtain p ps where sp: "splitChar c xs = p # ps"
    by (cases "splitChar c xs") auto
  with Cons show ?case by (cases ps) auto
qed simp

section \<open>Decimal numbers\<close>

fun itoa_nat :: "nat \<Rightarrow> string" where
  "itoa_nat n = (if n < 10 then [char_of (48 + n)]
                 else itoa_nat (n div 10) @ [char_of (48 + n mod 10)])"

declare itoa_nat.simps [simp del]

definition itoa :: "int \<Rightarrow> string" where
  "itoa i = (if i < 0 then CHR ''-'' # itoa_nat (nat (- i)) else itoa_nat (nat i))"

definition is_digit :: "char \<Rightarrow> bool" where
  "is_digit c = (let n = of_char c :: nat in 48 \<le> n \<and> n \<le> 57)"

definition digit_val :: "char \<Rightarrow> nat" where
  "digit_val c = of_char c - 48"

fun digits_val :: "nat \<Rightarrow> string \<Rightarrow> nat" where
  "digits_val acc [] = acc"
| "digits_val acc (c # cs) = digits_val (10 * acc + digit_val c) cs"

definition atoi_nat :: "string \<Rightarrow> nat option" where
  "atoi_nat s = (if s \<noteq> [] \<and> list_all is_digit s then Some (digits_val 0 s) else None)"

lemma digits_val_append: "digits_val acc (s @ [c]) = 10 * digits_val acc s + digit_val c"
  by (induction s arbitrary: acc) auto

lemma digit_char: "n < 10 \<Longrightarrow> is_digit (char_of (48 + n)) \<and> digit_val (char_of (48 + n)) = n"
  by (simp add: is_digit_def digit_val_def Let_def)

lemma itoa_nat_digits: "itoa_nat n \<noteq> [] \<and> list_all is_digit (itoa_nat n)"
proof (induction n rule: itoa_nat.induct)
  case (1 n)
  show ?case
  proof (cases "n < 10")
    case True
    then show ?thesis using digit_char [of n] by (simp add: itoa_nat.simps [of n])
  next
    case False
    then show ?thesis using 1 digit_char [of "n mod 10"] by (simp add: itoa_nat.simps [of n])
  qed
qed

lemma digits_val_itoa: "digits_val 0 (itoa_nat n) = n"
proof (induction n rule: itoa_nat.induct)
  case (1 n)
  show ?case
  proof (cases "n < 10")
    case True
    then show ?thesis using digit_char [of n] by (simp add: itoa_nat.simps [of n])
  next
    case False
    then show ?thesis using 1 digit_char [of "n mod 10"]
      by (simp add: itoa_nat.simps [of n] digits_val_append)
  qed
qed

lemma atoi_itoa_nat: "atoi_nat (itoa_nat n) = Some n"
  by (simp add: atoi_nat_def itoa_nat_digits digits_val_itoa)

lemma itoa_nat_inject [simp]: "itoa_nat m = itoa_nat n \<longleftrightarrow> m = n"
  by (metis atoi_itoa_nat option.inject)

text \<open>\<open>strings.Cut\<close> at the first occurrence of a separator.\<close>

fun cutString :: "string \<Rightarrow> string \<Rightarrow> (string \<times> string) option" where
  "cutString sep [] = (if sep = [] then Some ([], []) else None)"
| "cutString sep (c # cs) =
     (case cutPrefix (c # cs) sep of
        Some t \<Rightarrow> Some ([], t)
      | None \<Rightarrow> map_option (\<lambda>(a, b). (c # a, b)) (cutString sep cs))"

lemma cutString_Some: "cutString sep s = Some (a, b) \<Longrightarrow> s = a @ sep @ b"
proof (induction sep s arbitrary: a rule: cutString.induct)
  case (2 sep c cs)
  then show ?case by (auto simp: cutPrefix_Some_iff split: option.splits)
qed (simp split: if_splits)

end
