(* ===== verification/Go_Net.thy ===== *)
theory Go_Net
  imports Go_Strings "HOL-Library.Word"
begin

text \<open>
  The parts of Go's \<open>net\<close> and \<open>net/netip\<close> packages the code uses:
  \<open>SplitHostPort\<close> and \<open>JoinHostPort\<close>, and addresses and prefixes
  (\<open>ParseAddr\<close>, \<open>Unmap\<close>, \<open>ParsePrefix\<close>, \<open>Masked\<close>, \<open>Contains\<close>,
  \<open>String\<close>). An address is a 32-bit word, or a 128-bit word with a zone; the
  invalid zero value of \<open>netip.Addr\<close> is \<open>None\<close> of \<open>ipaddr option\<close>.
\<close>

section \<open>Host and port\<close>

definition splitHostPort :: "string \<Rightarrow> (string \<times> string) option" where
  "splitHostPort s =
     (case lastIndexChar CHR '':'' s of
        None \<Rightarrow> None
      | Some i \<Rightarrow>
          (let finish = (\<lambda>host j k.
                 if CHR ''['' \<in> set (drop j s) \<or> CHR '']'' \<in> set (drop k s) then None
                 else Some (host, drop (Suc i) s))
           in if hasPrefix s ''['' then
                (case indexChar CHR '']'' s of
                   None \<Rightarrow> None
                 | Some e \<Rightarrow>
                     if Suc e = length s then None
                     else if Suc e = i then finish (take (e - 1) (drop 1 s)) 1 (Suc e)
                     else None)
              else if CHR '':'' \<in> set (take i s) then None
              else finish (take i s) 0 0))"

definition joinHostPort :: "string \<Rightarrow> string \<Rightarrow> string" where
  "joinHostPort host port =
     (if CHR '':'' \<in> set host then ''['' @ host @ '']:'' @ port else host @ '':'' @ port)"

section \<open>Addresses\<close>

datatype ipaddr = V4 "32 word" | V6 "128 word" string

definition is4in6 :: "ipaddr \<Rightarrow> bool" where
  "is4in6 a = (case a of V4 _ \<Rightarrow> False | V6 w _ \<Rightarrow> drop_bit 32 w = 65535)"

definition unmap :: "ipaddr \<Rightarrow> ipaddr" where
  "unmap a = (case a of V4 w \<Rightarrow> V4 w | V6 w z \<Rightarrow> if is4in6 (V6 w z) then V4 (ucast w) else V6 w z)"

definition is6 :: "ipaddr \<Rightarrow> bool" where
  "is6 a = (case a of V4 _ \<Rightarrow> False | V6 _ _ \<Rightarrow> True)"

definition bitLen :: "ipaddr \<Rightarrow> nat" where
  "bitLen a = (case a of V4 _ \<Rightarrow> 32 | V6 _ _ \<Rightarrow> 128)"

definition be_int :: "nat list \<Rightarrow> int" where
  "be_int bs = foldl (\<lambda>a b. a * 256 + int b) 0 bs"

definition parse_octet :: "string \<Rightarrow> nat option" where
  "parse_octet s =
     (if s \<noteq> [] \<and> list_all is_digit s \<and> (hasPrefix s ''0'' \<longrightarrow> length s = 1) \<and> digits_val 0 s \<le> 255
      then Some (digits_val 0 s) else None)"

definition parseIPv4Fields :: "string \<Rightarrow> nat list option" where
  "parseIPv4Fields s =
     (case map parse_octet (splitChar CHR ''.'' s) of
        [Some a, Some b, Some c, Some d] \<Rightarrow> Some [a, b, c, d]
      | _ \<Rightarrow> None)"

definition is_hex :: "char \<Rightarrow> bool" where
  "is_hex c = (let n = of_char c :: nat in 48 \<le> n \<and> n \<le> 57 \<or> 97 \<le> n \<and> n \<le> 102 \<or> 65 \<le> n \<and> n \<le> 70)"

definition hex_val :: "char \<Rightarrow> nat" where
  "hex_val c = (let n = of_char c in if n \<le> 57 then n - 48 else if 97 \<le> n then n - 87 else n - 55)"

function v6_loop :: "string \<Rightarrow> nat list \<Rightarrow> nat option \<Rightarrow> (string \<times> nat list \<times> nat option) option" where
  "v6_loop s ip ell =
     (if 16 \<le> length ip then Some (s, ip, ell)
      else
        let hex = takeWhile is_hex s;
            rest = drop (length hex) s;
            acc = foldl (\<lambda>a c. a * 16 + hex_val c) 0 hex;
            ip' = ip @ [acc div 256, acc mod 256]
        in if hex = [] \<or> 4 < length hex then None
           else if hasPrefix rest ''.'' then
             (if ell = None \<and> length ip \<noteq> 12 then None
              else if 16 < length ip + 4 then None
              else (case parseIPv4Fields s of None \<Rightarrow> None | Some bs \<Rightarrow> Some ([], ip @ bs, ell)))
           else if rest = [] then Some ([], ip', ell)
           else if hd rest \<noteq> CHR '':'' \<or> tl rest = [] then None
           else if hd (tl rest) = CHR '':'' then
             (if ell \<noteq> None then None
              else if tl (tl rest) = [] then Some ([], ip', Some (length ip'))
              else v6_loop (tl (tl rest)) ip' (Some (length ip')))
           else v6_loop (tl rest) ip' ell)"
  by pat_completeness auto
termination by (relation "measure (\<lambda>(s, ip, ell). 16 - length ip)") (auto simp: Let_def)

declare v6_loop.simps [simp del]

definition parseIPv6 :: "string \<Rightarrow> ipaddr option" where
  "parseIPv6 str =
     (let (s, zone, ok) = (case cutChar CHR ''%'' str of
            None \<Rightarrow> (str, [], True)
          | Some (a, z) \<Rightarrow> (a, z, z \<noteq> []));
          (s', ell) = (if hasPrefix s ''::'' then (drop 2 s, Some 0) else (s, None))
      in if \<not> ok then None
         else if ell = Some 0 \<and> s' = [] then Some (V6 0 zone)
         else (case v6_loop s' [] ell of
                 None \<Rightarrow> None
               | Some (r, ip, e) \<Rightarrow>
                   if r \<noteq> [] then None
                   else if length ip < 16 then
                     (case e of None \<Rightarrow> None
                      | Some k \<Rightarrow> Some (V6 (word_of_int (be_int (take k ip @ replicate (16 - length ip) 0 @ drop k ip))) zone))
                   else if e \<noteq> None then None
                   else Some (V6 (word_of_int (be_int ip)) zone)))"

definition parseAddr :: "string \<Rightarrow> ipaddr option" where
  "parseAddr s =
     (case filter (\<lambda>c. c = CHR ''.'' \<or> c = CHR '':'' \<or> c = CHR ''%'') s of
        [] \<Rightarrow> None
      | c # _ \<Rightarrow>
          if c = CHR ''.'' then map_option (\<lambda>bs. V4 (word_of_int (be_int bs))) (parseIPv4Fields s)
          else if c = CHR '':'' then parseIPv6 s
          else None)"

section \<open>Prefixes\<close>

record ipprefix =
  pfx_addr :: ipaddr
  pfx_bits :: nat

definition withoutZone :: "ipaddr \<Rightarrow> ipaddr" where
  "withoutZone a = (case a of V4 w \<Rightarrow> V4 w | V6 w _ \<Rightarrow> V6 w [])"

definition hasZone :: "ipaddr \<Rightarrow> bool" where
  "hasZone a = (case a of V4 _ \<Rightarrow> False | V6 _ z \<Rightarrow> z \<noteq> [])"

definition prefixFrom :: "ipaddr \<Rightarrow> nat \<Rightarrow> ipprefix" where
  "prefixFrom a n = \<lparr>pfx_addr = withoutZone a, pfx_bits = n\<rparr>"

definition maskAddr :: "nat \<Rightarrow> ipaddr \<Rightarrow> ipaddr" where
  "maskAddr n a = (case a of
      V4 w \<Rightarrow> V4 (push_bit (32 - n) (drop_bit (32 - n) w))
    | V6 w z \<Rightarrow> V6 (push_bit (128 - n) (drop_bit (128 - n) w)) z)"

definition masked :: "ipprefix \<Rightarrow> ipprefix" where
  "masked p = p\<lparr>pfx_addr := maskAddr (pfx_bits p) (pfx_addr p)\<rparr>"

definition prefixContains :: "ipprefix \<Rightarrow> ipaddr \<Rightarrow> bool" where
  "prefixContains p a = (case (pfx_addr p, a) of
      (V4 v, V4 w) \<Rightarrow> drop_bit (32 - pfx_bits p) v = drop_bit (32 - pfx_bits p) w
    | (V6 v _, V6 w z) \<Rightarrow> z = [] \<and> drop_bit (128 - pfx_bits p) v = drop_bit (128 - pfx_bits p) w
    | _ \<Rightarrow> False)"

definition parsePrefix :: "string \<Rightarrow> ipprefix option" where
  "parsePrefix s =
     (case lastIndexChar CHR ''/'' s of
        None \<Rightarrow> None
      | Some i \<Rightarrow>
          (case parseAddr (take i s) of
             None \<Rightarrow> None
           | Some a \<Rightarrow>
               (let bs = drop (Suc i) s in
                if hasZone a \<or> (1 < length bs \<and> hasPrefix bs ''0'') then None
                else (case atoi_nat bs of
                        None \<Rightarrow> None
                      | Some n \<Rightarrow> if bitLen a < n then None else Some (prefixFrom a n)))))"

section \<open>Formatting\<close>

definition hex_digit :: "nat \<Rightarrow> char" where
  "hex_digit n = (if n < 10 then char_of (48 + n) else char_of (87 + n))"

definition hex16 :: "nat \<Rightarrow> string" where
  "hex16 n = (let ds = [n div 4096 mod 16, n div 256 mod 16, n div 16 mod 16]
              in map hex_digit (dropWhile (\<lambda>d. d = 0) ds @ [n mod 16]))"

definition v6_groups :: "128 word \<Rightarrow> nat list" where
  "v6_groups w = map (\<lambda>i. nat (uint w div 65536 ^ (7 - i) mod 65536)) [0..<8]"

definition zero_run :: "nat list \<Rightarrow> nat \<Rightarrow> nat" where
  "zero_run g i = length (takeWhile (\<lambda>x. x = 0) (drop i g))"

definition best_run :: "nat list \<Rightarrow> nat \<times> nat" where
  "best_run g =
     foldl (\<lambda>(zs, ze) i. let l = zero_run g i in if 2 \<le> l \<and> ze - zs < l then (i, i + l) else (zs, ze))
       (255, 255) [0..<8]"

definition string6 :: "128 word \<Rightarrow> string" where
  "string6 w =
     (let g = v6_groups w; (zs, ze) = best_run g
      in if zs = 255 then joinStr '':'' (map hex16 g)
         else joinStr '':'' (map hex16 (take zs g)) @ ''::'' @ joinStr '':'' (map hex16 (drop ze g)))"

definition string4 :: "32 word \<Rightarrow> string" where
  "string4 w = joinStr ''.'' (map (\<lambda>i. itoa_nat (nat (uint w div 256 ^ (3 - i) mod 256))) [0..<4])"

definition addrString :: "ipaddr \<Rightarrow> string" where
  "addrString a = (case a of
      V4 w \<Rightarrow> string4 w
    | V6 w z \<Rightarrow> (if is4in6 a then ''::ffff:'' @ string4 (ucast w) else string6 w)
                 @ (if z = [] then [] else CHR ''%'' # z))"

definition prefixString :: "ipprefix \<Rightarrow> string" where
  "prefixString p = addrString (pfx_addr p) @ ''/'' @ itoa_nat (pfx_bits p)"

section \<open>Lemmas\<close>

lemma is4in6_V4 [simp]: "\<not> is4in6 (V4 w)"
  by (simp add: is4in6_def)

lemma unmap_V4 [simp]: "unmap (V4 w) = V4 w"
  by (simp add: unmap_def)

lemma unmap_idem [simp]: "unmap (unmap a) = unmap a"
  by (cases a) (auto simp: unmap_def)

lemma drop_push_drop [simp]:
  "drop_bit k (push_bit k (drop_bit k u)) = drop_bit k (u :: 'a::len word)"
  by (auto intro!: bit_word_eqI simp: bit_simps dest: bit_imp_le_length)

lemma maskAddr_eq_iff:
  "maskAddr n (V6 v z) = maskAddr n (V6 w z) \<longleftrightarrow> drop_bit (128 - n) v = drop_bit (128 - n) w"
  by (auto simp: maskAddr_def) (metis drop_push_drop)

lemma prefixContains_masked [simp]: "prefixContains (masked p) a = prefixContains p a"
  by (auto simp: prefixContains_def masked_def maskAddr_def split: ipaddr.splits)

lemma prefixContains_self:
  "prefixContains (prefixFrom a n) a \<longleftrightarrow> \<not> hasZone a"
  by (cases a) (auto simp: prefixContains_def prefixFrom_def withoutZone_def hasZone_def)

end
