(* ===== verification/Hosts.thy ===== *)
theory Hosts
  imports Go_Net
begin

text \<open>
  \<open>hosts.go\<close>: the table from host patterns to values that serves both the
  sites of a listener and the certificates of the gateway, and the
  normalisation and validation of host names. The state is the record
  \<open>hostTable\<close>; the abstract view of a table is the partial function
  \<open>hostTable_get t\<close> from patterns to values, and \<open>hostTable_match\<close> is the first
  hit along \<open>hostPatterns\<close>, the patterns that apply to a host in order of
  precedence. The locale \<open>host_index\<close> is this contract; the clients (sites in
  \<open>Compile\<close>, certificates in \<open>Tls\<close>) use the lemmas proved in it.
\<close>

section \<open>The table\<close>

record 'a hostTable =
  exact :: "(string, 'a) gomap"
  wildcard :: "(string, 'a) gomap"
  fallback :: "'a option"

definition newHostTable :: "'a hostTable" where
  "newHostTable = \<lparr>exact = [], wildcard = [], fallback = None\<rparr>"

definition hostTable_set :: "string \<Rightarrow> 'a \<Rightarrow> 'a hostTable \<Rightarrow> bool \<times> 'a hostTable" where
  "hostTable_set pattern v t =
     (if pattern = ''*'' then (fallback t \<noteq> None, t\<lparr>fallback := Some v\<rparr>)
      else if hasPrefix pattern ''*.'' then
        (mhas (wildcard t) (drop 2 pattern), t\<lparr>wildcard := mput (drop 2 pattern) v (wildcard t)\<rparr>)
      else (mhas (exact t) pattern, t\<lparr>exact := mput pattern v (exact t)\<rparr>))"

definition hostTable_get :: "'a hostTable \<Rightarrow> string \<Rightarrow> 'a option" where
  "hostTable_get t pattern =
     (if pattern = ''*'' then fallback t
      else if hasPrefix pattern ''*.'' then mget (wildcard t) (drop 2 pattern)
      else mget (exact t) pattern)"

definition hostTable_match :: "'a hostTable \<Rightarrow> string \<Rightarrow> 'a option" where
  "hostTable_match t host =
     (case mget (exact t) host of
        Some v \<Rightarrow> Some v
      | None \<Rightarrow>
          (case (case cutChar CHR ''.'' host of
                   Some (label, parent) \<Rightarrow> if label \<noteq> [] then mget (wildcard t) parent else None
                 | None \<Rightarrow> None) of
             Some v \<Rightarrow> Some v
           | None \<Rightarrow> fallback t))"

definition hostTable_empty :: "'a hostTable \<Rightarrow> bool" where
  "hostTable_empty t = (exact t = [] \<and> wildcard t = [] \<and> fallback t = None)"

section \<open>Host names\<close>

definition normalizeHost :: "string \<Rightarrow> string" where
  "normalizeHost host = trimSuffix (toLower (trimSpace host)) ''.''"

definition requestHost :: "string \<Rightarrow> string" where
  "requestHost hostport =
     (let h = (case splitHostPort hostport of Some (host, _) \<Rightarrow> host | None \<Rightarrow> hostport)
      in normalizeHost (trimChars h ''[]''))"

definition validateHostPattern :: "string \<Rightarrow> unit result" where
  "validateHostPattern pattern =
     (if pattern = [] then Inl (Errorf ''empty host'' [])
      else if parseAddr pattern \<noteq> None \<or> pattern = ''*'' then Inr ()
      else
        let name = trimPrefix pattern ''*.''
        in if name = [] \<or> containsStr name ''*'' \<or>
              containsAny name [CHR ''/'', CHR '':'', CHR ''@'', CHR '' '', CHR 0x09, CHR 0x0D, CHR 0x0A]
           then Inl (Errorf ''invalid host %q'' [pattern])
           else Inr ())"

section \<open>The contract of a table\<close>

text \<open>The patterns that apply to a host, most specific first.\<close>

definition hostPatterns :: "string \<Rightarrow> string list" where
  "hostPatterns host =
     host # (case cutChar CHR ''.'' host of
               Some (label, parent) \<Rightarrow> if label \<noteq> [] then [''*.'' @ parent] else []
             | None \<Rightarrow> []) @ [''*'']"

fun firstSome :: "('a \<Rightarrow> 'b option) \<Rightarrow> 'a list \<Rightarrow> 'b option" where
  "firstSome f [] = None"
| "firstSome f (x # xs) = (case f x of Some y \<Rightarrow> Some y | None \<Rightarrow> firstSome f xs)"

definition wf_hostTable :: "'a hostTable \<Rightarrow> bool" where
  "wf_hostTable t \<longleftrightarrow>
     list_all (\<lambda>p. p \<noteq> ''*'' \<and> \<not> hasPrefix p ''*.'') (mkeys (exact t)) \<and>
     distinct (mkeys (exact t)) \<and> distinct (mkeys (wildcard t))"

lemma firstSome_None_iff: "firstSome f xs = None \<longleftrightarrow> (\<forall>x \<in> set xs. f x = None)"
  by (induction xs) (auto split: option.splits)

lemma firstSome_Some:
  "firstSome f xs = Some y \<Longrightarrow>
   \<exists>us x vs. xs = us @ x # vs \<and> f x = Some y \<and> (\<forall>u \<in> set us. f u = None)"
proof (induction xs)
  case (Cons x xs)
  show ?case
  proof (cases "f x")
    case None
    then obtain us z vs where "xs = us @ z # vs" "f z = Some y" "\<forall>u \<in> set us. f u = None"
      using Cons by auto
    then have "x # xs = (x # us) @ z # vs \<and> f z = Some y \<and> (\<forall>u \<in> set (x # us). f u = None)"
      using None by simp
    then show ?thesis by blast
  next
    case (Some z)
    then have "x # xs = [] @ x # xs \<and> f x = Some y \<and> (\<forall>u \<in> set []. f u = None)"
      using Cons.prems by simp
    then show ?thesis by blast
  qed
qed simp

lemma firstSome_cong: "(\<And>x. x \<in> set xs \<Longrightarrow> f x = g x) \<Longrightarrow> firstSome f xs = firstSome g xs"
  by (induction xs) (auto split: option.split)

lemma star_hostPatterns [simp]: "''*'' \<in> set (hostPatterns h)"
  by (simp add: hostPatterns_def)

lemma self_hostPatterns [simp]: "h \<in> set (hostPatterns h)"
  by (simp add: hostPatterns_def)

locale host_index =
  fixes init :: "'t"
    and put :: "string \<Rightarrow> 'v \<Rightarrow> 't \<Rightarrow> 't"
    and get :: "'t \<Rightarrow> string \<Rightarrow> 'v option"
    and look :: "'t \<Rightarrow> string \<Rightarrow> 'v option"
    and ok :: "'t \<Rightarrow> bool"
  assumes get_init: "get init p = None"
    and get_put: "get (put p v t) q = (if q = p then Some v else get t q)"
    and look_first: "ok t \<Longrightarrow> look t h = firstSome (get t) (hostPatterns h)"
    and ok_init: "ok init"
    and ok_put: "ok t \<Longrightarrow> ok (put p v t)"
begin

lemma look_init: "look init h = None"
  by (simp add: look_first [OF ok_init] firstSome_None_iff get_init)

lemma look_from_get:
  assumes "ok t" and "look t h = Some v"
  shows "\<exists>p \<in> set (hostPatterns h). get t p = Some v"
  using firstSome_Some [of "get t" "hostPatterns h" v] assms by (auto simp: look_first)

lemma look_exact_wins: "ok t \<Longrightarrow> get t h = Some v \<Longrightarrow> look t h = Some v"
  by (simp add: look_first hostPatterns_def)

lemma look_catch_all: "ok t \<Longrightarrow> get t ''*'' \<noteq> None \<Longrightarrow> look t h \<noteq> None"
  by (metis look_first firstSome_None_iff star_hostPatterns)

text \<open>A put for a pattern that does not apply to a host does not change what the host gets.\<close>

lemma look_put_other:
  assumes "ok t" and "p \<notin> set (hostPatterns h)"
  shows "look (put p v t) h = look t h"
  using assms by (auto simp: look_first ok_put get_put intro!: firstSome_cong)

lemma look_put_exact: "ok t \<Longrightarrow> look (put h v t) h = Some v"
  by (simp add: look_exact_wins ok_put get_put)

text \<open>Filling a table pattern by pattern.\<close>

lemma ok_fold: "ok t \<Longrightarrow> ok (foldl (\<lambda>t (p, v). put p v t) t pvs)"
  by (induction pvs arbitrary: t) (auto simp: ok_put)

lemma get_fold:
  "get (foldl (\<lambda>t (p, v). put p v t) t pvs) p = (case map_of (rev pvs) p of Some v \<Rightarrow> Some v | None \<Rightarrow> get t p)"
  by (induction pvs arbitrary: t) (auto simp: get_put map_add_def split: option.splits)

end

section \<open>The code's table meets the contract\<close>

lemma wf_newHostTable [simp]: "wf_hostTable newHostTable"
  by (simp add: wf_hostTable_def newHostTable_def)

lemma hostTable_get_new [simp]: "hostTable_get newHostTable p = None"
  by (simp add: hostTable_get_def newHostTable_def)

lemma wf_hostTable_set [simp]:
  "wf_hostTable t \<Longrightarrow> wf_hostTable (snd (hostTable_set p v t))"
  by (auto simp: wf_hostTable_def hostTable_set_def mput_keys_all)

lemma wild_inject: "hasPrefix p ''*.'' \<Longrightarrow> hasPrefix q ''*.'' \<Longrightarrow> drop 2 p = drop 2 q \<longleftrightarrow> p = q"
  by (auto simp: hasPrefix_iff)

lemma hostTable_get_set:
  "hostTable_get (snd (hostTable_set p v t)) q = (if q = p then Some v else hostTable_get t q)"
  using wild_inject [of p q] by (auto simp: hostTable_get_def hostTable_set_def)

lemma hostTable_set_replaced: "fst (hostTable_set p v t) \<longleftrightarrow> hostTable_get t p \<noteq> None"
  by (auto simp: hostTable_get_def hostTable_set_def mhas_def)

lemma exact_get:
  assumes "wf_hostTable t"
  shows "mget (exact t) h = (if h = ''*'' \<or> hasPrefix h ''*.'' then None else hostTable_get t h)"
proof -
  have "mget (exact t) h = None" if "h = ''*'' \<or> hasPrefix h ''*.''"
    using assms that by (auto simp: wf_hostTable_def map_of_eq_None_iff list_all_iff)
  then show ?thesis by (auto simp: hostTable_get_def)
qed

lemma hostTable_match_spec:
  assumes "wf_hostTable t"
  shows "hostTable_match t h = firstSome (hostTable_get t) (hostPatterns h)"
proof -
  have star: "hostTable_get t ''*'' = fallback t"
    by (simp add: hostTable_get_def)
  have wild: "hostTable_get t (''*.'' @ p) = mget (wildcard t) p" for p
    by (simp add: hostTable_get_def hasPrefix_def)
  have cut: "cutChar CHR ''.'' h = Some (''*'', p)" if "h = ''*.'' @ p" for p
    using that by (simp add: cutChar_Some_iff)
  show ?thesis
  proof (cases "hasPrefix h ''*.''")
    case True
    then obtain p where p: "h = ''*.'' @ p" by (auto simp: hasPrefix_iff)
    show ?thesis
      using exact_get [OF assms, of h] star wild [of p] cut [OF p] p True
      by (auto simp: hostTable_match_def hostPatterns_def split: option.splits)
  next
    case False
    then show ?thesis
      using exact_get [OF assms, of h] star wild
      by (cases "h = ''*''")
        (auto simp: hostTable_match_def hostPatterns_def split: option.splits)
  qed
qed

interpretation ht: host_index newHostTable "\<lambda>p v t. snd (hostTable_set p v t)"
  hostTable_get hostTable_match wf_hostTable
  by unfold_locales (simp_all add: hostTable_get_set hostTable_match_spec)

section \<open>Normalisation\<close>

lemma splitHostPort_join:
  assumes "CHR ''['' \<notin> set h" "CHR '']'' \<notin> set h"
    and "CHR '':'' \<notin> set p" "CHR ''['' \<notin> set p" "CHR '']'' \<notin> set p"
  shows "splitHostPort (joinHostPort h p) = Some (h, p)"
proof (cases "CHR '':'' \<in> set h")
  case False
  have "lastIndexChar CHR '':'' (h @ CHR '':'' # p) = Some (length h)"
    using assms by (simp add: lastIndexChar_append)
  moreover have "\<not> hasPrefix (h @ CHR '':'' # p) ''[''"
    using assms by (cases h) (auto simp: hasPrefix_def)
  ultimately show ?thesis
    using False assms by (simp add: splitHostPort_def joinHostPort_def Let_def)
next
  case True
  let ?s = "CHR ''['' # h @ CHR '']'' # CHR '':'' # p"
  have "lastIndexChar CHR '':'' ?s = Some (Suc (Suc (length h)))"
    using lastIndexChar_append [of "CHR '':''" p "CHR ''['' # h @ '']''"] assms by simp
  moreover have "indexChar CHR '']'' ?s = Some (Suc (length h))"
    using indexChar_append [of "CHR '']''" "CHR ''['' # h" "CHR '':'' # p"] assms by simp
  moreover have "hasPrefix ?s ''[''"
    by (simp add: hasPrefix_def)
  ultimately show ?thesis
    using True assms by (simp add: splitHostPort_def joinHostPort_def Let_def)
qed

lemma trimChars_none: "set s \<inter> set cs = {} \<Longrightarrow> trimChars s cs = s"
proof -
  assume *: "set s \<inter> set cs = {}"
  have "dropWhile (\<lambda>c. c \<in> set cs) s = s"
    by (cases s) (use * in auto)
  moreover have "dropWhile (\<lambda>c. c \<in> set cs) (rev s) = rev s"
    by (cases "rev s") (use * in \<open>auto simp: rev_eq_Cons_iff\<close>)
  ultimately show ?thesis by (simp add: trimChars_def trimWhile_def)
qed

lemma normalizeHost_lower: "c \<in> set (normalizeHost h) \<Longrightarrow> lower c = c"
proof -
  assume "c \<in> set (normalizeHost h)"
  then have "c \<in> set (toLower (trimSpace h))"
    by (auto simp: normalizeHost_def trimSuffix_def dest: in_set_takeD split: if_splits)
  then show ?thesis by (auto simp: toLower_def)
qed

end
