(* ===== verification/Go_Url.thy ===== *)
theory Go_Url
  imports Go_Strings
begin

text \<open>
  The parts of Go's \<open>path\<close>, \<open>path/filepath\<close> and \<open>net/url\<close> the code uses:
  lexical cleaning and joining of slash-separated paths, percent decoding and
  encoding, parsing of absolute and relative URLs and writing them back. User
  information and fragments of a URL are parsed over and dropped, as no code
  here reads them.
\<close>

section \<open>Paths\<close>

fun clean_segs :: "bool \<Rightarrow> string list \<Rightarrow> string list \<Rightarrow> string list" where
  "clean_segs rooted out [] = rev out"
| "clean_segs rooted out (s # ss) =
     (if s = [] \<or> s = ''.'' then clean_segs rooted out ss
      else if s = ''..'' then
        (case out of
           [] \<Rightarrow> clean_segs rooted (if rooted then [] else [''..'']) ss
         | p # ps \<Rightarrow> if p = ''..'' then clean_segs rooted (''..'' # out) ss
                     else clean_segs rooted ps ss)
      else clean_segs rooted (s # out) ss)"

definition pathClean :: "string \<Rightarrow> string" where
  "pathClean p =
     (let rooted = hasPrefix p ''/'';
          body = joinStr ''/'' (clean_segs rooted [] (splitChar CHR ''/'' p))
      in if rooted then CHR ''/'' # body else if body = [] then ''.'' else body)"

text \<open>\<open>path.Join\<close> and \<open>filepath.Join\<close> of two elements; empty elements are ignored.\<close>

definition pathJoin :: "string \<Rightarrow> string \<Rightarrow> string" where
  "pathJoin a b = (if a = [] \<and> b = [] then [] else if a = [] then pathClean b
                   else if b = [] then pathClean a else pathClean (a @ ''/'' @ b))"

definition isAbs :: "string \<Rightarrow> bool" where
  "isAbs p = hasPrefix p ''/''"

text \<open>\<open>filepath.Dir\<close> and \<open>filepath.Base\<close>.\<close>

definition pathDir :: "string \<Rightarrow> string" where
  "pathDir p = (case lastIndexChar CHR ''/'' p of None \<Rightarrow> ''.'' | Some i \<Rightarrow> pathClean (take (Suc i) p))"

definition pathBase :: "string \<Rightarrow> string" where
  "pathBase p =
     (if p = [] then ''.''
      else let q = rev (dropWhile (\<lambda>c. c = CHR ''/'') (rev p))
           in if q = [] then ''/''
              else (case lastIndexChar CHR ''/'' q of None \<Rightarrow> q | Some i \<Rightarrow> drop (Suc i) q))"

text \<open>\<open>cleanPath\<close> of \<open>net/http\<close>: clean, rooted, with the trailing slash kept.\<close>

definition cleanPath :: "string \<Rightarrow> string" where
  "cleanPath p =
     (if p = [] then ''/''
      else let q = (if hasPrefix p ''/'' then p else CHR ''/'' # p); np = pathClean q
           in if hasSuffix q ''/'' \<and> np \<noteq> ''/'' then np @ ''/'' else np)"

section \<open>Percent encoding\<close>

definition is_alnum :: "char \<Rightarrow> bool" where
  "is_alnum c = (let n = of_char c :: nat in
      48 \<le> n \<and> n \<le> 57 \<or> 65 \<le> n \<and> n \<le> 90 \<or> 97 \<le> n \<and> n \<le> 122)"

definition hexdigit_up :: "nat \<Rightarrow> char" where
  "hexdigit_up n = (if n < 10 then char_of (48 + n) else char_of (55 + n))"

definition pct :: "char \<Rightarrow> string" where
  "pct c = [CHR ''%'', hexdigit_up (of_char c div 16), hexdigit_up (of_char c mod 16)]"

definition escapeWith :: "(char \<Rightarrow> bool) \<Rightarrow> string \<Rightarrow> string" where
  "escapeWith keep s = concat (map (\<lambda>c. if keep c then [c] else pct c) s)"

definition pathKeep :: "char \<Rightarrow> bool" where
  "pathKeep c = (is_alnum c \<or> c \<in> set ''-_.~$&+,/:;=@'')"

definition hostKeep :: "char \<Rightarrow> bool" where
  "hostKeep c = (is_alnum c \<or> c \<in> set ''-_.~!$&()*+,;=:[]<>'' \<or> c = CHR 0x22 \<or> c = CHR 0x27)"

definition hexdigit :: "char \<Rightarrow> nat option" where
  "hexdigit c = (let n = of_char c :: nat in
      if 48 \<le> n \<and> n \<le> 57 then Some (n - 48)
      else if 97 \<le> n \<and> n \<le> 102 then Some (n - 87)
      else if 65 \<le> n \<and> n \<le> 70 then Some (n - 55) else None)"

fun unescape :: "string \<Rightarrow> string option" where
  "unescape [] = Some []"
| "unescape (c # cs) =
     (if c = CHR ''%'' then
        (case cs of
           a # b # rest \<Rightarrow>
             (case (hexdigit a, hexdigit b) of
                (Some x, Some y) \<Rightarrow> map_option (\<lambda>r. char_of (16 * x + y) # r) (unescape rest)
              | _ \<Rightarrow> None)
         | _ \<Rightarrow> None)
      else map_option (\<lambda>r. c # r) (unescape cs))"

section \<open>URLs\<close>

record url =
  u_scheme :: string
  u_opaque :: string
  u_host :: string
  u_path :: string
  u_rawpath :: string
  u_forcequery :: bool
  u_query :: string

definition empty_url :: url where
  "empty_url = \<lparr>u_scheme = [], u_opaque = [], u_host = [], u_path = [], u_rawpath = [],
                u_forcequery = False, u_query = []\<rparr>"

definition validEncoded :: "string \<Rightarrow> bool" where
  "validEncoded s = list_all (\<lambda>c. pathKeep c \<or> c \<in> set ''!()*[]%'' \<or> c = CHR 0x27) s"

definition escapedPath :: "url \<Rightarrow> string" where
  "escapedPath u =
     (if u_rawpath u \<noteq> [] \<and> validEncoded (u_rawpath u) \<and> unescape (u_rawpath u) = Some (u_path u)
      then u_rawpath u
      else if u_path u = ''*'' then ''*''
      else escapeWith pathKeep (u_path u))"

definition queryPart :: "url \<Rightarrow> string" where
  "queryPart u = (if u_forcequery u \<or> u_query u \<noteq> [] then CHR ''?'' # u_query u else [])"

definition urlString :: "url \<Rightarrow> string" where
  "urlString u =
     (if u_scheme u \<noteq> [] then u_scheme u @ '':'' else []) @
     (if u_opaque u \<noteq> [] then u_opaque u
      else (if u_scheme u \<noteq> [] \<or> u_host u \<noteq> [] then
              (if u_host u \<noteq> [] \<or> u_path u \<noteq> [] then ''//'' else []) @ escapeWith hostKeep (u_host u)
            else []) @
           (let p = escapedPath u
            in if p \<noteq> [] \<and> \<not> hasPrefix p ''/'' \<and> u_host u \<noteq> [] then CHR ''/'' # p else p)) @
     queryPart u"

definition requestURI :: "url \<Rightarrow> string" where
  "requestURI u =
     (if u_opaque u = [] then (if escapedPath u = [] then ''/'' else escapedPath u)
      else if hasPrefix (u_opaque u) ''//'' then u_scheme u @ '':'' @ u_opaque u else u_opaque u)
     @ queryPart u"

definition is_alpha :: "char \<Rightarrow> bool" where
  "is_alpha c = (let n = of_char c :: nat in 65 \<le> n \<and> n \<le> 90 \<or> 97 \<le> n \<and> n \<le> 122)"

text \<open>\<open>getScheme\<close>: \<open>None\<close> is the error for a leading colon.\<close>

definition getScheme :: "string \<Rightarrow> (string \<times> string) option" where
  "getScheme s =
     (let pre = takeWhile (\<lambda>c. is_alnum c \<or> c \<in> set ''+-.'') s; rest = drop (length pre) s
      in if hasPrefix rest '':'' then
           (if pre = [] then None
            else if is_alpha (hd pre) then Some (pre, drop 1 rest) else Some ([], s))
         else Some ([], s))"

definition validOptionalPort :: "string \<Rightarrow> bool" where
  "validOptionalPort s = (s = [] \<or> hasPrefix s '':'' \<and> list_all is_digit (drop 1 s))"

definition parseHost :: "string \<Rightarrow> string option" where
  "parseHost h =
     (if hasPrefix h ''['' then
        (case lastIndexChar CHR '']'' h of
           None \<Rightarrow> None
         | Some i \<Rightarrow> if validOptionalPort (drop (Suc i) h) then unescape h else None)
      else (case indexChar CHR '':'' h of
              None \<Rightarrow> unescape h
            | Some i \<Rightarrow> if validOptionalPort (drop i h) then unescape h else None))"

definition setPath :: "string \<Rightarrow> url \<Rightarrow> url option" where
  "setPath p u = map_option (\<lambda>d.
     u\<lparr>u_path := d, u_rawpath := (if p = escapeWith pathKeep d then [] else p)\<rparr>) (unescape p)"

definition is_ctl :: "char \<Rightarrow> bool" where
  "is_ctl c = (let n = of_char c :: nat in n < 32 \<or> n = 127)"

definition urlParse :: "string \<Rightarrow> url option" where
  "urlParse raw =
     (let s = (case cutChar CHR ''#'' raw of Some (a, _) \<Rightarrow> a | None \<Rightarrow> raw)
      in if list_ex is_ctl s then None
         else if s = ''*'' then Some (empty_url\<lparr>u_path := ''*''\<rparr>)
         else case getScheme s of
           None \<Rightarrow> None
         | Some (scheme, r0) \<Rightarrow>
             let force = (hasSuffix r0 ''?'' \<and> length (filter (\<lambda>c. c = CHR ''?'') r0) = 1);
                 (rest, query) = (case cutChar CHR ''?'' r0 of Some (a, q) \<Rightarrow> (a, q) | None \<Rightarrow> (r0, []));
                 u = empty_url\<lparr>u_scheme := toLower scheme, u_forcequery := force, u_query := query\<rparr>
             in if \<not> hasPrefix rest ''/'' \<and> scheme \<noteq> [] then Some (u\<lparr>u_opaque := rest\<rparr>)
                else if \<not> hasPrefix rest ''/'' \<and>
                        CHR '':'' \<in> set (takeWhile (\<lambda>c. c \<noteq> CHR ''/'') rest) then None
                else if (scheme \<noteq> [] \<or> \<not> hasPrefix rest ''///'') \<and> hasPrefix rest ''//'' then
                  let body = drop 2 rest;
                      auth = takeWhile (\<lambda>c. c \<noteq> CHR ''/'') body;
                      pth = drop (length auth) body;
                      h = (case lastIndexChar CHR ''@'' auth of None \<Rightarrow> auth | Some i \<Rightarrow> drop (Suc i) auth)
                  in (case parseHost h of None \<Rightarrow> None | Some host \<Rightarrow> setPath pth (u\<lparr>u_host := host\<rparr>))
                else setPath rest u)"

section \<open>Lemmas\<close>

lemma isAbs_pathClean: "isAbs p \<Longrightarrow> isAbs (pathClean p)"
  by (simp add: isAbs_def pathClean_def Let_def hasPrefix_def)

lemma unescape_pct [simp]: "unescape (pct c @ s) = map_option (\<lambda>r. c # r) (unescape s)"
proof -
  have hx: "n < 16 \<Longrightarrow> hexdigit (hexdigit_up n) = Some n" for n
    by (auto simp: hexdigit_def hexdigit_up_def Let_def)
  have lt: "of_char c < (256 :: nat)"
    by (simp add: of_char_def)
  then have "of_char c div 16 < (16 :: nat)" by (simp add: less_mult_imp_div_less)
  then show ?thesis by (simp add: pct_def hx)
qed

text \<open>Decoding undoes encoding, whichever bytes are kept, as long as the percent sign is not.\<close>

lemma unescape_escapeWith:
  assumes "\<not> keep CHR ''%''"
  shows "unescape (escapeWith keep s) = Some s"
proof (induction s)
  case (Cons c s)
  then show ?case using assms by (cases "c = CHR ''%''") (auto simp: escapeWith_def)
qed (simp add: escapeWith_def)

lemma escapedPath_decodes: "u_path u \<noteq> ''*'' \<Longrightarrow> unescape (escapedPath u) = Some (u_path u)"
  by (simp add: escapedPath_def unescape_escapeWith pathKeep_def is_alnum_def)

end
