(* ===== verification/Config.thy ===== *)
theory Config
  imports Complex_Main Hosts Go_Url
begin

text \<open>
  \<open>config.go\<close>: the configuration as records with the source's fields. A nil
  pointer is \<open>None\<close>, a \<open>time.Duration\<close> an integer of nanoseconds, a \<open>float64\<close>
  the rational it denotes (infinities and NaN are not modelled), the value of
  an extension (\<open>any\<close>) a JSON value. Also here: site identity, which handler
  is set, resolving relative paths, and the defaults of the server limits
  (\<open>withDefaults\<close> and \<open>durationOr\<close> of \<open>compile.go\<close>).
\<close>

section \<open>Data\<close>

datatype json =
    JNull
  | JBool bool
  | JNum rat
  | JStr string
  | JArr "json list"
  | JObj "(string \<times> json) list"

type_synonym duration = int

abbreviation (input) second :: duration where "second \<equiv> 1000000000"
abbreviation (input) minute :: duration where "minute \<equiv> 60000000000"
abbreviation (input) hour :: duration where "hour \<equiv> 3600000000000"

record ServerConfig =
  readHeaderTimeout :: duration
  readTimeout :: duration
  writeTimeout :: duration
  idleTimeout :: duration
  shutdownTimeout :: duration
  maxHeaderBytes :: int

record ACMEConfig =
  acme_email :: string
  acme_accountKey :: string
  acme_accountURL :: string
  acme_directory :: string
  acme_caRoot :: string

record Certificate =
  cert_file :: string
  key_file :: string

record TLSConfig =
  minVersion :: string
  certificates :: "Certificate list"
  acme :: "ACMEConfig option"

record Listener =
  l_name :: string
  l_address :: string
  l_tls :: bool
  l_trustedProxies :: "string list"
  l_policies :: "string list"

record Proxy =
  upstream :: string
  stripPrefix_of :: string
  hostHeader :: string
  dialTimeout :: duration
  responseHeaderTimeout :: duration
  maxConns :: int
  insecureSkipVerify :: bool

record Files =
  f_root :: string
  f_stripPrefix :: string
  f_browse :: bool

record Respond =
  rs_status :: int
  rs_headers :: "(string, string) gomap"
  rs_body :: string

record Redirect =
  rd_to :: string
  rd_status :: int
  rd_preservePath :: bool

record Handler =
  h_proxy :: "Proxy option"
  h_files :: "Files option"
  h_respond :: "Respond option"
  h_redirect :: "Redirect option"
  h_extensions :: "(string, json) gomap"

record Route =
  r_name :: string
  r_meth :: string
  r_path :: string
  r_policies :: "string list"
  r_handler :: Handler

record Site =
  s_name :: string
  s_hosts :: "string list"
  s_listeners :: "string list"
  s_allowHTTP :: bool
  s_policies :: "string list"
  s_routes :: "Route list"
  s_handler :: Handler

record RequestPolicy =
  rq_maxBodyBytes :: int
  rq_timeout :: duration

record RateLimitPolicy =
  rp_requestsPerSecond :: rat
  rp_burst :: int
  rp_key :: string
  rp_maxKeys :: int
  rp_idleTimeout :: duration

record ConcurrencyPolicy =
  cp_max :: int

record Policy =
  p_name :: string
  p_request :: "RequestPolicy option"
  p_rateLimit :: "RateLimitPolicy option"
  p_concurrency :: "ConcurrencyPolicy option"

record Config =
  c_version :: int
  c_disabled :: bool
  c_server :: ServerConfig
  c_tls :: TLSConfig
  c_listeners :: "Listener list"
  c_policies :: "Policy list"
  c_sites :: "Site list"

section \<open>Sites and handlers\<close>

definition site_ID :: "Site \<Rightarrow> string" where
  "site_ID s = (if s_name s \<noteq> [] then s_name s
                else case s_hosts s of h # _ \<Rightarrow> normalizeHost h | [] \<Rightarrow> [])"

definition handler_defined :: "Handler \<Rightarrow> bool" where
  "handler_defined h = (h_proxy h \<noteq> None \<or> h_files h \<noteq> None \<or> h_respond h \<noteq> None \<or>
                        h_redirect h \<noteq> None \<or> h_extensions h \<noteq> [])"

definition no_handler :: Handler where
  "no_handler = \<lparr>h_proxy = None, h_files = None, h_respond = None, h_redirect = None, h_extensions = []\<rparr>"

section \<open>Relative paths\<close>

definition resolvePath :: "string \<Rightarrow> string \<Rightarrow> string" where
  "resolvePath base p = (if p = [] \<or> isAbs p then p else pathJoin base p)"

definition resolveFiles :: "string \<Rightarrow> Handler \<Rightarrow> Handler" where
  "resolveFiles base h = h\<lparr>h_files := map_option (\<lambda>f. f\<lparr>f_root := resolvePath base (f_root f)\<rparr>) (h_files h)\<rparr>"

definition resolvePaths :: "string \<Rightarrow> Config \<Rightarrow> Config" where
  "resolvePaths base c =
     c\<lparr>c_tls := (c_tls c)
         \<lparr>acme := map_option (\<lambda>a. a\<lparr>acme_caRoot := resolvePath base (acme_caRoot a),
                                  acme_accountKey := resolvePath base (acme_accountKey a)\<rparr>) (acme (c_tls c)),
          certificates := map (\<lambda>k. k\<lparr>cert_file := resolvePath base (cert_file k),
                                     key_file := resolvePath base (key_file k)\<rparr>) (certificates (c_tls c))\<rparr>,
       c_sites := map (\<lambda>s. s\<lparr>s_handler := resolveFiles base (s_handler s),
                             s_routes := map (\<lambda>r. r\<lparr>r_handler := resolveFiles base (r_handler r)\<rparr>) (s_routes s)\<rparr>)
                      (c_sites c)\<rparr>"

text \<open>The file names a configuration mentions.\<close>

definition handler_files :: "Handler \<Rightarrow> string list" where
  "handler_files h = (case h_files h of None \<Rightarrow> [] | Some f \<Rightarrow> [f_root f])"

definition config_files :: "Config \<Rightarrow> string list" where
  "config_files c =
     (case acme (c_tls c) of None \<Rightarrow> [] | Some a \<Rightarrow> [acme_caRoot a, acme_accountKey a]) @
     concat (map (\<lambda>k. [cert_file k, key_file k]) (certificates (c_tls c))) @
     concat (map (\<lambda>s. handler_files (s_handler s) @
                       concat (map (\<lambda>r. handler_files (r_handler r)) (s_routes s))) (c_sites c))"

lemma resolvePath_abs:
  assumes "isAbs base"
  shows "resolvePath base p = [] \<or> isAbs (resolvePath base p)"
proof -
  have "isAbs (base @ ''/'' @ p)" "base \<noteq> []"
    using assms by (auto simp: isAbs_def hasPrefix_iff)
  then show ?thesis
    using isAbs_pathClean [of "base @ ''/'' @ p"] by (auto simp: resolvePath_def pathJoin_def)
qed

lemma resolvePath_fixed: "p = [] \<or> isAbs p \<Longrightarrow> resolvePath base p = p"
  by (simp add: resolvePath_def)

lemma resolvePath_twice: "isAbs base \<Longrightarrow> resolvePath base' (resolvePath base p) = resolvePath base p"
  using resolvePath_abs [of base p] by (simp add: resolvePath_fixed)

lemma handler_files_resolve:
  "handler_files (resolveFiles base h) = map (resolvePath base) (handler_files h)"
  by (simp add: handler_files_def resolveFiles_def split: option.split)

lemma config_files_resolve:
  "config_files (resolvePaths base c) = map (resolvePath base) (config_files c)"
  by (simp add: config_files_def resolvePaths_def map_concat o_def handler_files_resolve
      cong: option.case_cong split: option.split)

lemma resolveFiles_twice: "isAbs base \<Longrightarrow> resolveFiles base' (resolveFiles base h) = resolveFiles base h"
  by (cases "h_files h") (simp_all add: resolveFiles_def resolvePath_twice)

lemma site_ID_resolve: "map site_ID (c_sites (resolvePaths base c)) = map site_ID (c_sites c)"
  by (simp add: resolvePaths_def site_ID_def o_def)

text \<open>Loading a configuration from an absolute directory makes every file name
  in it empty or absolute, resolving again (from any directory) changes
  nothing, and sites keep their identities.\<close>

theorem resolvePaths_absolute:
  assumes "isAbs base"
  shows "(\<forall>p \<in> set (config_files (resolvePaths base c)). p = [] \<or> isAbs p) \<and>
         resolvePaths base' (resolvePaths base c) = resolvePaths base c \<and>
         map site_ID (c_sites (resolvePaths base c)) = map site_ID (c_sites c)"
proof (intro conjI)
  show "\<forall>p \<in> set (config_files (resolvePaths base c)). p = [] \<or> isAbs p"
    using resolvePath_abs [OF assms] by (auto simp: config_files_resolve)
  show "resolvePaths base' (resolvePaths base c) = resolvePaths base c"
    by (cases "acme (c_tls c)")
      (simp_all add: resolvePaths_def resolvePath_twice [OF assms] resolveFiles_twice [OF assms])
qed (rule site_ID_resolve)

definition empty_config :: Config where
  "empty_config = \<lparr>c_version = 0, c_disabled = False,
     c_server = \<lparr>readHeaderTimeout = 0, readTimeout = 0, writeTimeout = 0, idleTimeout = 0,
                 shutdownTimeout = 0, maxHeaderBytes = 0\<rparr>,
     c_tls = \<lparr>minVersion = [], certificates = [], acme = None\<rparr>,
     c_listeners = [], c_policies = [], c_sites = []\<rparr>"

theorem resolvePaths_absolute_witness:
  "resolvePaths ''/b'' (resolvePaths ''/a'' (empty_config\<lparr>c_tls := \<lparr>minVersion = [],
     certificates = [\<lparr>cert_file = ''c.pem'', key_file = ''/k.pem''\<rparr>], acme = None\<rparr>\<rparr>)) =
   resolvePaths ''/a'' (empty_config\<lparr>c_tls := \<lparr>minVersion = [],
     certificates = [\<lparr>cert_file = ''c.pem'', key_file = ''/k.pem''\<rparr>], acme = None\<rparr>\<rparr>)"
  using resolvePaths_absolute [of "''/a''" _ "''/b''"] by (simp add: isAbs_def hasPrefix_def)

section \<open>Server limits\<close>

definition durationOr :: "duration \<Rightarrow> duration \<Rightarrow> duration" where
  "durationOr value fallback_value = (if 0 < value then value else fallback_value)"

text \<open>
  The loop over the named durations iterates a Go map: with several negative
  values it reports any one of them; the model reports the first in the
  order below.
\<close>

definition withDefaults :: "ServerConfig \<Rightarrow> ServerConfig result" where
  "withDefaults s =
     rbind (rfold (\<lambda>(name, value) u. if value < 0 then Inl (Errorf ''server %s cannot be negative'' [name]) else Inr ())
       [(''read_header_timeout'', readHeaderTimeout s), (''read_timeout'', readTimeout s),
        (''write_timeout'', writeTimeout s), (''idle_timeout'', idleTimeout s),
        (''shutdown_timeout'', shutdownTimeout s)] ())
     (\<lambda>_. if maxHeaderBytes s < 0 then Inl (Errorf ''server max_header_bytes cannot be negative'' [])
          else Inr (s\<lparr>readHeaderTimeout := durationOr (readHeaderTimeout s) (10 * second),
                     idleTimeout := durationOr (idleTimeout s) (2 * minute),
                     shutdownTimeout := durationOr (shutdownTimeout s) (10 * second),
                     maxHeaderBytes := (if maxHeaderBytes s = 0 then 65536 else maxHeaderBytes s)\<rparr>))"

lemma withDefaults_Inr_iff:
  "withDefaults s = Inr d \<longleftrightarrow>
     0 \<le> readHeaderTimeout s \<and> 0 \<le> readTimeout s \<and> 0 \<le> writeTimeout s \<and> 0 \<le> idleTimeout s \<and>
     0 \<le> shutdownTimeout s \<and> 0 \<le> maxHeaderBytes s \<and>
     d = s\<lparr>readHeaderTimeout := durationOr (readHeaderTimeout s) (10 * second),
           idleTimeout := durationOr (idleTimeout s) (2 * minute),
           shutdownTimeout := durationOr (shutdownTimeout s) (10 * second),
           maxHeaderBytes := (if maxHeaderBytes s = 0 then 65536 else maxHeaderBytes s)\<rparr>"
  by (auto simp: withDefaults_def result_simps split: if_splits)

lemma withDefaults_positive:
  "withDefaults s = Inr d \<Longrightarrow> 0 < readHeaderTimeout d \<and> 0 < idleTimeout d \<and> 0 < shutdownTimeout d \<and> 0 < maxHeaderBytes d"
  by (auto simp: withDefaults_Inr_iff durationOr_def)

lemma withDefaults_idem: "withDefaults s = Inr d \<Longrightarrow> withDefaults d = Inr d"
  by (cases s) (auto simp: withDefaults_Inr_iff durationOr_def)

end
