(* ===== verification/Tls.thy ===== *)
theory Tls
  imports Hosts Config
begin

text \<open>
  \<open>tls.go\<close>: the store of listed certificates, which certificates are current,
  which names they cover, and the minimum TLS version. Reading a key pair,
  parsing X.509 and the certificate source are parameters (\<open>tls_env\<close>); a time is
  a number of nanoseconds. A certificate carries a number, its address in Go.
\<close>

section \<open>Certificates\<close>

record leaf =
  lf_notBefore :: int
  lf_notAfter :: int
  lf_dnsNames :: "string list"
  lf_commonName :: string

record certificate =
  ct_id :: nat
  ct_chain :: "string list"
  ct_leaf :: "leaf option"

definition leafOf :: "certificate \<Rightarrow> leaf" where
  "leafOf c = (case ct_leaf c of Some l \<Rightarrow> l
               | None \<Rightarrow> \<lparr>lf_notBefore = 0, lf_notAfter = 0, lf_dnsNames = [], lf_commonName = []\<rparr>)"

definition certificateGrace :: duration where
  "certificateGrace = 24 * hour"

record certificateStore =
  cs_current :: "certificate hostTable"
  cs_stale :: "certificate hostTable"

definition certificateStore_empty :: "certificateStore \<Rightarrow> bool" where
  "certificateStore_empty s = (hostTable_empty (cs_current s) \<and> hostTable_empty (cs_stale s))"

record tls_env =
  te_loadPair :: "string \<Rightarrow> string \<Rightarrow> certificate result"
  te_source :: "certificate list result option"
  te_parse :: "string \<Rightarrow> leaf result"
  te_now :: int

section \<open>Loading\<close>

definition parseLeaf :: "tls_env \<Rightarrow> certificate \<Rightarrow> certificate result" where
  "parseLeaf env c =
     (if ct_leaf c \<noteq> None then Inr c
      else case ct_chain c of
        [] \<Rightarrow> Inl (Errorf ''certificate chain is empty'' [])
      | der # _ \<Rightarrow> rbind (wrap_err (Wrapf ''parse certificate: %w'' []) (te_parse env der))
                     (\<lambda>l. Inr (c\<lparr>ct_leaf := Some l\<rparr>)))"

definition isStale :: "int \<Rightarrow> leaf \<Rightarrow> bool" where
  "isStale now l = (now < lf_notBefore l \<or> lf_notAfter l < now + certificateGrace)"

definition offer_name :: "certificate \<Rightarrow> string \<Rightarrow> certificate hostTable \<Rightarrow> certificate hostTable" where
  "offer_name c name t =
     (case hostTable_get t (normalizeHost name) of
        Some existing \<Rightarrow>
          if lf_notAfter (leafOf c) \<le> lf_notAfter (leafOf existing) then t
          else snd (hostTable_set (normalizeHost name) c t)
      | None \<Rightarrow> snd (hostTable_set (normalizeHost name) c t))"

definition offer_names :: "certificate \<Rightarrow> string list \<Rightarrow> certificate hostTable \<Rightarrow> certificate hostTable" where
  "offer_names c names t = foldl (\<lambda>t n. offer_name c n t) t names"

definition store_certificate :: "tls_env \<Rightarrow> certificate \<Rightarrow> certificateStore \<Rightarrow> certificateStore result" where
  "store_certificate env c0 s =
     rbind (parseLeaf env c0) (\<lambda>c.
       let l = leafOf c in
       if lf_dnsNames l = [] then Inl (Errorf ''certificate %q has no DNS names'' [lf_commonName l])
       else if isStale (te_now env) l
       then Inr (s\<lparr>cs_stale := offer_names c (lf_dnsNames l) (cs_stale s)\<rparr>)
       else Inr (s\<lparr>cs_current := offer_names c (lf_dnsNames l) (cs_current s)\<rparr>))"

definition read_pair :: "tls_env \<Rightarrow> Certificate \<Rightarrow> certificate result" where
  "read_pair env file =
     (if cert_file file = [] \<or> key_file file = []
      then Inl (Errorf ''certificate requires both cert and key'' [])
      else wrap_err (Wrapf ''load certificate %s: %w'' [cert_file file])
             (te_loadPair env (cert_file file) (key_file file)))"

definition listed_certificates :: "tls_env \<Rightarrow> Certificate list \<Rightarrow> certificate list result" where
  "listed_certificates env files =
     rbind (rmap (read_pair env) files) (\<lambda>cs.
       case te_source env of
         None \<Rightarrow> Inr cs
       | Some source \<Rightarrow> rbind (wrap_err (Wrapf ''certificate source: %w'' []) source) (\<lambda>extra. Inr (cs @ extra)))"

definition loadCertificates :: "tls_env \<Rightarrow> Certificate list \<Rightarrow> certificateStore result" where
  "loadCertificates env files =
     rbind (listed_certificates env files) (\<lambda>cs.
       rfold (store_certificate env) cs \<lparr>cs_current = newHostTable, cs_stale = newHostTable\<rparr>)"

definition covers :: "certificate hostTable \<Rightarrow> string \<Rightarrow> bool" where
  "covers table pattern = (pattern = ''*'' \<or> hostTable_match table pattern \<noteq> None)"

definition tlsVersion :: "string \<Rightarrow> nat result" where
  "tlsVersion value =
     (let v = trimPrefix (toUpper (trimSpace value)) ''TLS''
      in if v \<in> {[], ''1.2'', ''12''} then Inr 0x0303
         else if v \<in> {''1.3'', ''13''} then Inr 0x0304
         else Inl (Errorf ''unsupported TLS minimum version %q'' [value]))"

section \<open>The certificate that expires last\<close>

text \<open>
  A table holds, for every name, the longest-lived of the certificates offered
  for it so far.
\<close>

definition best_of :: "certificate list \<Rightarrow> string \<Rightarrow> certificate option \<Rightarrow> bool" where
  "best_of cs p o' = (case o' of
      None \<Rightarrow> \<forall>c \<in> set cs. p \<notin> normalizeHost ` set (lf_dnsNames (leafOf c))
    | Some c \<Rightarrow> c \<in> set cs \<and> p \<in> normalizeHost ` set (lf_dnsNames (leafOf c)) \<and>
        (\<forall>d \<in> set cs. p \<in> normalizeHost ` set (lf_dnsNames (leafOf d)) \<longrightarrow>
           lf_notAfter (leafOf d) \<le> lf_notAfter (leafOf c)))"

definition holds_best :: "certificate list \<Rightarrow> certificate hostTable \<Rightarrow> bool" where
  "holds_best cs t \<longleftrightarrow> wf_hostTable t \<and> (\<forall>p. best_of cs p (hostTable_get t p))"

lemma offer_name_get:
  "hostTable_get (offer_name c n t) p =
     (if p = normalizeHost n then
        (case hostTable_get t p of
           Some e \<Rightarrow> if lf_notAfter (leafOf c) \<le> lf_notAfter (leafOf e) then Some e else Some c
         | None \<Rightarrow> Some c)
      else hostTable_get t p)"
  by (auto simp: offer_name_def ht.get_put split: option.split)

lemma offer_names_get:
  "hostTable_get (offer_names c ns t) p =
     (if p \<in> normalizeHost ` set ns then
        (case hostTable_get t p of
           Some e \<Rightarrow> if lf_notAfter (leafOf c) \<le> lf_notAfter (leafOf e) then Some e else Some c
         | None \<Rightarrow> Some c)
      else hostTable_get t p)"
  unfolding offer_names_def
  by (induction ns arbitrary: t) (auto simp: offer_name_get split: option.split)

lemma offer_names_wf: "wf_hostTable t \<Longrightarrow> wf_hostTable (offer_names c ns t)"
  unfolding offer_names_def
  by (induction ns arbitrary: t) (auto simp: offer_name_def split: option.split)

lemma holds_best_offer:
  assumes "holds_best cs t"
  shows "holds_best (cs @ [c]) (offer_names c (lf_dnsNames (leafOf c)) t)"
proof -
  have "best_of (cs @ [c]) p (hostTable_get (offer_names c (lf_dnsNames (leafOf c)) t) p)" for p
  proof -
    have "best_of cs p (hostTable_get t p)" using assms by (simp add: holds_best_def)
    then show ?thesis
      by (cases "hostTable_get t p") (auto simp: offer_names_get best_of_def)
  qed
  then show ?thesis using assms by (simp add: holds_best_def offer_names_wf)
qed

lemma holds_best_new [simp]: "holds_best [] newHostTable"
  by (simp add: holds_best_def best_of_def)

text \<open>The certificates of a list as loading parses them.\<close>

definition parsed_leaves :: "tls_env \<Rightarrow> certificate list \<Rightarrow> certificate list \<Rightarrow> bool" where
  "parsed_leaves env cs ps \<longleftrightarrow> list_all2 (\<lambda>c p. parseLeaf env c = Inr p) cs ps"

lemma store_certificate_Inr:
  assumes "store_certificate env c s = Inr s1"
  shows "\<exists>p. parseLeaf env c = Inr p \<and>
    s1 = (if isStale (te_now env) (leafOf p)
      then s\<lparr>cs_stale := offer_names p (lf_dnsNames (leafOf p)) (cs_stale s)\<rparr>
      else s\<lparr>cs_current := offer_names p (lf_dnsNames (leafOf p)) (cs_current s)\<rparr>)"
  using assms by (auto simp: store_certificate_def result_simps Let_def split: if_splits)

lemma store_fold:
  assumes "rfold (store_certificate env) cs s = Inr s'"
    and "holds_best (filter (\<lambda>c. \<not> isStale (te_now env) (leafOf c)) before) (cs_current s)"
    and "holds_best (filter (\<lambda>c. isStale (te_now env) (leafOf c)) before) (cs_stale s)"
  shows "\<exists>ps. parsed_leaves env cs ps \<and>
    holds_best (filter (\<lambda>c. \<not> isStale (te_now env) (leafOf c)) (before @ ps)) (cs_current s') \<and>
    holds_best (filter (\<lambda>c. isStale (te_now env) (leafOf c)) (before @ ps)) (cs_stale s')"
  using assms
proof (induction cs arbitrary: s before)
  case Nil
  then show ?case by (intro exI [of _ "[]"]) (simp add: parsed_leaves_def)
next
  case (Cons c cs)
  from Cons.prems(1) obtain s1 where step: "store_certificate env c s = Inr s1"
    and rest: "rfold (store_certificate env) cs s1 = Inr s'"
    by (auto simp: rbind_Inr_iff)
  from store_certificate_Inr [OF step] obtain p where p: "parseLeaf env c = Inr p"
    and s1: "s1 = (if isStale (te_now env) (leafOf p)
      then s\<lparr>cs_stale := offer_names p (lf_dnsNames (leafOf p)) (cs_stale s)\<rparr>
      else s\<lparr>cs_current := offer_names p (lf_dnsNames (leafOf p)) (cs_current s)\<rparr>)"
    by blast
  have "\<exists>ps. parsed_leaves env cs ps \<and>
    holds_best (filter (\<lambda>c. \<not> isStale (te_now env) (leafOf c)) ((before @ [p]) @ ps)) (cs_current s') \<and>
    holds_best (filter (\<lambda>c. isStale (te_now env) (leafOf c)) ((before @ [p]) @ ps)) (cs_stale s')"
    by (rule Cons.IH [OF rest]) (use Cons.prems(2,3) holds_best_offer in \<open>auto simp: s1\<close>)
  then obtain ps where ps: "parsed_leaves env cs ps"
    "holds_best (filter (\<lambda>c. \<not> isStale (te_now env) (leafOf c)) (before @ p # ps)) (cs_current s')"
    "holds_best (filter (\<lambda>c. isStale (te_now env) (leafOf c)) (before @ p # ps)) (cs_stale s')" by auto
  then show ?case using p by (intro exI [of _ "p # ps"]) (simp add: parsed_leaves_def)
qed

text \<open>Of several certificates for a name the one that expires last is used, whatever
  their order, and current and stale ones are kept apart: after loading, the
  current table holds for every name the longest-lived of the certificates with
  that name that are valid for at least another day, and no others; the stale
  table the same of the rest.\<close>

theorem loadCertificates_best:
  assumes "loadCertificates env files = Inr s" and "listed_certificates env files = Inr cs"
  shows "\<exists>ps. parsed_leaves env cs ps \<and>
    (\<forall>p. best_of (filter (\<lambda>c. \<not> isStale (te_now env) (leafOf c)) ps) p (hostTable_get (cs_current s) p)) \<and>
    (\<forall>p. best_of (filter (\<lambda>c. isStale (te_now env) (leafOf c)) ps) p (hostTable_get (cs_stale s) p))"
proof -
  have "rfold (store_certificate env) cs \<lparr>cs_current = newHostTable, cs_stale = newHostTable\<rparr> = Inr s"
    using assms by (simp add: loadCertificates_def)
  from store_fold [OF this, of "[]"] obtain ps where "parsed_leaves env cs ps"
    "holds_best (filter (\<lambda>c. \<not> isStale (te_now env) (leafOf c)) ps) (cs_current s)"
    "holds_best (filter (\<lambda>c. isStale (te_now env) (leafOf c)) ps) (cs_stale s)" by auto
  then show ?thesis unfolding holds_best_def by blast
qed

definition sample_leaf :: "int \<Rightarrow> leaf" where
  "sample_leaf days = \<lparr>lf_notBefore = 0, lf_notAfter = days * 24 * hour, lf_dnsNames = [''A.test'', ''*.a.test''],
     lf_commonName = []\<rparr>"

definition sample_certs :: "certificate list" where
  "sample_certs = [\<lparr>ct_id = 1, ct_chain = [''x''], ct_leaf = None\<rparr>,
     \<lparr>ct_id = 2, ct_chain = [], ct_leaf = Some (sample_leaf 30)\<rparr>]"

definition sample_tls :: tls_env where
  "sample_tls = \<lparr>te_loadPair = (\<lambda>c k. Inl ErrNotExist), te_source = Some (Inr sample_certs),
     te_parse = (\<lambda>der. Inr (sample_leaf 90)), te_now = 24 * hour\<rparr>"

theorem loadCertificates_best_witness:
  "\<exists>s. loadCertificates sample_tls [] = Inr s \<and>
     map_option ct_id (hostTable_get (cs_current s) ''a.test'') = Some 1"
proof -
  let ?c1 = "\<lparr>ct_id = 1, ct_chain = [''x''], ct_leaf = Some (sample_leaf 90)\<rparr>"
  let ?c2 = "\<lparr>ct_id = 2, ct_chain = [], ct_leaf = Some (sample_leaf 30)\<rparr>"
  have cs: "listed_certificates sample_tls [] = Inr sample_certs"
    by (simp add: listed_certificates_def sample_tls_def)
  have n: "normalizeHost ''A.test'' = ''a.test''" "normalizeHost ''*.a.test'' = ''*.a.test''" by code_simp+
  have "loadCertificates sample_tls [] \<noteq> Inl e" for e
    by (simp add: loadCertificates_def cs)
      (simp add: sample_certs_def store_certificate_def parseLeaf_def sample_tls_def Let_def leafOf_def sample_leaf_def)
  then obtain s where s: "loadCertificates sample_tls [] = Inr s" by (cases "loadCertificates sample_tls []") auto
  from loadCertificates_best [OF s cs] obtain ps where ps: "parsed_leaves sample_tls sample_certs ps"
    and best: "\<And>p. best_of (filter (\<lambda>c. \<not> isStale (te_now sample_tls) (leafOf c)) ps) p (hostTable_get (cs_current s) p)"
    by blast
  have "ps = [?c1, ?c2]"
    using ps by (auto simp: parsed_leaves_def sample_certs_def parseLeaf_def sample_tls_def list_all2_Cons1)
  with best [of "''a.test''"] have "hostTable_get (cs_current s) ''a.test'' = Some ?c1"
    by (cases "hostTable_get (cs_current s) ''a.test''")
      (auto simp: best_of_def isStale_def leafOf_def sample_leaf_def sample_tls_def certificateGrace_def n)
  with s show ?thesis by simp
qed

end
