(* ===== verification/Save.thy ===== *)
theory Save
  imports Config
begin

text \<open>
  Writing files: \<open>Save\<close> of \<open>save.go\<close> and \<open>writeFileAtomic\<close> of \<open>acme.go\<close>. The file
  system is a map from paths to contents and permissions. What the operating
  system answers to each call is an argument (\<open>io\<close>): whether the call succeeds,
  the name of the temporary file, and how much a failing write wrote.
\<close>

type_synonym files = "(string, string \<times> nat) gomap"

text \<open>Permissions are numbers: 0600, 0640 and 0644 in octal are 0x180, 0x1A0 and 0x1A4.\<close>

text \<open>A write: complete, or failed after some bytes.\<close>

datatype write_result = Written | FailedAfter nat

record io =
  io_mkdir :: bool
  io_read :: bool
  io_backup :: write_result
  io_temp :: "string option"
  io_write :: write_result
  io_chmod :: bool
  io_close :: bool
  io_rename :: bool

definition osError :: "string \<Rightarrow> gerror" where
  "osError op = Errorf op []"

definition written :: "write_result \<Rightarrow> string \<Rightarrow> string" where
  "written w data = (case w of Written \<Rightarrow> data | FailedAfter n \<Rightarrow> take n data)"

section \<open>writeFileAtomic\<close>

text \<open>
  The \<open>err\<close> that the write and the \<open>Chmod\<close> set is the one declared in the
  \<open>if\<close> statement, not the function's, so only a failing \<open>Close\<close> keeps the
  temporary file from replacing the target.
\<close>

definition writeFileAtomic :: "io \<Rightarrow> string \<Rightarrow> string \<Rightarrow> nat \<Rightarrow> files \<Rightarrow> unit result \<times> files" where
  "writeFileAtomic io path data perm fs =
     (if \<not> io_mkdir io then (Inl (osError ''mkdir''), fs)
      else case io_temp io of
        None \<Rightarrow> (Inl (osError ''createtemp''), fs)
      | Some t \<Rightarrow>
          (let content = written (io_write io) data;
               mode = (if io_write io = Written \<and> io_chmod io then perm else 0x180);
               err = (if io_close io then None else Some (osError ''close''));
               fs1 = mput t (content, mode) fs
           in case err of
                Some e \<Rightarrow> (Inl e, mdel t fs1)
              | None \<Rightarrow>
                  if io_rename io then (Inr (), mdel t (mput path (content, mode) fs1))
                  else (Inl (osError ''rename''), mdel t fs1)))"

definition temp_fresh :: "io \<Rightarrow> string list \<Rightarrow> files \<Rightarrow> bool" where
  "temp_fresh io paths fs \<longleftrightarrow> (\<forall>t. io_temp io = Some t \<longrightarrow> mget fs t = None \<and> t \<notin> set paths)"

lemma writeFileAtomic_effect:
  assumes "temp_fresh io [path] fs" and "writeFileAtomic io path data perm fs = (res, fs')"
  shows "(\<forall>q. q \<noteq> path \<longrightarrow> mget fs' q = mget fs q) \<and>
    (case res of
       Inl _ \<Rightarrow> mget fs' path = mget fs path
     | Inr _ \<Rightarrow> mget fs' path = Some (written (io_write io) data,
                  if io_write io = Written \<and> io_chmod io then perm else 0x180))"
  using assms
  by (auto simp: writeFileAtomic_def temp_fresh_def Let_def split: if_splits option.splits)

text \<open>\<open>writeFileAtomic\<close> never leaves a half-written file as long as the write itself
  does not fail: whichever other call fails, the target is either untouched and
  an error returned, or holds exactly the data; no other file changes and no
  temporary file is left.\<close>

theorem writeFileAtomic_all_or_nothing:
  assumes "temp_fresh io [path] fs" and "io_write io = Written"
    and "writeFileAtomic io path data perm fs = (res, fs')"
  shows "(\<forall>q. q \<noteq> path \<longrightarrow> mget fs' q = mget fs q) \<and>
    (if isOk res then map_option fst (mget fs' path) = Some data else mget fs' path = mget fs path)"
  using writeFileAtomic_effect [OF assms(1,3)] assms(2) by (cases res) (auto simp: written_def)

definition sample_io :: io where
  "sample_io = \<lparr>io_mkdir = True, io_read = True, io_backup = Written, io_temp = Some ''/d/.f.1'',
     io_write = Written, io_chmod = False, io_close = True, io_rename = True\<rparr>"

theorem writeFileAtomic_all_or_nothing_witness:
  "map_option fst (mget (snd (writeFileAtomic sample_io ''/d/f'' ''new'' 0x1A4 [(''/d/f'', ''old'', 0x180)])) ''/d/f'') = Some ''new''"
proof -
  let ?r = "writeFileAtomic sample_io ''/d/f'' ''new'' 0x1A4 [(''/d/f'', ''old'', 0x180)]"
  have t: "temp_fresh sample_io [''/d/f''] [(''/d/f'', ''old'', 0x180)]"
    by (simp add: temp_fresh_def sample_io_def)
  have r: "isOk (fst ?r)" by (simp add: writeFileAtomic_def sample_io_def Let_def)
  show ?thesis
    using writeFileAtomic_all_or_nothing [OF t, where res = "fst ?r" and fs' = "snd ?r" and data = "''new''" and perm = "0x1A4"] r
    by (simp add: sample_io_def)
qed

text \<open>A failed write goes unnoticed: when the disk fills up in the middle of writing,
  \<open>writeFileAtomic\<close> reports success and the target holds the truncated data.\<close>

theorem writeFileAtomic_ignores_write_error:
  "writeFileAtomic (sample_io\<lparr>io_write := FailedAfter 2\<rparr>) ''/d/f'' ''new data'' 0x180 [(''/d/f'', ''old'', 0x180)] =
     (Inr (), [(''/d/f'', ''ne'', 0x180)])"
  by (simp add: writeFileAtomic_def sample_io_def written_def)

section \<open>Save\<close>

definition savedHeader :: "string \<Rightarrow> string" where
  "savedHeader base =
     ''# Managed by yabber: changes made through the management API rewrite this'' @ [CHR 0x0A] @
     ''# file, and the previous version is kept as '' @ base @ ''.bak.'' @ [CHR 0x0A]"

text \<open>The part of \<open>Save\<close> after the backup.\<close>

definition save_replace :: "io \<Rightarrow> string \<Rightarrow> string \<Rightarrow> nat \<Rightarrow> files \<Rightarrow> unit result \<times> files" where
  "save_replace io path data mode fs =
     (case io_temp io of
        None \<Rightarrow> (Inl (osError ''createtemp''), fs)
      | Some t \<Rightarrow>
          (let content = written (io_write io) data;
               err = (case io_write io of
                        FailedAfter _ \<Rightarrow> Some (osError ''write'')
                      | Written \<Rightarrow> if \<not> io_chmod io then Some (osError ''chmod'')
                                   else if \<not> io_close io then Some (osError ''close'') else None);
               m = (if io_write io = Written \<and> io_chmod io then mode else 0x180);
               fs1 = mput t (content, m) fs
           in case err of
                Some e \<Rightarrow> (Inl e, mdel t fs1)
              | None \<Rightarrow>
                  if io_rename io then (Inr (), mdel t (mput path (content, m) fs1))
                  else (Inl (osError ''rename''), mdel t fs1)))"

definition Save :: "(Config \<Rightarrow> string result) \<Rightarrow> io \<Rightarrow> string \<Rightarrow> Config \<Rightarrow> files \<Rightarrow> unit result \<times> files" where
  "Save encode io path config fs =
     (case encode config of
        Inl e \<Rightarrow> (Inl e, fs)
      | Inr yaml \<Rightarrow>
          (let data = savedHeader (pathBase path) @ yaml in
           case mget fs path of
             None \<Rightarrow> save_replace io path data 0x180 fs
           | Some (previous, mode) \<Rightarrow>
               if \<not> io_read io then save_replace io path data mode fs
               else (let fs1 = mput (path @ ''.bak'') (written (io_backup io) previous,
                                 case mget fs (path @ ''.bak'') of Some (_, m) \<Rightarrow> m | None \<Rightarrow> mode) fs
                     in if io_backup io = Written then save_replace io path data mode fs1
                        else (Inl (osError ''write backup''), fs1))))"

lemma save_replace_effect:
  assumes "temp_fresh io [path] fs" and "save_replace io path data mode fs = (res, fs')"
  shows "(\<forall>q. q \<noteq> path \<longrightarrow> mget fs' q = mget fs q) \<and>
    (if isOk res then mget fs' path = Some (data, mode) else mget fs' path = mget fs path)"
  using assms
  by (auto simp: save_replace_def temp_fresh_def Let_def written_def split: if_splits option.splits write_result.splits)

lemma Save_effect:
  assumes "temp_fresh io [path, path @ ''.bak''] fs" and "Save encode io path config fs = (res, fs')"
  shows "(\<forall>q. q \<noteq> path \<and> q \<noteq> path @ ''.bak'' \<longrightarrow> mget fs' q = mget fs q) \<and>
    (case res of
       Inl _ \<Rightarrow> mget fs' path = mget fs path
     | Inr _ \<Rightarrow> (\<exists>yaml. encode config = Inr yaml \<and>
         mget fs' path = Some (savedHeader (pathBase path) @ yaml,
                               case mget fs path of None \<Rightarrow> 0x180 | Some (_, mode) \<Rightarrow> mode)) \<and>
         (\<forall>previous mode. mget fs path = Some (previous, mode) \<and> io_read io \<longrightarrow>
            map_option fst (mget fs' (path @ ''.bak'')) = Some previous))"
proof -
  have tf: "temp_fresh io [path] fs" using assms(1) by (simp add: temp_fresh_def)
  have tf': "temp_fresh io [path] (mput (path @ ''.bak'') v fs)" for v
    using assms(1) by (auto simp: temp_fresh_def)
  show ?thesis
  proof (cases "encode config")
    case (Inl e)
    then show ?thesis using assms(2) by (auto simp: Save_def)
  next
    case (Inr yaml)
    let ?data = "savedHeader (pathBase path) @ yaml"
    show ?thesis
    proof (cases "mget fs path")
      case None
      then have "save_replace io path ?data 0x180 fs = (res, fs')"
        using assms(2) Inr by (simp add: Save_def Let_def)
      from save_replace_effect [OF tf this] show ?thesis using None Inr by (cases res) auto
    next
      case (Some pm)
      obtain previous mode where pm: "pm = (previous, mode)" by fastforce
      let ?fs1 = "mput (path @ ''.bak'') (written (io_backup io) previous,
        case mget fs (path @ ''.bak'') of Some (_, m) \<Rightarrow> m | None \<Rightarrow> mode) fs"
      consider (unread) "\<not> io_read io" "save_replace io path ?data mode fs = (res, fs')"
        | (backup) "io_read io" "io_backup io = Written" "save_replace io path ?data mode ?fs1 = (res, fs')"
        | (failed) "io_read io" "io_backup io \<noteq> Written" "res = Inl (osError ''write backup'')" "fs' = ?fs1"
        using assms(2) Inr Some pm by (auto simp: Save_def Let_def split: if_splits)
      then show ?thesis
      proof cases
        case unread
        from save_replace_effect [OF tf unread(2)] unread(1) show ?thesis using Some pm Inr by (cases res) auto
      next
        case backup
        from save_replace_effect [OF tf' backup(3)] backup(2) show ?thesis
          using Some pm Inr by (cases res) (auto simp: written_def)
      next
        case failed
        then show ?thesis by auto
      qed
    qed
  qed
qed



end
