(* ===== verification/Acme.thy ===== *)
theory Acme
  imports Tls Save Go_Url
begin

text \<open>
  \<open>acme.go\<close>: the manager that obtains and renews certificates. The ACME client
  (acme-go), the clock, the CA and cryptography are the operations of
  \<open>acme_ops\<close> on a state of type \<open>'w\<close>; the manager's own state, the tokens it
  answers, its certificates and failures, and the files on disk are the record
  \<open>acmeManager\<close>. A time is a number of nanoseconds, and the zero time of a host
  without a failure is \<open>None\<close>.
\<close>

section \<open>Constants\<close>

definition letsEncryptDirectory :: string where
  "letsEncryptDirectory = ''https://acme-v02.api.letsencrypt.org/directory''"

definition acmeCheckInterval :: duration where "acmeCheckInterval = 12 * hour"
definition acmeMinRetry :: duration where "acmeMinRetry = 5 * minute"
definition acmeMaxRetry :: duration where "acmeMaxRetry = 12 * hour"
definition acmeReloadRetry :: duration where "acmeReloadRetry = minute"

definition acmeEligible :: "string \<Rightarrow> bool" where
  "acmeEligible host = (host \<noteq> ''*'' \<and> \<not> hasPrefix host ''*.'' \<and> parseAddr host = None)"

section \<open>State and operations of the client\<close>

record acmeFailure =
  af_err :: gerror
  af_count :: int
  af_failedAt :: int
  af_retryAt :: int

record 'w acmeManager =
  am_config :: ACMEConfig
  am_accountPath :: string
  am_certDir :: string
  am_hosts :: "string list"
  am_certs :: "(string, certificate) gomap"
  am_failures :: "(string, acmeFailure) gomap"
  am_tokens :: "(string, string) gomap"
  am_woken :: bool
  am_client :: 'w
  am_files :: files

datatype acmeStatus = StatusValid | StatusOther string

record acmeOrder =
  or_status :: acmeStatus
  or_authorizations :: "string list"
  or_finalize :: string
  or_certificate :: string

record acmeChallenge =
  ch_type :: string
  ch_url :: string
  ch_token :: string

record acmeAuthorization =
  az_status :: acmeStatus
  az_identifier :: string
  az_challenges :: "acmeChallenge list"

record 'w acme_ops =
  ao_now :: "'w \<Rightarrow> int"
  ao_cancelled :: "'w \<Rightarrow> bool"
  ao_accountURL :: "'w \<Rightarrow> string"
  ao_setAccountURL :: "string \<Rightarrow> 'w \<Rightarrow> 'w"
  ao_importKey :: "string \<Rightarrow> ('w, unit) action"
  ao_generateKey :: "('w, unit) action"
  ao_exportKey :: "('w, string) action"
  ao_register :: "string list \<Rightarrow> ('w, string) action"
  ao_createOrder :: "string \<Rightarrow> ('w, string \<times> acmeOrder) action"
  ao_getAuthorization :: "string \<Rightarrow> ('w, acmeAuthorization) action"
  ao_keyAuthorization :: "string \<Rightarrow> ('w, string) action"
  ao_completeChallenge :: "string \<Rightarrow> ('w, unit) action"
  ao_waitAuthorization :: "string \<Rightarrow> ('w, unit) action"
  ao_waitOrder :: "string \<Rightarrow> ('w, acmeOrder) action"
  ao_finalizeOrder :: "string \<Rightarrow> string \<Rightarrow> ('w, unit) action"
  ao_certificatePEM :: "string \<Rightarrow> ('w, string) action"
  ao_generateECDSA :: "('w, string) action"
  ao_createCSR :: "string \<Rightarrow> string \<Rightarrow> ('w, string) action"
  ao_keyPEM :: "string \<Rightarrow> ('w, string) action"
  ao_keyPair :: "string \<Rightarrow> string \<Rightarrow> certificate result"
  ao_tls :: tls_env
  ao_encodeAccount :: "string \<Rightarrow> string \<Rightarrow> string"
  ao_decodeAccount :: "string \<Rightarrow> (string \<times> string) result"
  ao_timestamp :: "'w \<Rightarrow> string"
  ao_io :: "'w \<Rightarrow> io \<times> 'w"

definition onClient :: "('w, 'a) action \<Rightarrow> ('w acmeManager, 'a) action" where
  "onClient m = (\<lambda>s. case m (am_client s) of (r, w) \<Rightarrow> (r, s\<lparr>am_client := w\<rparr>))"

definition writeFile :: "'w acme_ops \<Rightarrow> string \<Rightarrow> string \<Rightarrow> nat \<Rightarrow> ('w acmeManager, unit) action" where
  "writeFile ops path data perm = (\<lambda>s.
     let (io, w) = ao_io ops (am_client s); (r, fs) = writeFileAtomic io path data perm (am_files s)
     in (r, s\<lparr>am_client := w, am_files := fs\<rparr>))"

section \<open>Construction\<close>

record 'w acme_env =
  ae_readFile :: "string \<Rightarrow> string result"
  ae_hasCertificates :: "string \<Rightarrow> bool"
  ae_newClient :: "string \<Rightarrow> string option \<Rightarrow> 'w result"
  ae_importKey :: "string \<Rightarrow> 'w \<Rightarrow> 'w result"
  ae_files :: files

definition acme_roots :: "'w acme_env \<Rightarrow> ACMEConfig \<Rightarrow> string option result" where
  "acme_roots env config =
     (if acme_caRoot config = [] then Inr None
      else rbind (wrap_err (Wrapf ''tls.acme.ca_root: %w'' []) (ae_readFile env (acme_caRoot config))) (\<lambda>pem.
        if \<not> ae_hasCertificates env pem
        then Inl (Errorf ''tls.acme.ca_root %s contains no certificates'' [acme_caRoot config])
        else Inr (Some pem)))"

definition acme_account_key :: "'w acme_env \<Rightarrow> ACMEConfig \<Rightarrow> 'w \<Rightarrow> 'w result" where
  "acme_account_key env config client =
     (if acme_accountKey config = [] then Inr client
      else rbind (wrap_err (Wrapf ''tls.acme.account_key: %w'' []) (ae_readFile env (acme_accountKey config))) (\<lambda>key.
        wrap_err (Wrapf ''tls.acme.account_key %s: %w'' [acme_accountKey config]) (ae_importKey env key client)))"

definition newACMEManager :: "'w acme_env \<Rightarrow> ACMEConfig \<Rightarrow> string \<Rightarrow> 'w acmeManager result" where
  "newACMEManager env config0 dataDir =
     (let config = (if acme_directory config0 = [] then config0\<lparr>acme_directory := letsEncryptDirectory\<rparr> else config0) in
      if dataDir = []
      then Inl (Errorf ''tls.acme needs a data directory (WithDataDir, or -d for the command)'' [])
      else if acme_accountURL config0 \<noteq> [] \<and> acme_accountKey config0 = []
      then Inl (Errorf ''tls.acme.account_url requires account_key'' [])
      else case urlParse (acme_directory config) of
        None \<Rightarrow> Inl (Errorf ''invalid tls.acme.directory %q'' [acme_directory config])
      | Some u \<Rightarrow>
          if u_host u = [] then Inl (Errorf ''invalid tls.acme.directory %q'' [acme_directory config])
          else
            rbind (acme_roots env config) (\<lambda>roots.
            rbind (ae_newClient env (acme_directory config) roots) (\<lambda>client0.
            rbind (acme_account_key env config client0) (\<lambda>client.
              let storage = pathJoin dataDir ''acme''; name = replaceChar CHR '':'' ''_'' (u_host u)
              in Inr \<lparr>am_config = config,
                      am_accountPath = pathJoin (pathJoin storage ''accounts'') (name @ ''.json''),
                      am_certDir = pathJoin (pathJoin storage ''certificates'') name,
                      am_hosts = [], am_certs = [], am_failures = [], am_tokens = [], am_woken = False,
                      am_client = client, am_files = ae_files env\<rparr>))))"

section \<open>Reading state\<close>

definition acme_certificate :: "'w acmeManager \<Rightarrow> string \<Rightarrow> certificate option" where
  "acme_certificate m host = mget (am_certs m) host"

definition acme_challenge :: "'w acmeManager \<Rightarrow> string \<Rightarrow> string option" where
  "acme_challenge m token = mget (am_tokens m) token"

definition certPath :: "'w acmeManager \<Rightarrow> string \<Rightarrow> string \<times> string" where
  "certPath m host = (let base = pathJoin (am_certDir m) host in (base @ ''.crt'', base @ ''.key''))"

definition acme_retryAt :: "'w acmeManager \<Rightarrow> string \<Rightarrow> int option" where
  "acme_retryAt m host = map_option af_retryAt (mget (am_failures m) host)"

definition earliest :: "int \<Rightarrow> int \<Rightarrow> int" where
  "earliest a b = (if b < a then b else a)"

text \<open>\<open>time.Duration\<close> is an \<open>int64\<close>: \<open>Sub\<close> saturates, multiplication wraps, division truncates.\<close>

definition saturate64 :: "int \<Rightarrow> int" where
  "saturate64 d = max (- (2 ^ 63)) (min (2 ^ 63 - 1) d)"

definition wrap64 :: "int \<Rightarrow> int" where
  "wrap64 i = (i + 2 ^ 63) mod 2 ^ 64 - 2 ^ 63"

definition quot3 :: "int \<Rightarrow> int" where
  "quot3 i = (if i < 0 then - (- i div 3) else i div 3)"

definition renewAt :: "leaf \<Rightarrow> int" where
  "renewAt l = (let lifetime = saturate64 (lf_notAfter l - lf_notBefore l)
                in lf_notBefore l + quot3 (wrap64 (lifetime * 2)))"

section \<open>Changing state\<close>

definition load_stored :: "'w acme_ops \<Rightarrow> 'w acmeManager \<Rightarrow> string \<Rightarrow> certificate option" where
  "load_stored ops m host =
     (let (cert, key) = certPath m host in
      case (mget (am_files m) cert, mget (am_files m) key) of
        (Some (c, _), Some (k, _)) \<Rightarrow>
          (case rbind (ao_keyPair ops c k) (parseLeaf (ao_tls ops)) of Inr x \<Rightarrow> Some x | Inl _ \<Rightarrow> None)
      | _ \<Rightarrow> None)"

definition load_host :: "'w acme_ops \<Rightarrow> string \<Rightarrow> 'w acmeManager \<Rightarrow> 'w acmeManager" where
  "load_host ops host m =
     (if mhas (am_certs m) host then m
      else case load_stored ops m host of
        Some c \<Rightarrow> m\<lparr>am_certs := mput host c (am_certs m)\<rparr>
      | None \<Rightarrow> m)"

definition reload_failure :: "acmeFailure \<Rightarrow> acmeFailure" where
  "reload_failure f = f\<lparr>af_count := 0, af_retryAt := earliest (af_retryAt f) (af_failedAt f + acmeReloadRetry)\<rparr>"

definition setHosts :: "'w acme_ops \<Rightarrow> string list \<Rightarrow> bool \<Rightarrow> 'w acmeManager \<Rightarrow> 'w acmeManager" where
  "setHosts ops hosts reload m =
     (let m1 = m\<lparr>am_hosts := hosts\<rparr>;
          m2 = (if reload then m1\<lparr>am_failures := map (\<lambda>(h, f). (h, reload_failure f)) (am_failures m1)\<rparr> else m1);
          m3 = foldl (\<lambda>m h. load_host ops h m) m2 hosts
      in m3\<lparr>am_woken := True\<rparr>)"

definition recordFailure :: "string \<Rightarrow> gerror \<Rightarrow> int \<Rightarrow> 'w acmeManager \<Rightarrow> int \<times> 'w acmeManager" where
  "recordFailure host err now m =
     (let count = (case mget (am_failures m) host of None \<Rightarrow> 0 | Some f \<Rightarrow> af_count f) + 1;
          retryAt = now + min (acmeMinRetry * 2 ^ nat (min (count - 1) 10)) acmeMaxRetry
      in (retryAt, m\<lparr>am_failures :=
            mput host \<lparr>af_err = err, af_count = count, af_failedAt = now, af_retryAt = retryAt\<rparr> (am_failures m)\<rparr>))"

section \<open>Accounts\<close>

definition readAccount :: "'w acmeManager \<Rightarrow> string result" where
  "readAccount m = (case mget (am_files m) (am_accountPath m) of None \<Rightarrow> Inl ErrNotExist | Some (d, _) \<Rightarrow> Inr d)"

definition setAccountURL :: "'w acme_ops \<Rightarrow> string \<Rightarrow> ('w acmeManager, unit) action" where
  "setAccountURL ops url = aupd (\<lambda>m. m\<lparr>am_client := ao_setAccountURL ops url (am_client m)\<rparr>)"

definition registerAccount :: "'w acme_ops \<Rightarrow> ('w acmeManager, unit) action" where
  "registerAccount ops m =
     abind (onClient (ao_generateKey ops)) (\<lambda>_.
     abind (onClient (ao_register ops
       (if acme_email (am_config m) = [] then [] else [''mailto:'' @ acme_email (am_config m)]))) (\<lambda>url.
     abind (onClient (ao_exportKey ops)) (\<lambda>key.
       writeFile ops (am_accountPath m) (ao_encodeAccount ops url key) 0x180))) m"

definition ensureAccount :: "'w acme_ops \<Rightarrow> ('w acmeManager, unit) action" where
  "ensureAccount ops m =
     (if ao_accountURL ops (am_client m) \<noteq> [] then (Inr (), m)
      else if acme_accountKey (am_config m) \<noteq> [] then
        (if acme_accountURL (am_config m) \<noteq> [] then setAccountURL ops (acme_accountURL (am_config m)) m
         else abind (onClient (ao_register ops [])) (\<lambda>_. aok ()) m)
      else case readAccount m of
        Inr data \<Rightarrow>
          (case wrap_err (Wrapf ''%s: %w'' [am_accountPath m]) (ao_decodeAccount ops data) of
             Inl e \<Rightarrow> (Inl e, m)
           | Inr (url, key) \<Rightarrow> abind (onClient (ao_importKey ops key)) (\<lambda>_. setAccountURL ops url) m)
      | Inl e \<Rightarrow> if \<not> isNotExist e then (Inl e, m) else registerAccount ops m)"

definition accountGone :: "gerror \<Rightarrow> bool" where
  "accountGone err =
     (case asProblem err of
        None \<Rightarrow> False
      | Some (typ, detail) \<Rightarrow>
          if typ = ''urn:ietf:params:acme:error:accountDoesNotExist'' then True
          else if typ = ''urn:ietf:params:acme:error:unauthorized'' then containsStr (toLower detail) ''account''
          else False)"

definition renameFile :: "'w acme_ops \<Rightarrow> string \<Rightarrow> string \<Rightarrow> ('w acmeManager, unit) action" where
  "renameFile ops old new = (\<lambda>m.
     let (io, w) = ao_io ops (am_client m); m1 = m\<lparr>am_client := w\<rparr> in
     case mget (am_files m) old of
       None \<Rightarrow> (Inl ErrNotExist, m1)
     | Some f \<Rightarrow> if io_rename io then (Inr (), m1\<lparr>am_files := mput new f (mdel old (am_files m))\<rparr>)
                 else (Inl (osError ''rename''), m1))"

definition replaceAccount :: "'w acme_ops \<Rightarrow> gerror \<Rightarrow> ('w acmeManager, unit) action" where
  "replaceAccount ops cause m =
     (if acme_accountKey (am_config m) \<noteq> []
      then (Inl (Wrapf ''configured account %s is no longer valid: %w'' [ao_accountURL ops (am_client m)] cause), m)
      else
        (case renameFile ops (am_accountPath m)
                (am_accountPath m @ ''.invalid-'' @ ao_timestamp ops (am_client m)) m of
           (r, m1) \<Rightarrow>
             (case r of
                Inl e \<Rightarrow> if \<not> isNotExist e then (Inl e, m1)
                         else abind (setAccountURL ops []) (\<lambda>_.
                                awrap (Wrapf ''register replacement account: %w'' []) (ensureAccount ops)) m1
              | Inr _ \<Rightarrow> abind (setAccountURL ops []) (\<lambda>_.
                                awrap (Wrapf ''register replacement account: %w'' []) (ensureAccount ops)) m1)))"

section \<open>Obtaining a certificate\<close>

definition authorize :: "'w acme_ops \<Rightarrow> string \<Rightarrow> ('w acmeManager, unit) action" where
  "authorize ops url =
     abind (awrap (Wrapf ''get authorization: %w'' []) (onClient (ao_getAuthorization ops url))) (\<lambda>a.
       if az_status a = StatusValid then aok ()
       else case find (\<lambda>c. ch_type c = ''http-01'') (az_challenges a) of
         None \<Rightarrow> afail (Errorf ''CA offered no http-01 challenge for %s'' [az_identifier a])
       | Some c \<Rightarrow>
           abind (onClient (ao_keyAuthorization ops (ch_token c))) (\<lambda>ka.
           abind (aupd (\<lambda>m. m\<lparr>am_tokens := mput (ch_token c) ka (am_tokens m)\<rparr>)) (\<lambda>_.
             adefer (\<lambda>m. m\<lparr>am_tokens := mdel (ch_token c) (am_tokens m)\<rparr>)
               (abind (awrap (Wrapf ''start challenge: %w'' []) (onClient (ao_completeChallenge ops (ch_url c)))) (\<lambda>_.
                  awrap (Wrapf ''validate %s: %w'' [az_identifier a]) (onClient (ao_waitAuthorization ops url)))))))"

definition createOrder :: "'w acme_ops \<Rightarrow> string \<Rightarrow> ('w acmeManager, string \<times> acmeOrder) action" where
  "createOrder ops host m =
     (case onClient (ao_createOrder ops host) m of
        (Inr r, m1) \<Rightarrow> (Inr r, m1)
      | (Inl err, m1) \<Rightarrow>
          if accountGone err
          then abind (replaceAccount ops err) (\<lambda>_.
                 awrap (Wrapf ''create order: %w'' []) (onClient (ao_createOrder ops host))) m1
          else (Inl (Wrapf ''create order: %w'' [] err), m1))"

definition statusString :: "acmeStatus \<Rightarrow> string" where
  "statusString s = (case s of StatusValid \<Rightarrow> ''valid'' | StatusOther t \<Rightarrow> t)"

definition finalize_order ::
  "'w acme_ops \<Rightarrow> string \<Rightarrow> string \<Rightarrow> string \<Rightarrow> acmeOrder \<Rightarrow> ('w acmeManager, acmeOrder) action" where
  "finalize_order ops host orderURL key order =
     (if or_status order = StatusValid then aok order
      else abind (onClient (ao_createCSR ops host key)) (\<lambda>csr.
           abind (awrap (Wrapf ''finalize order: %w'' []) (onClient (ao_finalizeOrder ops (or_finalize order) csr))) (\<lambda>_.
           abind (onClient (ao_waitOrder ops orderURL)) (\<lambda>order'.
             if or_status order' \<noteq> StatusValid
             then afail (Errorf ''order is %s after finalization'' [statusString (or_status order')])
             else aok order'))))"

definition store_certificate_files ::
  "'w acme_ops \<Rightarrow> string \<Rightarrow> string \<Rightarrow> string \<Rightarrow> ('w acmeManager, unit) action" where
  "store_certificate_files ops host chain keyPEM = (\<lambda>m.
     abind (writeFile ops (snd (certPath m host)) keyPEM 0x180) (\<lambda>_.
       writeFile ops (fst (certPath m host)) chain 0x1A4) m)"

definition obtain_certificate :: "'w acme_ops \<Rightarrow> string \<Rightarrow> ('w acmeManager, certificate) action" where
  "obtain_certificate ops host =
     abind (awrap (Wrapf ''account: %w'' []) (ensureAccount ops)) (\<lambda>_.
     abind (createOrder ops host) (\<lambda>(orderURL, order0).
     abind (afold (authorize ops) (or_authorizations order0)) (\<lambda>_.
     abind (onClient (ao_waitOrder ops orderURL)) (\<lambda>order1.
     abind (onClient (ao_generateECDSA ops)) (\<lambda>key.
     abind (finalize_order ops host orderURL key order1) (\<lambda>order.
     abind (awrap (Wrapf ''download certificate: %w'' []) (onClient (ao_certificatePEM ops (or_certificate order)))) (\<lambda>chain.
     abind (onClient (ao_keyPEM ops key)) (\<lambda>keyPEM.
     abind (\<lambda>m. (rbind (wrap_err (Wrapf ''issued certificate: %w'' []) (ao_keyPair ops chain keyPEM))
                   (parseLeaf (ao_tls ops)), m)) (\<lambda>certificate.
     abind (store_certificate_files ops host chain keyPEM) (\<lambda>_. aok certificate))))))))))"

section \<open>The maintenance loop\<close>

text \<open>One host: whether the loop stops, the next wake-up time, and the manager.\<close>

definition attempt_host :: "'w acme_ops \<Rightarrow> string \<Rightarrow> int \<Rightarrow> 'w acmeManager \<Rightarrow> bool \<times> int \<times> 'w acmeManager" where
  "attempt_host ops host next m =
     (case obtain_certificate ops host m of
        (Inl err, m1) \<Rightarrow>
          if ao_cancelled ops (am_client m1) then (True, next, m1)
          else (let (retryAt, m2) = recordFailure host err (ao_now ops (am_client m1)) m1
                in (False, earliest next retryAt, m2))
      | (Inr c, m1) \<Rightarrow>
          (False, earliest next (renewAt (leafOf c)),
           m1\<lparr>am_certs := mput host c (am_certs m1), am_failures := mdel host (am_failures m1)\<rparr>))"

definition maintain_host :: "'w acme_ops \<Rightarrow> int \<Rightarrow> string \<Rightarrow> int \<Rightarrow> 'w acmeManager \<Rightarrow> bool \<times> int \<times> 'w acmeManager" where
  "maintain_host ops now host next m =
     (if ao_cancelled ops (am_client m) then (True, next, m)
      else
        let retry_or_attempt =
          (case acme_retryAt m host of
             Some t \<Rightarrow> if now < t then (False, earliest next t, m) else attempt_host ops host next m
           | None \<Rightarrow> attempt_host ops host next m)
        in case acme_certificate m host of
             Some c \<Rightarrow> if now < renewAt (leafOf c) then (False, earliest next (renewAt (leafOf c)), m)
                       else retry_or_attempt
           | None \<Rightarrow> retry_or_attempt)"

fun maintain_hosts :: "'w acme_ops \<Rightarrow> int \<Rightarrow> string list \<Rightarrow> int \<Rightarrow> 'w acmeManager \<Rightarrow> int \<times> 'w acmeManager" where
  "maintain_hosts ops now [] next m = (next, m)"
| "maintain_hosts ops now (host # hosts) next m =
     (case maintain_host ops now host next m of
        (stop, next', m') \<Rightarrow> if stop then (next', m') else maintain_hosts ops now hosts next' m')"

definition maintain :: "'w acme_ops \<Rightarrow> 'w acmeManager \<Rightarrow> int \<times> 'w acmeManager" where
  "maintain ops m =
     (let now = ao_now ops (am_client m)
      in maintain_hosts ops now (am_hosts m) (now + acmeCheckInterval) m)"

section \<open>Statuses\<close>

record CertificateStatus =
  st_names :: "string list"
  st_notAfter :: "int option"
  st_managed :: bool
  st_error :: "gerror option"
  st_retryAt :: "int option"

definition acme_statuses :: "'w acmeManager \<Rightarrow> CertificateStatus list" where
  "acme_statuses m = map (\<lambda>h. \<lparr>st_names = [h],
     st_notAfter = map_option (\<lambda>c. lf_notAfter (leafOf c)) (mget (am_certs m) h), st_managed = True,
     st_error = map_option af_err (mget (am_failures m) h),
     st_retryAt = map_option af_retryAt (mget (am_failures m) h)\<rparr>) (am_hosts m)"

text \<open>One status per certificate, though it stands under each of its names.\<close>

fun statuses_once :: "nat list \<Rightarrow> certificate list \<Rightarrow> CertificateStatus list" where
  "statuses_once seen [] = []"
| "statuses_once seen (c # cs) =
     (if ct_id c \<in> set seen then statuses_once seen cs
      else \<lparr>st_names = lf_dnsNames (leafOf c), st_notAfter = Some (lf_notAfter (leafOf c)), st_managed = False,
            st_error = None, st_retryAt = None\<rparr> # statuses_once (ct_id c # seen) cs)"

definition staticCertificateStatuses :: "certificateStore \<Rightarrow> CertificateStatus list" where
  "staticCertificateStatuses s = statuses_once []
     (map snd (exact (cs_current s)) @ map snd (wildcard (cs_current s)) @
      map snd (exact (cs_stale s)) @ map snd (wildcard (cs_stale s)))"

section \<open>What obtaining leaves alone\<close>

text \<open>The manager's own state, with the tokens bounded by \<open>T\<close>.\<close>

definition frame ::
  "string set \<Rightarrow> (string, acmeFailure) gomap \<Rightarrow> (string, certificate) gomap \<Rightarrow> string list \<Rightarrow> 'w acmeManager \<Rightarrow> bool" where
  "frame T F C H m \<longleftrightarrow> set (mkeys (am_tokens m)) \<subseteq> T \<and> am_failures m = F \<and> am_certs m = C \<and> am_hosts m = H"

lemma frame_io [simp]:
  "frame T F C H (m\<lparr>am_client := w\<rparr>) = frame T F C H m"
  "frame T F C H (m\<lparr>am_files := fs\<rparr>) = frame T F C H m"
  by (simp_all add: frame_def)

lemma keeps_onClient [keeps_intros]: "keeps (frame T F C H) (onClient m)"
  by (auto simp: keeps_def onClient_def split: prod.split)

lemma keeps_writeFile [keeps_intros]: "keeps (frame T F C H) (writeFile ops path data perm)"
  by (auto simp: keeps_def writeFile_def Let_def split: prod.split)

lemma keeps_setAccountURL [keeps_intros]: "keeps (frame T F C H) (setAccountURL ops url)"
  by (simp add: keeps_def setAccountURL_def aupd_def)

lemma keeps_renameFile [keeps_intros]: "keeps (frame T F C H) (renameFile ops old new)"
  by (auto simp: keeps_def renameFile_def Let_def split: prod.split option.split)

lemma keeps_at: "(\<And>m0. keeps P (f m0)) \<Longrightarrow> keeps P (\<lambda>m. f m m)"
  by (simp add: keeps_def)

lemma keeps_registerAccount [keeps_intros]: "keeps (frame T F C H) (registerAccount ops)"
proof -
  have "keeps (frame T F C H) (\<lambda>m. abind (onClient (ao_generateKey ops)) (\<lambda>_.
     abind (onClient (ao_register ops
       (if acme_email (am_config m) = [] then [] else [''mailto:'' @ acme_email (am_config m)]))) (\<lambda>url.
     abind (onClient (ao_exportKey ops)) (\<lambda>key.
       writeFile ops (am_accountPath m) (ao_encodeAccount ops url key) 0x180))) m)"
    by (rule keeps_at) (intro keeps_intros)
  moreover have "registerAccount ops = (\<lambda>m. registerAccount ops m)" by (rule ext) simp
  ultimately show ?thesis by (simp add: registerAccount_def [abs_def])
qed

lemma keeps_ensureAccount [keeps_intros]: "keeps (frame T F C H) (ensureAccount ops)"
proof -
  have a: "keeps (frame T F C H) (abind (onClient (ao_register ops [])) (\<lambda>_. aok ()))" by (intro keeps_intros)
  have b: "keeps (frame T F C H) (abind (onClient (ao_importKey ops key)) (\<lambda>_. setAccountURL ops url))" for key url
    by (intro keeps_intros)
  show ?thesis
    unfolding keeps_def ensureAccount_def
    using a b keeps_setAccountURL [of T F C H ops] keeps_registerAccount [of T F C H ops]
    by (auto simp: keeps_def split: sum.split prod.split)
qed

lemma keeps_replaceAccount [keeps_intros]: "keeps (frame T F C H) (replaceAccount ops cause)"
proof -
  have k: "keeps (frame T F C H) (abind (setAccountURL ops []) (\<lambda>_.
      awrap (Wrapf ''register replacement account: %w'' []) (ensureAccount ops)))" by (intro keeps_intros)
  show ?thesis
    unfolding keeps_def
  proof (intro allI impI)
    fix m :: "'a acmeManager"
    assume m: "frame T F C H m"
    obtain r m1 where r: "renameFile ops (am_accountPath m)
        (am_accountPath m @ ''.invalid-'' @ ao_timestamp ops (am_client m)) m = (r, m1)" by fastforce
    have "frame T F C H m1" using keepsD [OF keeps_renameFile m r] .
    with m r k show "frame T F C H (snd (replaceAccount ops cause m))"
      by (auto simp: replaceAccount_def keeps_def split: sum.split)
  qed
qed

lemma keeps_createOrder [keeps_intros]: "keeps (frame T F C H) (createOrder ops host)"
proof -
  have k: "keeps (frame T F C H) (abind (replaceAccount ops err) (\<lambda>_.
      awrap (Wrapf ''create order: %w'' []) (onClient (ao_createOrder ops host))))" for err by (intro keeps_intros)
  show ?thesis
    unfolding keeps_def
  proof (intro allI impI)
    fix m :: "'a acmeManager"
    assume m: "frame T F C H m"
    obtain r m1 where r: "onClient (ao_createOrder ops host) m = (r, m1)" by fastforce
    have "frame T F C H m1" using keepsD [OF keeps_onClient m r] .
    with r k show "frame T F C H (snd (createOrder ops host m))"
      by (auto simp: createOrder_def keeps_def split: sum.split)
  qed
qed

text \<open>A token put before an action and deleted after it is gone, whatever the action's outcome.\<close>

lemma keeps_bracket:
  assumes "keeps (frame (insert t T) F C H) m"
  shows "keeps (frame T F C H) (abind (aupd (\<lambda>m. m\<lparr>am_tokens := mput t ka (am_tokens m)\<rparr>)) (\<lambda>_.
           adefer (\<lambda>m. m\<lparr>am_tokens := mdel t (am_tokens m)\<rparr>) m))"
proof -
  have "frame (insert t T) F C H (s\<lparr>am_tokens := mput t ka (am_tokens s)\<rparr>)" if "frame T F C H s" for s :: "'a acmeManager"
    using that mput_keys [of t ka "am_tokens s"] by (auto simp: frame_def)
  moreover have "frame T F C H (s\<lparr>am_tokens := mdel t (am_tokens s)\<rparr>)" if "frame (insert t T) F C H s" for s :: "'a acmeManager"
    using that by (auto simp: frame_def delete_keys)
  moreover note keepsD [OF assms]
  ultimately show ?thesis
    by (simp add: keeps_def abind_def aupd_def adefer_def split: prod.split) metis
qed

lemma keeps_authorize [keeps_intros]: "keeps (frame T F C H) (authorize ops url)"
  unfolding authorize_def by (intro keeps_bracket keeps_intros)

lemma keeps_finalize [keeps_intros]: "keeps (frame T F C H) (finalize_order ops host orderURL key order)"
  unfolding finalize_order_def by (intro keeps_intros)

lemma keeps_store_files [keeps_intros]: "keeps (frame T F C H) (store_certificate_files ops host chain keyPEM)"
  unfolding store_certificate_files_def by (rule keeps_at) (intro keeps_intros)

lemma keeps_pure [keeps_intros]: "keeps P (\<lambda>m. (r, m))"
  by (simp add: keeps_def)

lemma keeps_obtain: "keeps (frame T F C H) (obtain_certificate ops host)"
  unfolding obtain_certificate_def by (intro keeps_intros)

section \<open>Renewal times\<close>

text \<open>A certificate is renewed two thirds into its lifetime: for every lifetime up to
  146 years, the renewal time is the start of validity plus two thirds of the
  lifetime, and so lies between start and end.\<close>

theorem renewAt_two_thirds:
  assumes "lf_notBefore l \<le> lf_notAfter l" and "lf_notAfter l - lf_notBefore l < 2 ^ 62"
  shows "renewAt l = lf_notBefore l + 2 * (lf_notAfter l - lf_notBefore l) div 3 \<and>
    lf_notBefore l \<le> renewAt l \<and> renewAt l \<le> lf_notAfter l"
proof -
  let ?d = "lf_notAfter l - lf_notBefore l"
  have "saturate64 ?d = ?d" using assms by (simp add: saturate64_def)
  moreover have "wrap64 (?d * 2) = ?d * 2" using assms by (simp add: wrap64_def)
  ultimately have "renewAt l = lf_notBefore l + 2 * ?d div 3"
    using assms(1) by (simp add: renewAt_def quot3_def Let_def mult.commute)
  moreover have "0 \<le> 2 * ?d div 3" "2 * ?d div 3 \<le> ?d" using assms(1) by simp_all
  ultimately show ?thesis by simp
qed

theorem renewAt_two_thirds_witness: "renewAt (sample_leaf 90) = 60 * 24 * hour"
  using renewAt_two_thirds [of "sample_leaf 90"] by (simp add: sample_leaf_def)

text \<open>Beyond that the doubled lifetime overflows: a certificate for 150 years is due before it is valid.\<close>

lemma renewAt_overflow:
  "renewAt \<lparr>lf_notBefore = 0, lf_notAfter = 150 * 365 * 24 * hour, lf_dnsNames = [], lf_commonName = []\<rparr> < 0"
  by (simp add: renewAt_def saturate64_def wrap64_def quot3_def Let_def)

section \<open>Backoff\<close>

text \<open>
  No retry is due sooner than a minute after the failure, nor later than twelve
  hours after it.
\<close>

definition failure_ok :: "acmeFailure \<Rightarrow> bool" where
  "failure_ok f \<longleftrightarrow> 0 \<le> af_count f \<and> af_failedAt f + acmeReloadRetry \<le> af_retryAt f \<and>
     af_retryAt f \<le> af_failedAt f + acmeMaxRetry"

definition failures_ok :: "(string, acmeFailure) gomap \<Rightarrow> bool" where
  "failures_ok fs \<longleftrightarrow> (\<forall>h f. mget fs h = Some f \<longrightarrow> failure_ok f)"

lemma wait_bounds:
  "acmeReloadRetry \<le> min (acmeMinRetry * 2 ^ n) acmeMaxRetry" "min (acmeMinRetry * 2 ^ n) acmeMaxRetry \<le> acmeMaxRetry"
proof -
  have "acmeMinRetry * 1 \<le> acmeMinRetry * 2 ^ n" by (rule mult_left_mono) (simp_all add: acmeMinRetry_def)
  moreover have "acmeReloadRetry \<le> acmeMinRetry * 1" "acmeReloadRetry \<le> acmeMaxRetry"
    by (simp_all add: acmeReloadRetry_def acmeMinRetry_def acmeMaxRetry_def)
  ultimately show "acmeReloadRetry \<le> min (acmeMinRetry * 2 ^ n) acmeMaxRetry" by linarith
qed simp

lemma recordFailure_ok:
  assumes "failures_ok (am_failures m)" and "recordFailure host err now m = (t, m')"
  shows "failures_ok (am_failures m') \<and> acme_retryAt m' host = Some t"
proof -
  let ?count = "(case mget (am_failures m) host of None \<Rightarrow> 0 | Some f \<Rightarrow> af_count f) + 1"
  let ?w = "min (acmeMinRetry * 2 ^ nat (min (?count - 1) 10)) acmeMaxRetry"
  let ?f = "\<lparr>af_err = err, af_count = ?count, af_failedAt = now, af_retryAt = now + ?w\<rparr>"
  have m': "m' = m\<lparr>am_failures := mput host ?f (am_failures m)\<rparr>" and t: "t = now + ?w"
    using assms(2) unfolding recordFailure_def Let_def by (auto simp only: prod.inject)
  have "0 \<le> ?count"
    using assms(1) by (auto simp: failures_ok_def failure_ok_def split: option.split)
  then have "failure_ok ?f" using wait_bounds by (simp add: failure_ok_def)
  then show ?thesis using assms(1) t unfolding m' failures_ok_def acme_retryAt_def by simp
qed

lemma reload_failure_ok: "failure_ok f \<Longrightarrow> failure_ok (reload_failure f)"
  by (auto simp: failure_ok_def reload_failure_def earliest_def acmeReloadRetry_def acmeMaxRetry_def)

lemma load_host_frame [simp]:
  "am_failures (load_host ops h m) = am_failures m" "am_tokens (load_host ops h m) = am_tokens m"
  "am_hosts (load_host ops h m) = am_hosts m"
  by (auto simp: load_host_def split: option.split)

lemma load_hosts_frame [simp]:
  "am_failures (foldl (\<lambda>m h. load_host ops h m) m hs) = am_failures m"
  "am_tokens (foldl (\<lambda>m h. load_host ops h m) m hs) = am_tokens m"
  "am_hosts (foldl (\<lambda>m h. load_host ops h m) m hs) = am_hosts m"
  by (induction hs arbitrary: m) simp_all

lemma map_of_map_snd: "map_of (map (\<lambda>(k, v). (k, f v)) xs) k = map_option f (map_of xs k)"
  by (induction xs) auto

lemma setHosts_failures:
  "mget (am_failures (setHosts ops hosts reload m)) h =
     map_option (if reload then reload_failure else id) (mget (am_failures m) h)"
  by (simp add: setHosts_def Let_def map_of_map_snd option.map_id)

lemma setHosts_ok: "failures_ok (am_failures m) \<Longrightarrow> failures_ok (am_failures (setHosts ops hosts reload m))"
  unfolding failures_ok_def setHosts_failures by (auto intro: reload_failure_ok)

text \<open>The wait after the \<open>n\<close>-th failure in a row is five minutes doubled \<open>n - 1\<close>
  times, at most twelve hours: the cut-off of the exponent at ten changes no
  value.\<close>

theorem backoff_doubles:
  assumes "n = (case mget (am_failures m) host of None \<Rightarrow> 0 | Some f \<Rightarrow> nat (af_count f))"
    and "failures_ok (am_failures m)"
  shows "fst (recordFailure host err now m) = now + min (acmeMinRetry * 2 ^ n) acmeMaxRetry"
proof -
  have count: "(case mget (am_failures m) host of None \<Rightarrow> 0 | Some f \<Rightarrow> af_count f) = int n"
    using assms by (auto simp: failures_ok_def failure_ok_def split: option.split)
  have "min (acmeMinRetry * 2 ^ nat (min (int n) 10)) acmeMaxRetry = min (acmeMinRetry * 2 ^ n) acmeMaxRetry"
  proof (cases "n \<le> 10")
    case True
    then show ?thesis by (simp add: min_def nat_int)
  next
    case False
    then have "(2 :: int) ^ 10 \<le> 2 ^ n" by (intro power_increasing) auto
    with False show ?thesis by (simp add: min_def acmeMinRetry_def acmeMaxRetry_def)
  qed
  then show ?thesis by (simp add: recordFailure_def count Let_def)
qed

definition sample_manager :: "int acmeManager" where
  "sample_manager = \<lparr>am_config = \<lparr>acme_email = [], acme_accountKey = [], acme_accountURL = [], acme_directory = [],
       acme_caRoot = []\<rparr>, am_accountPath = ''/a.json'', am_certDir = ''/c'', am_hosts = [''a.test''], am_certs = [],
     am_failures = [(''a.test'', \<lparr>af_err = ErrNotExist, af_count = 2, af_failedAt = 0, af_retryAt = 10 * minute\<rparr>)],
     am_tokens = [], am_woken = False, am_client = 0, am_files = []\<rparr>"

lemma sample_failures_ok: "failures_ok (am_failures sample_manager)"
  by (simp add: failures_ok_def sample_manager_def failure_ok_def acmeReloadRetry_def acmeMaxRetry_def)

theorem backoff_doubles_witness: "fst (recordFailure ''a.test'' ErrNotExist (hour) sample_manager) = hour + 20 * minute"
  using backoff_doubles [OF _ sample_failures_ok, of 2 "''a.test''" ErrNotExist hour]
  by (simp add: sample_manager_def acmeMinRetry_def acmeMaxRetry_def)

text \<open>A reload asks for early retries but never hammers the CA: when the last attempt
  for a host failed less than a minute ago, maintenance after a reload makes no
  call for the host at all and wakes up no later than its retry time, however
  often the configuration is reloaded.\<close>

theorem reload_keeps_pace:
  assumes "failures_ok (am_failures m)" and "mget (am_failures m) h = Some f"
    and "now < af_failedAt f + acmeReloadRetry" and "m' = ((setHosts ops hosts True) ^^ n) m"
  shows "\<exists>stop next'. maintain_host ops now h nx m' = (stop, next', m') \<and>
    (\<not> stop \<longrightarrow> next' \<le> nx)"
proof -
  have "failures_ok (am_failures m') \<and> (\<exists>f'. mget (am_failures m') h = Some f' \<and> af_failedAt f' = af_failedAt f)"
    unfolding assms(4)
  proof (induction n)
    case (Suc n)
    then show ?case by (auto simp: setHosts_ok setHosts_failures reload_failure_def)
  qed (use assms(1,2) in simp)
  then obtain f' where "mget (am_failures m') h = Some f'" "now < af_retryAt f'"
    using assms(3) by (force simp: failures_ok_def failure_ok_def)
  then have "acme_retryAt m' h = Some (af_retryAt f')" "now < af_retryAt f'" by (simp_all add: acme_retryAt_def)
  then show ?thesis
    by (auto simp: maintain_host_def Let_def earliest_def split: option.split)
qed

definition sample_ops :: "int acme_ops" where
  "sample_ops = \<lparr>ao_now = id, ao_cancelled = (\<lambda>_. False), ao_accountURL = (\<lambda>_. ''u''), ao_setAccountURL = (\<lambda>_ w. w),
     ao_importKey = (\<lambda>_. aok ()), ao_generateKey = aok (), ao_exportKey = aok [], ao_register = (\<lambda>_. aok ''u''),
     ao_createOrder = (\<lambda>_. afail (AcmeProblem ''urn:ietf:params:acme:error:rateLimited'' [])),
     ao_getAuthorization = (\<lambda>_. afail ErrNotExist),
     ao_keyAuthorization = (\<lambda>t. aok t), ao_completeChallenge = (\<lambda>_. aok ()), ao_waitAuthorization = (\<lambda>_. aok ()),
     ao_waitOrder = (\<lambda>_. afail ErrNotExist), ao_finalizeOrder = (\<lambda>_ _. aok ()), ao_certificatePEM = (\<lambda>_. aok []),
     ao_generateECDSA = aok [], ao_createCSR = (\<lambda>_ _. aok []), ao_keyPEM = (\<lambda>_. aok []),
     ao_keyPair = (\<lambda>_ _. Inl ErrNotExist), ao_tls = sample_tls, ao_encodeAccount = (\<lambda>u k. u),
     ao_decodeAccount = (\<lambda>d. Inr (d, d)), ao_timestamp = (\<lambda>_. []), ao_io = (\<lambda>w. (sample_io, w))\<rparr>"

theorem reload_keeps_pace_witness:
  "snd (snd (maintain_host sample_ops 1 ''a.test'' 7 (setHosts sample_ops [''a.test''] True sample_manager))) =
   setHosts sample_ops [''a.test''] True sample_manager"
proof -
  have f: "mget (am_failures sample_manager) ''a.test'' =
      Some \<lparr>af_err = ErrNotExist, af_count = 2, af_failedAt = 0, af_retryAt = 10 * minute\<rparr>"
    by (simp add: sample_manager_def)
  show ?thesis
    using reload_keeps_pace [OF sample_failures_ok f, where now = 1 and n = 1 and ops = sample_ops and hosts = "[''a.test'']" and nx = 7]
    by (auto simp: acmeReloadRetry_def)
qed

section \<open>Maintenance\<close>

lemma obtain_frame:
  assumes "obtain_certificate ops host m = (r, m1)"
  shows "am_failures m1 = am_failures m \<and> am_certs m1 = am_certs m \<and> am_hosts m1 = am_hosts m \<and>
    set (mkeys (am_tokens m1)) \<subseteq> set (mkeys (am_tokens m))"
proof -
  have "frame (set (mkeys (am_tokens m))) (am_failures m) (am_certs m) (am_hosts m) m" by (simp add: frame_def)
  from keepsD [OF keeps_obtain this assms] show ?thesis by (simp add: frame_def)
qed

definition scheduled :: "int \<Rightarrow> string \<Rightarrow> 'w acmeManager \<Rightarrow> bool" where
  "scheduled n h m \<longleftrightarrow> (\<exists>c. acme_certificate m h = Some c \<and> n \<le> renewAt (leafOf c)) \<or>
     (\<exists>t. acme_retryAt m h = Some t \<and> n \<le> t)"

lemma scheduled_mono: "scheduled n h m \<Longrightarrow> n' \<le> n \<Longrightarrow> scheduled n' h m"
  by (force simp: scheduled_def)

definition same_host :: "'w acmeManager \<Rightarrow> 'w acmeManager \<Rightarrow> string \<Rightarrow> bool" where
  "same_host m m' g \<longleftrightarrow> mget (am_certs m') g = mget (am_certs m) g \<and> mget (am_failures m') g = mget (am_failures m) g"

lemma same_host_scheduled: "same_host m m' g \<Longrightarrow> scheduled n g m' = scheduled n g m"
  by (simp add: same_host_def scheduled_def acme_certificate_def acme_retryAt_def)

lemma attempt_host_effect:
  assumes "attempt_host ops host nx m = (stop, next', m')"
  shows "next' \<le> nx \<and> set (mkeys (am_tokens m')) \<subseteq> set (mkeys (am_tokens m)) \<and>
    (failures_ok (am_failures m) \<longrightarrow> failures_ok (am_failures m')) \<and> (\<forall>g. g \<noteq> host \<longrightarrow> same_host m m' g) \<and>
    (\<not> stop \<longrightarrow> scheduled next' host m')"
proof -
  obtain r m1 where o: "obtain_certificate ops host m = (r, m1)" by fastforce
  note frame = obtain_frame [OF o]
  show ?thesis
  proof (cases r)
    case (Inl err)
    show ?thesis
    proof (cases "ao_cancelled ops (am_client m1)")
      case True
      then show ?thesis using assms o Inl frame by (simp add: attempt_host_def same_host_def)
    next
      case False
      obtain t m2 where rec: "recordFailure host err (ao_now ops (am_client m1)) m1 = (t, m2)" by fastforce
      have m2: "m' = m2" "next' = earliest nx t" using assms o Inl False rec by (simp_all add: attempt_host_def)
      have rest: "am_tokens m2 = am_tokens m1" "am_certs m2 = am_certs m1"
        "\<forall>g. g \<noteq> host \<longrightarrow> mget (am_failures m2) g = mget (am_failures m1) g" "acme_retryAt m2 host = Some t"
        using rec by (auto simp: recordFailure_def Let_def acme_retryAt_def)
      have "failures_ok (am_failures m) \<longrightarrow> failures_ok (am_failures m2)"
        using recordFailure_ok [OF _ rec] frame by simp
      moreover have "scheduled (earliest nx t) host m2" using rest(4) by (simp add: scheduled_def earliest_def)
      ultimately show ?thesis using rest frame unfolding m2 by (auto simp: same_host_def earliest_def)
    qed
  next
    case (Inr c)
    then have m': "m' = m1\<lparr>am_certs := mput host c (am_certs m1), am_failures := mdel host (am_failures m1)\<rparr>"
      and "next' = earliest nx (renewAt (leafOf c))" and "\<not> stop"
      using assms o by (simp_all add: attempt_host_def)
    then show ?thesis
      using frame by (auto simp: same_host_def scheduled_def acme_certificate_def earliest_def failures_ok_def)
  qed
qed

lemma maintain_host_effect:
  assumes "maintain_host ops now host nx m = (stop, next', m')"
  shows "next' \<le> nx \<and> set (mkeys (am_tokens m')) \<subseteq> set (mkeys (am_tokens m)) \<and>
    (failures_ok (am_failures m) \<longrightarrow> failures_ok (am_failures m')) \<and> (\<forall>g. g \<noteq> host \<longrightarrow> same_host m m' g) \<and>
    (\<not> stop \<longrightarrow> scheduled next' host m')"
proof (cases "attempt_host ops host nx m = (stop, next', m')")
  case True
  then show ?thesis by (rule attempt_host_effect)
next
  case False
  then have "m' = m \<and> next' \<le> nx \<and> (\<not> stop \<longrightarrow> scheduled next' host m)"
    using assms
    by (auto simp: maintain_host_def Let_def earliest_def scheduled_def split: if_splits option.splits)
  then show ?thesis by (simp add: same_host_def)
qed

lemma maintain_hosts_effect:
  assumes "maintain_hosts ops now hosts nx m = (next', m')" and "\<forall>w. \<not> ao_cancelled ops w"
  shows "next' \<le> nx \<and> (\<forall>g. g \<notin> set hosts \<longrightarrow> same_host m m' g) \<and> (\<forall>h \<in> set hosts. scheduled next' h m')"
  using assms(1)
proof (induction hosts arbitrary: nx m)
  case (Cons host hosts)
  obtain stop n1 m1 where s: "maintain_host ops now host nx m = (stop, n1, m1)" by (metis prod_cases3)
  note eff = maintain_host_effect [OF s]
  have "\<not> stop"
    using s assms(2) by (auto simp: maintain_host_def attempt_host_def Let_def split: if_splits option.splits prod.splits sum.splits)
  then have "maintain_hosts ops now hosts n1 m1 = (next', m')" using Cons.prems s by simp
  note ih = Cons.IH [OF this]
  have "scheduled next' host m'" if "host \<notin> set hosts"
    using ih that eff \<open>\<not> stop\<close> same_host_scheduled [of m1 m' host] scheduled_mono by blast
  then show ?case using ih eff by (auto simp: same_host_def)
qed (simp add: same_host_def)

lemma maintain_hosts_tokens:
  "maintain_hosts ops now hosts nx m = (next', m') \<Longrightarrow>
   set (mkeys (am_tokens m')) \<subseteq> set (mkeys (am_tokens m)) \<and>
   (failures_ok (am_failures m) \<longrightarrow> failures_ok (am_failures m'))"
proof (induction hosts arbitrary: nx m)
  case (Cons host hosts)
  obtain stop n1 m1 where s: "maintain_host ops now host nx m = (stop, n1, m1)" by (metis prod_cases3)
  note eff = maintain_host_effect [OF s]
  show ?case
  proof (cases stop)
    case True
    then show ?thesis using Cons.prems s eff by simp
  next
    case False
    then show ?thesis using Cons.IH [of n1 m1] Cons.prems s eff by auto
  qed
qed simp

text \<open>C35: Every managed host is looked after: a maintenance run that is not cancelled ends,
  for each managed host, with a certificate or with a recorded failure, wakes up
  again no later than the earliest renewal or retry time among them, and within
  twelve hours in any case; other hosts are left alone.\<close>

theorem maintain_schedules_all:
  assumes "maintain ops m = (nx, m')" and "\<forall>w. \<not> ao_cancelled ops w"
  shows "nx \<le> ao_now ops (am_client m) + acmeCheckInterval \<and>
    (\<forall>h \<in> set (am_hosts m). (\<exists>c. acme_certificate m' h = Some c \<and> nx \<le> renewAt (leafOf c)) \<or>
       (\<exists>t. acme_retryAt m' h = Some t \<and> nx \<le> t)) \<and>
    (\<forall>g. g \<notin> set (am_hosts m) \<longrightarrow> acme_certificate m' g = acme_certificate m g \<and> acme_retryAt m' g = acme_retryAt m g)"
  using maintain_hosts_effect [OF _ assms(2), of "ao_now ops (am_client m)" "am_hosts m"
      "ao_now ops (am_client m) + acmeCheckInterval" m nx m'] assms(1)
  by (auto simp: maintain_def Let_def scheduled_def same_host_def acme_certificate_def acme_retryAt_def)

theorem maintain_schedules_all_witness:
  "fst (maintain sample_ops sample_manager) \<le> 12 * hour"
  using maintain_schedules_all [of sample_ops sample_manager "fst (maintain sample_ops sample_manager)"
      "snd (maintain sample_ops sample_manager)"]
  by (simp add: sample_ops_def sample_manager_def acmeCheckInterval_def)

text \<open>Challenge tokens do not outlive their authorization: on every path through
  obtaining certificates, errors included, a maintenance run leaves no token
  that was not there before it, and keeps every retry time within its bounds.\<close>

theorem maintain_leaves_no_tokens:
  "set (mkeys (am_tokens (snd (maintain ops m)))) \<subseteq> set (mkeys (am_tokens m)) \<and>
   (failures_ok (am_failures m) \<longrightarrow> failures_ok (am_failures (snd (maintain ops m))))"
  using maintain_hosts_tokens [OF prod.collapse [symmetric]] by (simp only: maintain_def Let_def)

theorem maintain_leaves_no_tokens_witness:
  "am_tokens (snd (maintain sample_ops sample_manager)) = [] \<and> failures_ok (am_failures (snd (maintain sample_ops sample_manager)))"
  using maintain_leaves_no_tokens [of sample_ops sample_manager] sample_failures_ok
  by (simp add: sample_manager_def)

end
