(* ===== verification/Http.thy ===== *)
theory Http
  imports Go_Url Go_Net
begin

text \<open>
  Requests, responses and handlers: headers with canonical keys (\<open>net/http\<close>),
  the per-request metadata and the plumbing of \<open>middleware.go\<close>, and the
  \<open>responseTracker\<close> of \<open>observability.go\<close>.

  A handler is a function from a request and an exchange to an outcome and the
  exchange after it. The exchange holds what the request's goroutine can see
  and change: the tracker around the connection's response writer, the
  \<open>requestState\<close> the request's context carries (\<open>None\<close> for a request Yabber
  does not serve), the clock, and the state shared with other requests (type
  \<open>'g\<close>). A panic is an outcome, so that code running after the handler
  (\<open>defer\<close>) is part of the model.
\<close>

section \<open>Headers\<close>

type_synonym header = "(string, string list) gomap"

definition tokenChar :: "char \<Rightarrow> bool" where
  "tokenChar c = (is_alnum c \<or> c \<in> set ''!#$%&*+-.^_`|~'' \<or> c = CHR 0x27)"

fun canonicalBytes :: "bool \<Rightarrow> string \<Rightarrow> string" where
  "canonicalBytes up [] = []"
| "canonicalBytes up (c # cs) = (if up then upper c else lower c) # canonicalBytes (c = CHR ''-'') cs"

definition canonicalKey :: "string \<Rightarrow> string" where
  "canonicalKey s = (if list_all tokenChar s then canonicalBytes True s else s)"

definition headerValues :: "header \<Rightarrow> string \<Rightarrow> string list" where
  "headerValues h name = (case mget h (canonicalKey name) of Some vs \<Rightarrow> vs | None \<Rightarrow> [])"

definition headerGet :: "header \<Rightarrow> string \<Rightarrow> string" where
  "headerGet h name = (case headerValues h name of [] \<Rightarrow> [] | v # _ \<Rightarrow> v)"

definition headerSet :: "string \<Rightarrow> string \<Rightarrow> header \<Rightarrow> header" where
  "headerSet name v h = mput (canonicalKey name) [v] h"

definition headerAdd :: "string \<Rightarrow> string \<Rightarrow> header \<Rightarrow> header" where
  "headerAdd name v h = mput (canonicalKey name) (headerValues h name @ [v]) h"

definition headerDel :: "string \<Rightarrow> header \<Rightarrow> header" where
  "headerDel name h = mdel (canonicalKey name) h"

lemma headerValues_Set [simp]:
  "headerValues (headerSet n v h) m = (if canonicalKey m = canonicalKey n then [v] else headerValues h m)"
  by (simp add: headerValues_def headerSet_def)

lemma headerValues_Del [simp]:
  "headerValues (headerDel n h) m = (if canonicalKey m = canonicalKey n then [] else headerValues h m)"
  by (simp add: headerValues_def headerDel_def)

lemma headerGet_Set [simp]:
  "headerGet (headerSet n v h) m = (if canonicalKey m = canonicalKey n then v else headerGet h m)"
  by (simp add: headerGet_def)

lemma headerGet_Del [simp]:
  "headerGet (headerDel n h) m = (if canonicalKey m = canonicalKey n then [] else headerGet h m)"
  by (simp add: headerGet_def)

section \<open>Requests\<close>

text \<open>
  \<open>r_bodyLimit\<close> is the bound of the innermost \<open>MaxBytesReader\<close> around the body,
  \<open>r_deadline\<close> and \<open>r_cancelled\<close> the state of the request's context.
\<close>

record request =
  r_method :: string
  r_host :: string
  r_url :: url
  r_header :: header
  r_remoteAddr :: string
  r_contentLength :: int
  r_tls :: bool
  r_body :: string
  r_bodyLimit :: "int option"
  r_deadline :: "int option"
  r_cancelled :: bool

text \<open>A GET request as the witnesses use it.\<close>

definition get_request :: "string \<Rightarrow> string \<Rightarrow> string \<Rightarrow> header \<Rightarrow> request" where
  "get_request host path remote hdr =
     \<lparr>r_method = ''GET'', r_host = host, r_url = empty_url\<lparr>u_path := path\<rparr>, r_header = hdr,
      r_remoteAddr = remote, r_contentLength = 0, r_tls = False, r_body = [], r_bodyLimit = None,
      r_deadline = None, r_cancelled = False\<rparr>"

lemma get_request_simps [simp]:
  "r_method (get_request h p a hdr) = ''GET''" "r_host (get_request h p a hdr) = h"
  "r_url (get_request h p a hdr) = empty_url\<lparr>u_path := p\<rparr>" "r_header (get_request h p a hdr) = hdr"
  "r_remoteAddr (get_request h p a hdr) = a" "r_tls (get_request h p a hdr) = False"
  "r_contentLength (get_request h p a hdr) = 0"
  by (simp_all add: get_request_def)

section \<open>The response tracker\<close>

text \<open>
  The first four fields are the connection's \<open>http.ResponseWriter\<close>: its header,
  the status codes given to \<open>WriteHeader\<close> (a body written without one counts as
  200), the body bytes it accepted (for a HEAD request the connection then
  discards them), and how many more bytes it takes before writes fail. The last two are the tracker's own.
\<close>

record tracker =
  rw_header :: header
  rw_codes :: "int list"
  rw_body :: string
  rw_room :: nat
  t_status :: int
  t_bytes :: int

definition final_code :: "int \<Rightarrow> bool" where
  "final_code c = (200 \<le> c \<or> c = 101)"

definition under_writeHeader :: "int \<Rightarrow> tracker \<Rightarrow> tracker" where
  "under_writeHeader c t = t\<lparr>rw_codes := rw_codes t @ [c]\<rparr>"

definition under_start :: "tracker \<Rightarrow> tracker" where
  "under_start t = (if list_ex final_code (rw_codes t) then t else under_writeHeader 200 t)"

text \<open>Responses with status 101, 204 and 304 have no body: writes to them fail.\<close>

definition bodyAllowed :: "tracker \<Rightarrow> bool" where
  "bodyAllowed t = (\<not> list_ex (\<lambda>c. c = 101 \<or> c = 204 \<or> c = 304) (rw_codes t))"

definition under_write :: "string \<Rightarrow> tracker \<Rightarrow> nat \<times> tracker" where
  "under_write d t =
     (let n = (if bodyAllowed t then min (length d) (rw_room t) else 0); u = under_start t
      in (n, u\<lparr>rw_body := rw_body u @ take n d, rw_room := rw_room u - n\<rparr>))"

definition tracker_WriteHeader :: "int \<Rightarrow> tracker \<Rightarrow> tracker" where
  "tracker_WriteHeader status t =
     (if t_status t \<noteq> 0 then t
      else under_writeHeader status
             (if 200 \<le> status \<or> status = 101 then t\<lparr>t_status := status\<rparr> else t))"

definition tracker_Write :: "string \<Rightarrow> tracker \<Rightarrow> nat \<times> tracker" where
  "tracker_Write d t =
     (let t1 = (if t_status t = 0 then t\<lparr>t_status := 200\<rparr> else t);
          (n, t2) = under_write d t1
      in (n, t2\<lparr>t_bytes := t_bytes t2 + int n\<rparr>))"

definition tracker_Flush :: "tracker \<Rightarrow> tracker" where
  "tracker_Flush t = under_start (if t_status t = 0 then t\<lparr>t_status := 200\<rparr> else t)"

definition newTracker :: "nat \<Rightarrow> tracker" where
  "newTracker room = \<lparr>rw_header = [], rw_codes = [], rw_body = [], rw_room = room, t_status = 0, t_bytes = 0\<rparr>"

text \<open>What the tracker reports is what the client got.\<close>

definition tracker_ok :: "tracker \<Rightarrow> bool" where
  "tracker_ok t \<longleftrightarrow>
     t_bytes t = int (length (rw_body t)) \<and>
     filter final_code (rw_codes t) = (if t_status t = 0 then [] else [t_status t]) \<and>
     (t_status t = 0 \<longrightarrow> rw_body t = [])"

lemma final_0 [simp]: "\<not> final_code 0"
  by (simp add: final_code_def)

lemma list_ex_filter: "list_ex P xs \<longleftrightarrow> filter P xs \<noteq> []"
  by (auto simp: list_ex_iff filter_empty_conv)

lemma tracker_ok_new [simp]: "tracker_ok (newTracker room)"
  by (simp add: tracker_ok_def newTracker_def)

lemma tracker_ok_WriteHeader: "tracker_ok t \<Longrightarrow> tracker_ok (tracker_WriteHeader c t)"
  by (auto simp: tracker_ok_def tracker_WriteHeader_def under_writeHeader_def final_code_def)

lemma tracker_ok_Write: "tracker_ok t \<Longrightarrow> tracker_ok (snd (tracker_Write d t))"
  by (auto simp: tracker_ok_def tracker_Write_def under_write_def under_start_def
      under_writeHeader_def list_ex_filter final_code_def Let_def)

lemma tracker_ok_Flush: "tracker_ok t \<Longrightarrow> tracker_ok (tracker_Flush t)"
  by (auto simp: tracker_ok_def tracker_Flush_def under_start_def
      under_writeHeader_def list_ex_filter final_code_def)

lemma tracker_ok_header [simp]: "tracker_ok (t\<lparr>rw_header := h\<rparr>) = tracker_ok t"
  by (simp add: tracker_ok_def)

section \<open>Per-request metadata\<close>

record requestState =
  st_id :: string
  st_listener :: string
  st_site :: string
  st_route :: string
  st_clientIP :: "ipaddr option"
  st_trustedPeer :: bool
  st_rejectedBy :: string
  st_applied :: "string list"

definition markApplied :: "string \<Rightarrow> requestState \<Rightarrow> bool \<times> requestState" where
  "markApplied policy s =
     (if policy \<in> set (st_applied s) then (False, s)
      else (True, s\<lparr>st_applied := policy # st_applied s\<rparr>))"

record RequestInfo =
  ri_requestID :: string
  ri_listener :: string
  ri_site :: string
  ri_route :: string
  ri_clientIP :: string

section \<open>Handlers and middleware\<close>

datatype panic = AbortHandler | PanicValue string

datatype outcome = Returned | Panicked panic

record 'g exchange =
  x_tracker :: tracker
  x_state :: "requestState option"
  x_now :: int
  x_shared :: 'g

type_synonym 'g handler = "request \<Rightarrow> 'g exchange \<Rightarrow> outcome \<times> 'g exchange"
type_synonym 'g middleware = "'g handler \<Rightarrow> 'g handler"

definition Chain :: "'g handler \<Rightarrow> 'g middleware list \<Rightarrow> 'g handler" where
  "Chain handler middleware = foldr (\<lambda>m h. m h) middleware handler"

definition Info :: "'g exchange \<Rightarrow> RequestInfo" where
  "Info x = (case x_state x of
      None \<Rightarrow> \<lparr>ri_requestID = [], ri_listener = [], ri_site = [], ri_route = [], ri_clientIP = []\<rparr>
    | Some s \<Rightarrow> \<lparr>ri_requestID = st_id s, ri_listener = st_listener s, ri_site = st_site s,
                 ri_route = st_route s,
                 ri_clientIP = (case st_clientIP s of None \<Rightarrow> [] | Some a \<Rightarrow> addrString a)\<rparr>)"

definition on_state :: "(requestState \<Rightarrow> requestState) \<Rightarrow> 'g exchange \<Rightarrow> 'g exchange" where
  "on_state f x = x\<lparr>x_state := map_option f (x_state x)\<rparr>"

definition on_tracker :: "(tracker \<Rightarrow> tracker) \<Rightarrow> 'g exchange \<Rightarrow> 'g exchange" where
  "on_tracker f x = x\<lparr>x_tracker := f (x_tracker x)\<rparr>"

definition withSite :: "string \<Rightarrow> 'g middleware" where
  "withSite name next = (\<lambda>r x. next r (on_state (\<lambda>s. s\<lparr>st_site := name\<rparr>) x))"

definition withRoute :: "string \<Rightarrow> 'g middleware" where
  "withRoute name next = (\<lambda>r x. next r (on_state (\<lambda>s. s\<lparr>st_route := name\<rparr>) x))"

definition setHeader :: "string \<Rightarrow> string \<Rightarrow> 'g exchange \<Rightarrow> 'g exchange" where
  "setHeader n v = on_tracker (\<lambda>t. t\<lparr>rw_header := headerSet n v (rw_header t)\<rparr>)"

definition delHeader :: "string \<Rightarrow> 'g exchange \<Rightarrow> 'g exchange" where
  "delHeader n = on_tracker (\<lambda>t. t\<lparr>rw_header := headerDel n (rw_header t)\<rparr>)"

definition writeHeader :: "int \<Rightarrow> 'g exchange \<Rightarrow> 'g exchange" where
  "writeHeader c = on_tracker (tracker_WriteHeader c)"

definition writeBody :: "string \<Rightarrow> 'g exchange \<Rightarrow> 'g exchange" where
  "writeBody d = on_tracker (\<lambda>t. snd (tracker_Write d t))"

text \<open>\<open>http.Error\<close> and \<open>http.NotFound\<close>.\<close>

definition httpError :: "string \<Rightarrow> int \<Rightarrow> 'g exchange \<Rightarrow> 'g exchange" where
  "httpError message code x =
     writeBody (message @ [CHR 0x0A]) (writeHeader code
       (setHeader ''X-Content-Type-Options'' ''nosniff''
         (setHeader ''Content-Type'' ''text/plain; charset=utf-8'' (delHeader ''Content-Length'' x))))"

definition httpNotFound :: "'g handler" where
  "httpNotFound r x = (Returned, httpError ''404 page not found'' 404 x)"

definition reject :: "string \<Rightarrow> int \<Rightarrow> string \<Rightarrow> 'g exchange \<Rightarrow> 'g exchange" where
  "reject who status message x =
     httpError message status (on_state (\<lambda>s. s\<lparr>st_rejectedBy := who\<rparr>) x)"

section \<open>Handlers that only answer through the tracker\<close>

text \<open>
  The locale is the contract between the gateway and a handler it runs: the
  handler answers through the tracker's methods, so an exchange whose tracker
  is truthful stays so. It holds of the built-in handlers and is kept by every
  middleware of the gateway.
\<close>

definition exchange_ok :: "'g exchange \<Rightarrow> bool" where
  "exchange_ok x = tracker_ok (x_tracker x)"

locale honest_handler =
  fixes h :: "'g handler"
  assumes honest: "exchange_ok x \<Longrightarrow> exchange_ok (snd (h r x))"
begin

lemma honest_site: "exchange_ok x \<Longrightarrow> exchange_ok (snd (withSite name h r x))"
  by (simp add: withSite_def on_state_def exchange_ok_def honest [unfolded exchange_ok_def])

lemma honest_route: "exchange_ok x \<Longrightarrow> exchange_ok (snd (withRoute name h r x))"
  by (simp add: withRoute_def on_state_def exchange_ok_def honest [unfolded exchange_ok_def])

text \<open>The status a truthful tracker reports is the one final code the client got, if any.\<close>

lemma honest_status:
  assumes "exchange_ok x"
  shows "t_status (x_tracker (snd (h r x))) = 0 \<or>
    filter final_code (rw_codes (x_tracker (snd (h r x)))) = [t_status (x_tracker (snd (h r x)))]"
  using honest [OF assms, of r] by (auto simp: exchange_ok_def tracker_ok_def split: if_splits)

end

lemma exchange_ok_state [simp]: "exchange_ok (on_state f x) = exchange_ok x"
  by (simp add: exchange_ok_def on_state_def)

lemma exchange_ok_shared [simp]: "exchange_ok (x\<lparr>x_shared := g\<rparr>) = exchange_ok x"
  by (simp add: exchange_ok_def)

lemma exchange_ok_setHeader [simp]: "exchange_ok (setHeader n v x) = exchange_ok x"
  by (simp add: exchange_ok_def setHeader_def on_tracker_def)

lemma exchange_ok_delHeader [simp]: "exchange_ok (delHeader n x) = exchange_ok x"
  by (simp add: exchange_ok_def delHeader_def on_tracker_def)

lemma exchange_ok_writeHeader: "exchange_ok x \<Longrightarrow> exchange_ok (writeHeader c x)"
  by (simp add: exchange_ok_def writeHeader_def on_tracker_def tracker_ok_WriteHeader)

lemma exchange_ok_writeBody: "exchange_ok x \<Longrightarrow> exchange_ok (writeBody d x)"
  by (simp add: exchange_ok_def writeBody_def on_tracker_def tracker_ok_Write)

lemma exchange_ok_httpError: "exchange_ok x \<Longrightarrow> exchange_ok (httpError m c x)"
  by (simp add: httpError_def exchange_ok_writeBody exchange_ok_writeHeader)

lemma exchange_ok_reject: "exchange_ok x \<Longrightarrow> exchange_ok (reject b c m x)"
  by (simp add: reject_def exchange_ok_httpError)

interpretation notFound: honest_handler httpNotFound
  by unfold_locales (simp add: httpNotFound_def exchange_ok_httpError)

lemma on_tracker_fields [simp]:
  "x_state (on_tracker f x) = x_state x" "x_shared (on_tracker f x) = x_shared x"
  "x_now (on_tracker f x) = x_now x"
  by (simp_all add: on_tracker_def)

lemma on_state_fields [simp]:
  "x_tracker (on_state f x) = x_tracker x" "x_shared (on_state f x) = x_shared x"
  "x_now (on_state f x) = x_now x" "x_state (on_state f x) = map_option f (x_state x)"
  by (simp_all add: on_state_def)

lemma httpError_fields [simp]:
  "x_state (httpError m c x) = x_state x" "x_shared (httpError m c x) = x_shared x"
  by (simp_all add: httpError_def writeBody_def writeHeader_def setHeader_def delHeader_def)

lemma reject_fields [simp]:
  "x_state (reject b c m x) = map_option (\<lambda>s. s\<lparr>st_rejectedBy := b\<rparr>) (x_state x)"
  "x_shared (reject b c m x) = x_shared x"
  by (simp_all add: reject_def)

lemma httpError_status:
  "t_status (x_tracker x) = 0 \<Longrightarrow> 200 \<le> c \<Longrightarrow> t_status (x_tracker (httpError m c x)) = c"
  by (simp add: httpError_def writeBody_def writeHeader_def setHeader_def delHeader_def on_tracker_def
      tracker_Write_def tracker_WriteHeader_def under_writeHeader_def under_write_def under_start_def Let_def)

lemma reject_status:
  "t_status (x_tracker x) = 0 \<Longrightarrow> 200 \<le> c \<Longrightarrow> t_status (x_tracker (reject b c m x)) = c"
  by (simp add: reject_def httpError_status)

lemma Chain_Nil [simp]: "Chain h [] = h"
  by (simp add: Chain_def)

lemma Chain_Cons [simp]: "Chain h (m # ms) = m (Chain h ms)"
  by (simp add: Chain_def)

lemma Chain_append: "Chain h (ms @ ns) = Chain (Chain h ns) ms"
  by (simp add: Chain_def)

end
