(* ===== verification/Rate_Limiter.thy ===== *)
theory Rate_Limiter
  imports Config Http
begin

text \<open>
  The rate limiter of \<open>policy.go\<close>: token buckets per client in a map from keys
  to elements of a list kept in order of use, or one shared bucket. The token
  bucket itself is \<open>golang.org/x/time/rate\<close>, a parameter: \<open>new_limiter\<close> is
  \<open>rate.NewLimiter\<close>, \<open>allow_n\<close> is \<open>AllowN(now, 1)\<close> with the bucket after it.

  The linked list is a list of elements with their identities (what a
  \<open>*list.Element\<close> is), the front first; \<open>rl_clients\<close> maps a key to the identity
  of its element. \<open>rl_ok\<close> says that map and list stay in step, and
  \<open>rl_allow_refines\<close> that the pair implements a table of clients in order of
  use (\<open>lru_allow\<close>). A call holds the limiter's mutex throughout, so it is one
  step.
\<close>

section \<open>State\<close>

record 'l rate_ops =
  new_limiter :: "rat \<Rightarrow> int \<Rightarrow> 'l"
  allow_n :: "'l \<Rightarrow> int \<Rightarrow> bool \<times> 'l"

record 'l rateClient =
  rc_key :: string
  rc_limiter :: 'l
  rc_seen :: int

record 'l rateLimiter =
  rl_name :: string
  rl_limit :: rat
  rl_burst :: int
  rl_retryAfter :: string
  rl_global :: "'l option"
  rl_maxKeys :: int
  rl_idleTimeout :: duration
  rl_clients :: "(string, nat) gomap"
  rl_recent :: "(nat \<times> 'l rateClient) list"
  rl_nextElem :: nat

section \<open>Operations\<close>

definition defaultRateLimitMaxKeys :: int where
  "defaultRateLimitMaxKeys = 10000"

definition defaultRateLimitIdleTimeout :: duration where
  "defaultRateLimitIdleTimeout = 10 * minute"

definition newRateLimiter :: "'l rate_ops \<Rightarrow> string \<Rightarrow> RateLimitPolicy \<Rightarrow> 'l rateLimiter result" where
  "newRateLimiter ops name config =
     (if rp_requestsPerSecond config \<le> 0 \<or> rp_burst config \<le> 0
      then Inl (Errorf ''rate limit requests_per_second and burst must be positive'' [])
      else if rp_maxKeys config < 0 \<or> rp_idleTimeout config < 0
      then Inl (Errorf ''rate limit max_keys and idle_timeout cannot be negative'' [])
      else
        let l = \<lparr>rl_name = name, rl_limit = rp_requestsPerSecond config, rl_burst = rp_burst config,
                 rl_retryAfter = itoa (max 1 \<lceil>1 / rp_requestsPerSecond config\<rceil>),
                 rl_global = None,
                 rl_maxKeys = (if rp_maxKeys config = 0 then defaultRateLimitMaxKeys else rp_maxKeys config),
                 rl_idleTimeout = durationOr (rp_idleTimeout config) defaultRateLimitIdleTimeout,
                 rl_clients = [], rl_recent = [], rl_nextElem = 0\<rparr>;
            key = toLower (trimSpace (rp_key config))
        in if key = [] \<or> key = ''client_ip'' then Inr l
           else if key = ''global'' then
             Inr (l\<lparr>rl_global := Some (new_limiter ops (rp_requestsPerSecond config) (rp_burst config))\<rparr>)
           else Inl (Errorf ''unsupported rate limit key %q'' [rp_key config]))"

text \<open>\<open>remove\<close>: unlink an element and forget its client's key.\<close>

definition rl_remove :: "nat \<times> 'l rateClient \<Rightarrow> 'l rateLimiter \<Rightarrow> 'l rateLimiter" where
  "rl_remove e l =
     l\<lparr>rl_recent := filter (\<lambda>f. fst f \<noteq> fst e) (rl_recent l),
       rl_clients := mdel (rc_key (snd e)) (rl_clients l)\<rparr>"

text \<open>The loop that forgets idle clients, from the back of the list.\<close>

function rl_expire :: "int \<Rightarrow> 'l rateLimiter \<Rightarrow> 'l rateLimiter" where
  "rl_expire now l =
     (if rl_recent l = [] then l
      else let oldest = last (rl_recent l)
           in if now - rc_seen (snd oldest) < rl_idleTimeout l then l
              else rl_expire now (rl_remove oldest l))"
  by pat_completeness auto
termination
proof (relation "measure (\<lambda>(now, l). length (rl_recent l))")
  fix now :: int and l :: "'l rateLimiter" and x
  assume ne: "rl_recent l \<noteq> []" and x: "x = last (rl_recent l)"
  have "length (filter (\<lambda>f. fst f \<noteq> fst x) (rl_recent l)) < length (rl_recent l)"
    by (rule length_filter_less [of x]) (use ne x in auto)
  then show "((now, rl_remove x l), (now, l)) \<in> measure (\<lambda>(now, l). length (rl_recent l))"
    by (simp add: rl_remove_def)
qed simp

declare rl_expire.simps [simp del]

definition rl_find :: "nat \<Rightarrow> 'l rateLimiter \<Rightarrow> 'l rateClient option" where
  "rl_find i l = map_of (rl_recent l) i"

definition rl_allow :: "'l rate_ops \<Rightarrow> string \<Rightarrow> int \<Rightarrow> 'l rateLimiter \<Rightarrow> bool \<times> 'l rateLimiter" where
  "rl_allow ops key now l =
     (case rl_global l of
        Some g \<Rightarrow> (let (ok, g') = allow_n ops g now in (ok, l\<lparr>rl_global := Some g'\<rparr>))
      | None \<Rightarrow>
          let l1 = rl_expire now l;
              (i, client, l2) =
                (case mget (rl_clients l1) key of
                   Some i \<Rightarrow> (i, the (rl_find i l1),
                             l1\<lparr>rl_recent := filter (\<lambda>f. fst f \<noteq> i) (rl_recent l1)\<rparr>)
                 | None \<Rightarrow>
                     let l1' = (if rl_maxKeys l1 \<le> int (length (rl_recent l1))
                                then rl_remove (last (rl_recent l1)) l1 else l1);
                         i = rl_nextElem l1'
                     in (i, \<lparr>rc_key = key, rc_limiter = new_limiter ops (rl_limit l1') (rl_burst l1'), rc_seen = now\<rparr>,
                         l1'\<lparr>rl_clients := mput key i (rl_clients l1'), rl_nextElem := Suc i\<rparr>));
              (ok, lim) = allow_n ops (rc_limiter client) now
          in (ok, l2\<lparr>rl_recent := (i, client\<lparr>rc_seen := now, rc_limiter := lim\<rparr>) # rl_recent l2\<rparr>))"

text \<open>The key of a request: the client's address, IPv6 by its /64.\<close>

definition rateLimitKey :: "requestState option \<Rightarrow> string" where
  "rateLimitKey st =
     (case st of
        None \<Rightarrow> ''unknown''
      | Some s \<Rightarrow>
          (case st_clientIP s of
             None \<Rightarrow> ''unknown''
           | Some a \<Rightarrow> if is6 a then prefixString (masked (prefixFrom a 64)) else addrString a))"

section \<open>Invariant\<close>

definition rl_ok :: "'l rateLimiter \<Rightarrow> bool" where
  "rl_ok l \<longleftrightarrow>
     distinct (map fst (rl_recent l)) \<and>
     distinct (map (rc_key \<circ> snd) (rl_recent l)) \<and>
     distinct (mkeys (rl_clients l)) \<and>
     (\<forall>k i. mget (rl_clients l) k = Some i \<longleftrightarrow> (\<exists>c. (i, c) \<in> set (rl_recent l) \<and> rc_key c = k)) \<and>
     (\<forall>(i, c) \<in> set (rl_recent l). i < rl_nextElem l) \<and>
     int (length (rl_recent l)) \<le> rl_maxKeys l \<and> 0 < rl_maxKeys l \<and> 0 < rl_idleTimeout l \<and>
     0 < rl_burst l"

lemma rl_okD:
  assumes "rl_ok l"
  shows "distinct (map fst (rl_recent l))" "distinct (map (rc_key \<circ> snd) (rl_recent l))"
    "distinct (mkeys (rl_clients l))"
    "mget (rl_clients l) k = Some i \<longleftrightarrow> (\<exists>c. (i, c) \<in> set (rl_recent l) \<and> rc_key c = k)"
    "(i, c) \<in> set (rl_recent l) \<Longrightarrow> i < rl_nextElem l"
    "int (length (rl_recent l)) \<le> rl_maxKeys l" "0 < rl_maxKeys l" "0 < rl_idleTimeout l"
    "0 < rl_burst l"
  using assms by (auto simp: rl_ok_def)

lemma newRateLimiter_ok: "newRateLimiter ops name config = Inr l \<Longrightarrow> rl_ok l"
  by (auto simp: newRateLimiter_def Let_def rl_ok_def durationOr_def defaultRateLimitIdleTimeout_def
      defaultRateLimitMaxKeys_def split: if_splits)

lemma same_elem:
  assumes "rl_ok l" "(i, c) \<in> set (rl_recent l)" "(j, d) \<in> set (rl_recent l)"
  shows "i = j \<longleftrightarrow> rc_key c = rc_key d"
proof
  assume "i = j"
  then have "c = d"
    using assms rl_okD(1) [OF assms(1)] by (metis Some_eq_map_of_iff option.inject)
  then show "rc_key c = rc_key d" by simp
next
  assume "rc_key c = rc_key d"
  then have "mget (rl_clients l) (rc_key c) = Some i" "mget (rl_clients l) (rc_key c) = Some j"
    using assms(2,3) rl_okD(4) [OF assms(1)] by auto
  then show "i = j" by simp
qed

lemma rl_remove_ok:
  assumes ok: "rl_ok l" and e: "e \<in> set (rl_recent l)"
  shows "rl_ok (rl_remove e l)"
proof -
  obtain j d where jd: "e = (j, d)" by (cases e)
  have "mget (mdel (rc_key d) (rl_clients l)) k = Some i \<longleftrightarrow>
      (\<exists>c. (i, c) \<in> set (filter (\<lambda>f. fst f \<noteq> j) (rl_recent l)) \<and> rc_key c = k)" for k i
    using rl_okD(4) [OF ok, of k i] same_elem [OF ok _ e [unfolded jd], of i] by auto
  moreover have "int (length (filter (\<lambda>f. fst f \<noteq> j) (rl_recent l))) \<le> rl_maxKeys l"
    using rl_okD(6) [OF ok] length_filter_le [of "\<lambda>f. fst f \<noteq> j" "rl_recent l"] by linarith
  ultimately show ?thesis
    using ok by (simp add: rl_ok_def rl_remove_def jd distinct_map_filter)
qed

section \<open>Refinement: a table of clients in order of use\<close>

text \<open>
  The abstract table is the list of clients, the most recently seen first.
  Idle clients leave from the end; a known client moves to the front; a new
  one takes the place of the last when the table is full.
\<close>

definition lru_expire :: "duration \<Rightarrow> int \<Rightarrow> 'l rateClient list \<Rightarrow> 'l rateClient list" where
  "lru_expire idle now tab = rev (dropWhile (\<lambda>c. idle \<le> now - rc_seen c) (rev tab))"

definition lru_allow ::
  "'l rate_ops \<Rightarrow> rat \<Rightarrow> int \<Rightarrow> int \<Rightarrow> duration \<Rightarrow> string \<Rightarrow> int \<Rightarrow> 'l rateClient list
   \<Rightarrow> bool \<times> 'l rateClient list" where
  "lru_allow ops limit burst maxKeys idle key now tab =
     (let t = lru_expire idle now tab;
          (bucket, others) =
            (case find (\<lambda>c. rc_key c = key) t of
               Some c \<Rightarrow> (rc_limiter c, filter (\<lambda>c. rc_key c \<noteq> key) t)
             | None \<Rightarrow> (new_limiter ops limit burst, if maxKeys \<le> int (length t) then butlast t else t));
          (ok, bucket') = allow_n ops bucket now
      in (ok, \<lparr>rc_key = key, rc_limiter = bucket', rc_seen = now\<rparr> # others))"

definition rl_table :: "'l rateLimiter \<Rightarrow> 'l rateClient list" where
  "rl_table l = map snd (rl_recent l)"

lemma filter_last_id:
  assumes "rl_ok l" and "rl_recent l = es @ [e]"
  shows "filter (\<lambda>f. fst f \<noteq> fst e) (rl_recent l) = es"
  using rl_okD(1) [OF assms(1)] by (auto simp: assms(2) image_iff intro!: filter_True)

lemma rl_remove_last:
  assumes "rl_ok l" and "rl_recent l \<noteq> []"
  shows "rl_table (rl_remove (last (rl_recent l)) l) = butlast (rl_table l)"
    and "rl_ok (rl_remove (last (rl_recent l)) l)"
proof -
  obtain es e where es: "rl_recent l = es @ [e]"
    using assms(2) by (metis append_butlast_last_id)
  show "rl_table (rl_remove (last (rl_recent l)) l) = butlast (rl_table l)"
    using filter_last_id [OF assms(1) es] by (simp add: rl_table_def rl_remove_def es butlast_append)
  show "rl_ok (rl_remove (last (rl_recent l)) l)"
    by (rule rl_remove_ok) (use assms in auto)
qed

lemma rl_remove_fields [simp]:
  "rl_name (rl_remove e l) = rl_name l" "rl_limit (rl_remove e l) = rl_limit l"
  "rl_burst (rl_remove e l) = rl_burst l" "rl_global (rl_remove e l) = rl_global l"
  "rl_maxKeys (rl_remove e l) = rl_maxKeys l" "rl_idleTimeout (rl_remove e l) = rl_idleTimeout l"
  "rl_nextElem (rl_remove e l) = rl_nextElem l" "rl_retryAfter (rl_remove e l) = rl_retryAfter l"
  by (simp_all add: rl_remove_def)

lemma rl_expire_fields:
  "rl_name (rl_expire now l) = rl_name l \<and> rl_limit (rl_expire now l) = rl_limit l \<and>
   rl_burst (rl_expire now l) = rl_burst l \<and> rl_global (rl_expire now l) = rl_global l \<and>
   rl_maxKeys (rl_expire now l) = rl_maxKeys l \<and> rl_idleTimeout (rl_expire now l) = rl_idleTimeout l \<and>
   rl_nextElem (rl_expire now l) = rl_nextElem l \<and> rl_retryAfter (rl_expire now l) = rl_retryAfter l"
proof (induction now l rule: rl_expire.induct)
  case (1 now l)
  then show ?case by (subst (1 2 3 4 5 6 7 8) rl_expire.simps) (auto simp: Let_def)
qed

lemma rl_expire_spec:
  assumes "rl_ok l"
  shows "rl_ok (rl_expire now l) \<and> rl_table (rl_expire now l) = lru_expire (rl_idleTimeout l) now (rl_table l)"
  using assms
proof (induction now l rule: rl_expire.induct)
  case (1 now l)
  show ?case
  proof (cases "rl_recent l = []")
    case True
    then show ?thesis
      using "1.prems" by (simp add: rl_expire.simps [of now l] rl_table_def lru_expire_def)
  next
    case False
    then obtain es e where es: "rl_recent l = es @ [e]" by (metis append_butlast_last_id)
    show ?thesis
    proof (cases "now - rc_seen (snd e) < rl_idleTimeout l")
      case True
      then show ?thesis
        using "1.prems" es by (simp add: rl_expire.simps [of now l] rl_table_def lru_expire_def)
    next
      case idle: False
      have step: "rl_expire now l = rl_expire now (rl_remove (last (rl_recent l)) l)"
        using False idle es by (simp add: rl_expire.simps [of now l] Let_def)
      have "lru_expire (rl_idleTimeout l) now (butlast (rl_table l)) = lru_expire (rl_idleTimeout l) now (rl_table l)"
        using idle by (simp add: lru_expire_def rl_table_def es)
      then show ?thesis
        unfolding step
        using "1.IH" [OF False refl _ rl_remove_last(2) [OF "1.prems" False]] idle es
          rl_remove_last(1) [OF "1.prems" False] by simp
    qed
  qed
qed

lemma rl_touch_ok:
  assumes ok: "rl_ok l" and i: "mget (rl_clients l) key = Some i" and c: "rc_key c = key"
  shows "rl_ok (l\<lparr>rl_recent := (i, c) # filter (\<lambda>f. fst f \<noteq> i) (rl_recent l)\<rparr>)"
proof -
  obtain d where d: "(i, d) \<in> set (rl_recent l)" "rc_key d = key"
    using i rl_okD(4) [OF ok] by blast
  have same: "\<And>j e. (j, e) \<in> set (rl_recent l) \<Longrightarrow> j = i \<longleftrightarrow> rc_key e = key"
    using same_elem [OF ok _ d(1)] d(2) by simp
  have iff: "mget (rl_clients l) k = Some j \<longleftrightarrow>
      (\<exists>e. (j, e) \<in> set ((i, c) # filter (\<lambda>f. fst f \<noteq> i) (rl_recent l)) \<and> rc_key e = k)" for k j
  proof (cases "j = i")
    case True
    have "mget (rl_clients l) k = Some i \<longleftrightarrow> k = key"
      using rl_okD(4) [OF ok, of k i] same d by metis
    then show ?thesis using c True by auto
  next
    case False
    then show ?thesis using rl_okD(4) [OF ok, of k j] by auto
  qed
  have "length (filter (\<lambda>f. fst f \<noteq> i) (rl_recent l)) < length (rl_recent l)"
    by (rule length_filter_less [OF d(1)]) simp
  then have "int (Suc (length (filter (\<lambda>f. fst f \<noteq> i) (rl_recent l)))) \<le> rl_maxKeys l"
    using rl_okD(6) [OF ok] by linarith
  moreover have "key \<notin> (rc_key \<circ> snd) ` set (filter (\<lambda>f. fst f \<noteq> i) (rl_recent l))"
    using same by auto
  moreover have "i < rl_nextElem l" using rl_okD(5) [OF ok d(1)] .
  ultimately show ?thesis
    using ok iff c by (simp add: rl_ok_def distinct_map_filter) auto
qed

lemma rl_insert_ok:
  assumes ok: "rl_ok l" and fresh: "mget (rl_clients l) (rc_key c) = None"
    and room: "int (length (rl_recent l)) < rl_maxKeys l"
  shows "rl_ok (l\<lparr>rl_clients := mput (rc_key c) (rl_nextElem l) (rl_clients l), rl_nextElem := Suc (rl_nextElem l),
                  rl_recent := (rl_nextElem l, c) # rl_recent l\<rparr>)"
proof -
  have new: "(j, e) \<in> set (rl_recent l) \<Longrightarrow> j < rl_nextElem l \<and> rc_key e \<noteq> rc_key c" for j e
    using rl_okD(4) [OF ok, of "rc_key c" j] rl_okD(5) [OF ok] fresh by auto
  have "rl_nextElem l \<notin> fst ` set (rl_recent l)" "rc_key c \<notin> (rc_key \<circ> snd) ` set (rl_recent l)"
    using new by fastforce+
  moreover have "mget (mput (rc_key c) (rl_nextElem l) (rl_clients l)) k = Some j \<longleftrightarrow>
      (\<exists>e. (j, e) \<in> set ((rl_nextElem l, c) # rl_recent l) \<and> rc_key e = k)" for k j
    using rl_okD(4) [OF ok, of k j] new fresh by auto
  ultimately show ?thesis
    using ok room by (simp add: rl_ok_def) auto
qed

lemma table_filter:
  assumes "rl_ok l" and "mget (rl_clients l) key = Some i"
  shows "map snd (filter (\<lambda>f. fst f \<noteq> i) (rl_recent l)) = filter (\<lambda>c. rc_key c \<noteq> key) (rl_table l)"
proof -
  obtain d where d: "(i, d) \<in> set (rl_recent l)" "rc_key d = key"
    using assms(2) rl_okD(4) [OF assms(1)] by blast
  have "filter (\<lambda>f. fst f \<noteq> i) (rl_recent l) = filter (\<lambda>f. rc_key (snd f) \<noteq> key) (rl_recent l)"
    by (rule filter_cong) (use same_elem [OF assms(1) _ d(1)] d(2) in auto)
  then show ?thesis by (simp add: rl_table_def filter_map o_def)
qed

lemma table_find:
  assumes "rl_ok l"
  shows "find (\<lambda>c. rc_key c = key) (rl_table l) =
    (case mget (rl_clients l) key of None \<Rightarrow> None | Some i \<Rightarrow> rl_find i l)"
proof (cases "mget (rl_clients l) key")
  case None
  then have "\<forall>c \<in> set (rl_table l). rc_key c \<noteq> key"
    using rl_okD(4) [OF assms, of key] by (force simp: rl_table_def)
  then show ?thesis using None by (simp add: find_None_iff)
next
  case (Some i)
  then obtain d where d: "(i, d) \<in> set (rl_recent l)" "rc_key d = key"
    using rl_okD(4) [OF assms] by blast
  then have "rl_find i l = Some d"
    using rl_okD(1) [OF assms] by (simp add: rl_find_def)
  moreover have "find (\<lambda>c. rc_key c = key) (rl_table l) = Some d"
  proof -
    have uniq: "c = d" if c: "c \<in> set (rl_table l)" and k: "rc_key c = key" for c
    proof -
      obtain j where j: "(j, c) \<in> set (rl_recent l)" using c by (auto simp: rl_table_def)
      then have "j = i" using same_elem [OF assms j d(1)] k d(2) by simp
      then show "c = d" using j d(1) rl_okD(1) [OF assms] by (metis Some_eq_map_of_iff option.inject)
    qed
    have "d \<in> set (rl_table l)" using d(1) by (force simp: rl_table_def)
    then obtain e where e: "find (\<lambda>c. rc_key c = key) (rl_table l) = Some e"
      using d(2) by (cases "find (\<lambda>c. rc_key c = key) (rl_table l)") (auto simp: find_None_iff)
    then have "e \<in> set (rl_table l) \<and> rc_key e = key"
      by (auto simp: find_Some_iff)
    then show ?thesis using e uniq by simp
  qed
  ultimately show ?thesis using Some by simp
qed

lemma rl_allow_step:
  assumes ok: "rl_ok l" and local: "rl_global l = None"
  shows "rl_ok (snd (rl_allow ops key now l)) \<and>
    (fst (rl_allow ops key now l), rl_table (snd (rl_allow ops key now l))) =
      lru_allow ops (rl_limit l) (rl_burst l) (rl_maxKeys l) (rl_idleTimeout l) key now (rl_table l)"
proof -
  define m where "m = rl_expire now l"
  have m: "rl_ok m" "rl_table m = lru_expire (rl_idleTimeout l) now (rl_table l)"
    "rl_limit m = rl_limit l" "rl_burst m = rl_burst l" "rl_maxKeys m = rl_maxKeys l"
    using rl_expire_spec [OF ok, of now] rl_expire_fields [of now l] by (simp_all add: m_def)
  show ?thesis
  proof (cases "mget (rl_clients m) key")
    case (Some i)
    then obtain d where d: "(i, d) \<in> set (rl_recent m)" "rc_key d = key"
      using rl_okD(4) [OF m(1)] by blast
    have f: "rl_find i m = Some d" using d(1) rl_okD(1) [OF m(1)] by (simp add: rl_find_def)
    obtain b lim where a: "allow_n ops (rc_limiter d) now = (b, lim)" by fastforce
    have "rl_ok (m\<lparr>rl_recent := (i, d\<lparr>rc_seen := now, rc_limiter := lim\<rparr>) # filter (\<lambda>f. fst f \<noteq> i) (rl_recent m)\<rparr>)"
      by (rule rl_touch_ok [OF m(1) Some]) (simp add: d(2))
    moreover have "rl_table m = lru_expire (rl_idleTimeout l) now (rl_table l)" by (rule m(2))
    ultimately show ?thesis
      using table_filter [OF m(1) Some] table_find [OF m(1), of key] Some f a d(2)
      by (simp add: rl_allow_def local m_def [symmetric] Let_def lru_allow_def m(2) [symmetric] rl_table_def)
  next
    case None
    define n where "n = (if rl_maxKeys m \<le> int (length (rl_recent m)) then rl_remove (last (rl_recent m)) m else m)"
    have ne: "rl_recent m \<noteq> []" if "rl_maxKeys m \<le> int (length (rl_recent m))"
      using that rl_okD(7) [OF m(1)] by auto
    have lm: "length (rl_recent m) = length (rl_table m)" by (simp add: rl_table_def)
    have n: "rl_ok n" "rl_table n = (if rl_maxKeys l \<le> int (length (rl_table m)) then butlast (rl_table m) else rl_table m)"
      "rl_limit n = rl_limit l" "rl_burst n = rl_burst l" "rl_maxKeys n = rl_maxKeys l"
      using rl_remove_last [OF m(1) ne] m(1,3,4,5) lm by (auto simp: n_def)
    have fresh: "mget (rl_clients n) key = None"
      using None by (simp add: n_def rl_remove_def)
    have room: "int (length (rl_recent n)) < rl_maxKeys n"
    proof -
      have "length (rl_recent n) = length (rl_table n)" by (simp add: rl_table_def)
      then show ?thesis
        using n(2,5) m(5) lm rl_okD(6,7) [OF m(1)]
        by (cases "rl_maxKeys l \<le> int (length (rl_table m))") auto
    qed
    obtain b lim where a: "allow_n ops (new_limiter ops (rl_limit l) (rl_burst l)) now = (b, lim)" by fastforce
    define l' where "l' = n\<lparr>rl_clients := mput key (rl_nextElem n) (rl_clients n), rl_nextElem := Suc (rl_nextElem n),
        rl_recent := (rl_nextElem n, \<lparr>rc_key = key, rc_limiter = lim, rc_seen = now\<rparr>) # rl_recent n\<rparr>"
    have "rl_ok l'"
      using rl_insert_ok [OF n(1) _ room, of "\<lparr>rc_key = key, rc_limiter = lim, rc_seen = now\<rparr>"] fresh
      by (simp add: l'_def)
    moreover have "rl_allow ops key now l = (b, l')"
      using None a n(3,4) by (simp add: rl_allow_def local m_def [symmetric] n_def [symmetric] l'_def Let_def)
    moreover have "lru_allow ops (rl_limit l) (rl_burst l) (rl_maxKeys l) (rl_idleTimeout l) key now (rl_table l) =
        (b, \<lparr>rc_key = key, rc_limiter = lim, rc_seen = now\<rparr> # rl_table n)"
      using table_find [OF m(1), of key] None a by (simp add: lru_allow_def m(2) [symmetric] n(2) Let_def)
    ultimately show ?thesis by (simp add: rl_table_def l'_def)
  qed
qed

text \<open>C21: The rate limiter's map and linked list implement a table of clients in
  order of use: forgetting idle clients, finding or creating the caller's
  bucket, evicting the least recently seen client of a full table, and spending
  a token are exactly the steps of the list specification, the answer included,
  and map and list stay in step.\<close>

theorem rl_allow_refines:
  assumes "rl_ok l" and "rl_global l = None"
  shows "rl_ok (snd (rl_allow ops key now l)) \<and>
    (fst (rl_allow ops key now l), rl_table (snd (rl_allow ops key now l))) =
      lru_allow ops (rl_limit l) (rl_burst l) (rl_maxKeys l) (rl_idleTimeout l) key now (rl_table l)"
  using assms by (rule rl_allow_step)

lemma lru_expire_subset: "set (lru_expire idle now tab) \<subseteq> set tab"
  by (auto simp: lru_expire_def dest: set_dropWhileD)

lemma find_idle_table:
  "find (\<lambda>c. rc_key c = key) tab = None \<Longrightarrow> find (\<lambda>c. rc_key c = key) (lru_expire idle now tab) = None"
  using lru_expire_subset [of idle now tab] by (auto simp: find_None_iff)

lemma lru_expire_keeps:
  "c \<in> set tab \<Longrightarrow> now - rc_seen c < idle \<Longrightarrow> c \<in> set (lru_expire idle now tab)"
proof -
  assume c: "c \<in> set tab" and active: "now - rc_seen c < idle"
  have "c \<in> set (dropWhile (\<lambda>c. idle \<le> now - rc_seen c) (rev tab))"
    using set_takeWhileD [of c "\<lambda>c. idle \<le> now - rc_seen c" "rev tab"] c active
    by (metis (mono_tags, lifting) Un_iff not_le set_append set_rev takeWhile_dropWhile_id)
  then show ?thesis by (simp add: lru_expire_def)
qed

lemma lru_expire_length: "length (lru_expire idle now tab) \<le> length tab"
  by (simp add: lru_expire_def) (metis length_dropWhile_le length_rev)

lemma lru_allow_others:
  "c \<in> set (snd (lru_allow ops limit burst maxKeys idle key now tab)) \<Longrightarrow> rc_key c \<noteq> key \<Longrightarrow> c \<in> set tab"
  using lru_expire_subset [of idle now tab]
  by (auto simp: lru_allow_def Let_def split: option.splits prod.splits if_splits dest!: in_set_butlastD)

lemma lru_allow_keeps:
  assumes "c \<in> set tab" "rc_key c \<noteq> key" "now - rc_seen c < idle"
    and "int (length tab) < maxKeys \<or> find (\<lambda>c. rc_key c = key) (lru_expire idle now tab) \<noteq> None"
  shows "c \<in> set (snd (lru_allow ops limit burst maxKeys idle key now tab))"
  using lru_expire_keeps [OF assms(1,3)] assms(2,4) lru_expire_length [of idle now tab]
  by (auto simp: lru_allow_def Let_def split: option.splits prod.splits)

text \<open>
  The contract of a limiter that keeps a bucket per key: a bounded table in
  which a call changes the caller's entry only, and takes other entries out only
  when they are idle or the table is full.
\<close>

locale keyed_limiter =
  fixes allow :: "string \<Rightarrow> int \<Rightarrow> 's \<Rightarrow> bool \<times> 's"
    and table :: "'s \<Rightarrow> 'l rateClient list"
    and capacity :: "'s \<Rightarrow> int"
    and ok :: "'s \<Rightarrow> bool"
  assumes ok_allow: "ok s \<Longrightarrow> ok (snd (allow key now s))"
    and capacity_allow: "capacity (snd (allow key now s)) = capacity s"
    and bounded: "ok s \<Longrightarrow> int (length (table s)) \<le> capacity s"
    and unique: "ok s \<Longrightarrow> distinct (map rc_key (table s))"
    and others: "ok s \<Longrightarrow> c \<in> set (table (snd (allow key now s))) \<Longrightarrow> rc_key c \<noteq> key \<Longrightarrow> c \<in> set (table s)"
begin

lemma run_ok:
  "ok s \<Longrightarrow> ok (fold (\<lambda>(key, now) s. snd (allow key now s)) evs s) \<and>
            capacity (fold (\<lambda>(key, now) s. snd (allow key now s)) evs s) = capacity s"
  by (induction evs arbitrary: s) (auto simp: ok_allow capacity_allow)

lemma run_bounded:
  "ok s \<Longrightarrow> int (length (table (fold (\<lambda>(key, now) s. snd (allow key now s)) evs s))) \<le> capacity s"
  using bounded run_ok by metis

lemma run_others:
  assumes "ok s" and "key \<notin> fst ` set evs"
    and "c \<in> set (table (fold (\<lambda>(key, now) s. snd (allow key now s)) evs s))" and "rc_key c = key"
  shows "c \<in> set (table s)"
  using assms
proof (induction evs arbitrary: s)
  case (Cons e evs)
  obtain k t where e: "e = (k, t)" by (cases e)
  have "c \<in> set (table (snd (allow k t s)))"
    using Cons.IH [of "snd (allow k t s)"] Cons.prems ok_allow e by auto
  then show ?case using others Cons.prems(1,2,4) e by auto
qed simp

end

lemma rl_allow_fields:
  "rl_global l = None \<Longrightarrow> rl_global (snd (rl_allow ops key now l)) = None \<and>
   rl_maxKeys (snd (rl_allow ops key now l)) = rl_maxKeys l \<and>
   rl_idleTimeout (snd (rl_allow ops key now l)) = rl_idleTimeout l \<and>
   rl_limit (snd (rl_allow ops key now l)) = rl_limit l \<and>
   rl_burst (snd (rl_allow ops key now l)) = rl_burst l"
  using rl_expire_fields [of now l]
  by (auto simp: rl_allow_def Let_def split: option.splits prod.splits)

lemma rl_ok_global: "rl_ok l \<Longrightarrow> rl_ok (l\<lparr>rl_global := g\<rparr>)"
  by (simp add: rl_ok_def)

definition client_keyed :: "'l rateLimiter \<Rightarrow> bool" where
  "client_keyed l \<longleftrightarrow> rl_ok l \<and> rl_global l = None"

lemma rl_allow_refines_keyed:
  assumes "client_keyed l"
  shows "rl_ok (snd (rl_allow ops key now l))"
    and "fst (rl_allow ops key now l) = fst (lru_allow ops (rl_limit l) (rl_burst l) (rl_maxKeys l) (rl_idleTimeout l) key now (rl_table l))"
    and "rl_table (snd (rl_allow ops key now l)) = snd (lru_allow ops (rl_limit l) (rl_burst l) (rl_maxKeys l) (rl_idleTimeout l) key now (rl_table l))"
  using rl_allow_step [of l ops key now] assms
  by (metis client_keyed_def fst_conv snd_conv)+

interpretation kl: keyed_limiter "rl_allow ops" rl_table rl_maxKeys client_keyed
  for ops :: "'l rate_ops"
proof unfold_locales
  fix s :: "'l rateLimiter" and key now and c :: "'l rateClient"
  show "client_keyed s \<Longrightarrow> client_keyed (snd (rl_allow ops key now s))"
    using rl_allow_refines_keyed(1) [of s ops key now] rl_allow_fields [of s ops key now]
    by (simp add: client_keyed_def)
  show "rl_maxKeys (snd (rl_allow ops key now s)) = rl_maxKeys s"
    using rl_allow_fields [of s ops key now]
    by (cases "rl_global s") (auto simp: rl_allow_def split: prod.splits)
  show "client_keyed s \<Longrightarrow> int (length (rl_table s)) \<le> rl_maxKeys s"
    by (simp add: client_keyed_def rl_ok_def rl_table_def)
  show "client_keyed s \<Longrightarrow> distinct (map rc_key (rl_table s))"
    by (simp add: client_keyed_def rl_ok_def rl_table_def)
  show "client_keyed s \<Longrightarrow> c \<in> set (rl_table (snd (rl_allow ops key now s))) \<Longrightarrow> rc_key c \<noteq> key \<Longrightarrow> c \<in> set (rl_table s)"
    using lru_allow_others by (simp add: rl_allow_refines_keyed(3))
qed

section \<open>What the limiter promises\<close>

text \<open>
  A token bucket as the \<open>rate\<close> package documents it, for the witnesses: it holds
  at most \<open>burst\<close> tokens, starts full, gains \<open>rate\<close> tokens per second, and an
  event takes one token or is refused.
\<close>

definition bucket_ops :: "(rat \<times> int \<times> rat \<times> int option) rate_ops" where
  "bucket_ops = \<lparr>new_limiter = (\<lambda>rate burst. (rate, burst, of_int burst, None)),
     allow_n = (\<lambda>(rate, burst, tokens, last_event) now.
       let gained = (case last_event of None \<Rightarrow> 0 | Some t \<Rightarrow> rate * of_int (max 0 (now - t)) / 1000000000);
           available = min (of_int burst) (tokens + gained)
       in if 1 \<le> available then (True, (rate, burst, available - 1, Some now))
          else (False, (rate, burst, available, Some now)))\<rparr>"

definition sample_limit :: RateLimitPolicy where
  "sample_limit = \<lparr>rp_requestsPerSecond = 1, rp_burst = 1, rp_key = [], rp_maxKeys = 2, rp_idleTimeout = 0\<rparr>"

definition sample_limiter :: "(rat \<times> int \<times> rat \<times> int option) rateLimiter" where
  "sample_limiter = \<lparr>rl_name = ''api'', rl_limit = 1, rl_burst = 1, rl_retryAfter = ''1'', rl_global = None,
     rl_maxKeys = 2, rl_idleTimeout = 600000000000, rl_clients = [], rl_recent = [], rl_nextElem = 0\<rparr>"

lemma sample_limiter_new: "newRateLimiter bucket_ops ''api'' sample_limit = Inr sample_limiter"
  by code_simp

lemma sample_limiter_keyed: "client_keyed sample_limiter"
  using newRateLimiter_ok [OF sample_limiter_new] by (simp add: client_keyed_def sample_limiter_def)

lemma rl_table_Nil_sample [simp]: "rl_table sample_limiter = []"
  by (simp add: rl_table_def sample_limiter_def)

theorem rl_allow_refines_witness:
  "rl_ok (snd (rl_allow bucket_ops ''k'' 5 sample_limiter)) \<and>
   fst (lru_allow bucket_ops 1 1 2 600000000000 ''k'' 5 (rl_table sample_limiter)) = fst (rl_allow bucket_ops ''k'' 5 sample_limiter)"
  using rl_allow_refines [of sample_limiter bucket_ops "''k''" 5] sample_limiter_keyed
  by (simp add: client_keyed_def sample_limiter_def) (metis fst_conv)

text \<open>One client's requests never touch another client's bucket: after a call
  for a key, every other client still tracked has exactly the bucket and the
  last-seen time it had, and an active client can only have left because the
  call needed room for a new client in a full table.\<close>

theorem rl_allow_isolates:
  assumes "client_keyed l" and "rc_key c \<noteq> key"
  shows "(c \<in> set (rl_table (snd (rl_allow ops key now l))) \<longrightarrow> c \<in> set (rl_table l)) \<and>
    (c \<in> set (rl_table l) \<and> now - rc_seen c < rl_idleTimeout l \<and> int (length (rl_table l)) < rl_maxKeys l
       \<longrightarrow> c \<in> set (rl_table (snd (rl_allow ops key now l))))"
  using kl.others [OF assms(1) _ assms(2)] lru_allow_keeps [OF _ assms(2)]
  by (auto simp: rl_allow_refines_keyed(3) [OF assms(1)])

theorem rl_allow_isolates_witness:
  "let l = snd (rl_allow bucket_ops ''a'' 0 sample_limiter); c = hd (rl_table l)
   in rl_table l = [c] \<and> c \<in> set (rl_table (snd (rl_allow bucket_ops ''b'' 7 l)))"
proof -
  let ?l = "snd (rl_allow bucket_ops ''a'' 0 sample_limiter)"
  let ?c = "\<lparr>rc_key = ''a'', rc_limiter = (1, 1, 0, Some 0), rc_seen = 0\<rparr>"
  have t: "rl_table ?l = [?c]" by code_simp
  have m: "rl_idleTimeout ?l = 600000000000" "rl_maxKeys ?l = 2" by code_simp+
  have "?c \<in> set (rl_table (snd (rl_allow bucket_ops ''b'' 7 ?l)))"
    using rl_allow_isolates [where l = ?l and c = ?c and key = "''b''" and ops = bucket_ops and now = 7]
      kl.ok_allow [OF sample_limiter_keyed] t m
    by simp
  then show ?thesis by (simp add: t Let_def)
qed

text \<open>A full table never locks new clients out: if a fresh token bucket admits
  its first event (as the rate package documents for a positive burst), a client
  the limiter does not track is admitted, however full the table is and whatever
  the other clients did.\<close>

theorem rl_allow_admits_new:
  assumes fresh: "\<And>limit burst t. 0 < burst \<Longrightarrow> fst (allow_n ops (new_limiter ops limit burst) t)"
    and "client_keyed l" and "key \<notin> set (map rc_key (rl_table l))"
  shows "fst (rl_allow ops key now l)"
proof -
  have "find (\<lambda>c. rc_key c = key) (rl_table l) = None"
    using assms(3) by (auto simp: find_None_iff)
  then have "find (\<lambda>c. rc_key c = key) (lru_expire (rl_idleTimeout l) now (rl_table l)) = None"
    by (rule find_idle_table)
  moreover have "0 < rl_burst l" using assms(2) by (simp add: client_keyed_def rl_ok_def)
  ultimately show ?thesis
    using fresh [of "rl_burst l" "rl_limit l" now]
    by (cases "allow_n ops (new_limiter ops (rl_limit l) (rl_burst l)) now")
      (simp add: rl_allow_refines_keyed(2) [OF assms(2)] lru_allow_def Let_def)
qed

theorem rl_allow_admits_new_witness:
  "let l = snd (rl_allow bucket_ops ''b'' 1 (snd (rl_allow bucket_ops ''a'' 0 sample_limiter)))
   in rl_maxKeys l = int (length (rl_table l)) \<and> fst (rl_allow bucket_ops ''c'' 2 l)"
proof -
  let ?l = "snd (rl_allow bucket_ops ''b'' 1 (snd (rl_allow bucket_ops ''a'' 0 sample_limiter)))"
  have k: "client_keyed ?l" by (intro kl.ok_allow sample_limiter_keyed)
  have t: "map rc_key (rl_table ?l) = [''b'', ''a'']" by code_simp
  have "fst (rl_allow bucket_ops ''c'' 2 ?l)"
    by (rule rl_allow_admits_new [OF _ k]) (use t in \<open>auto simp: bucket_ops_def Let_def\<close>)
  moreover have "rl_maxKeys ?l = 2" by code_simp
  moreover have "length (rl_table ?l) = 2" using t by (metis length_map length_Cons list.size(3) numeral_2_eq_2)
  ultimately show ?thesis by (simp add: Let_def)
qed

text \<open>C38: Whatever sequence of requests a limiter has served since it was made, its
  table holds at most max_keys clients (10000 when unset), each key once, and
  a client that has sent nothing has no entry.\<close>

theorem rl_reachable_bounded:
  assumes "newRateLimiter ops name config = Inr l" and "rl_global l = None"
  defines "l' evs \<equiv> fold (\<lambda>(key, now) s. snd (rl_allow ops key now s)) evs l"
  shows "int (length (rl_table (l' evs))) \<le>
           (if rp_maxKeys config = 0 then defaultRateLimitMaxKeys else rp_maxKeys config) \<and>
         distinct (map rc_key (rl_table (l' evs))) \<and>
         set (map rc_key (rl_table (l' evs))) \<subseteq> fst ` set evs"
proof (intro conjI subsetI)
  have k: "client_keyed l"
    using newRateLimiter_ok [OF assms(1)] assms(2) by (simp add: client_keyed_def)
  have c: "rl_maxKeys l = (if rp_maxKeys config = 0 then defaultRateLimitMaxKeys else rp_maxKeys config)"
    and e: "rl_table l = []"
    using assms(1) by (auto simp: newRateLimiter_def Let_def rl_table_def split: if_splits)
  show "int (length (rl_table (l' evs))) \<le>
      (if rp_maxKeys config = 0 then defaultRateLimitMaxKeys else rp_maxKeys config)"
    using kl.run_bounded [OF k, of ops evs] by (simp add: l'_def c)
  show "distinct (map rc_key (rl_table (l' evs)))"
    unfolding l'_def using kl.run_ok [OF k, of ops evs] by (intro kl.unique) simp
  fix key
  assume "key \<in> set (map rc_key (rl_table (l' evs)))"
  then obtain c where "c \<in> set (rl_table (l' evs))" "rc_key c = key" by auto
  then show "key \<in> fst ` set evs"
    using kl.run_others [OF k, of key evs c ops] e by (auto simp: l'_def)
qed

theorem rl_reachable_bounded_witness:
  "int (length (rl_table (fold (\<lambda>(key, now) s. snd (rl_allow bucket_ops key now s))
     [(''a'', 0), (''b'', 1), (''c'', 2)] sample_limiter))) \<le> 2"
  using rl_reachable_bounded [OF sample_limiter_new, of "[(''a'', 0), (''b'', 1), (''c'', 2)]"]
  by (simp add: sample_limiter_def sample_limit_def)

end
