(* ===== verification/Policy.thy ===== *)
theory Policy
  imports Rate_Limiter
begin

text \<open>
  \<open>policy.go\<close>: compiling policies into middleware, the four middleware
  constructors, and applying policies to handlers.

  The Go middleware closures share mutable objects (a limiter, a channel of
  slots) with every handler they wrap. These live in the store \<open>gateway\<close>, a part
  of the exchange, under references that compiling a policy allocates; a
  policy reused from the previous snapshot keeps its references, and so its
  state. The number of slots in use is the number of values in the channel.
\<close>

section \<open>The store\<close>

record 'l gateway =
  gw_limiters :: "(nat, 'l rateLimiter) gomap"
  gw_slots :: "(nat, nat) gomap"
  gw_next :: nat

definition empty_gateway :: "'l gateway" where
  "empty_gateway = \<lparr>gw_limiters = [], gw_slots = [], gw_next = 0\<rparr>"

definition on_gateway :: "('l gateway \<Rightarrow> 'l gateway) \<Rightarrow> 'l gateway exchange \<Rightarrow> 'l gateway exchange" where
  "on_gateway f x = x\<lparr>x_shared := f (x_shared x)\<rparr>"

record 'g compiledPolicy =
  cp_definition :: Policy
  cp_middleware :: "'g middleware list"

section \<open>Middleware\<close>

definition timeoutMiddleware :: "duration \<Rightarrow> 'l gateway middleware" where
  "timeoutMiddleware timeout next = (\<lambda>r x.
     next (r\<lparr>r_deadline := Some (case r_deadline r of None \<Rightarrow> x_now x + timeout
                                  | Some d \<Rightarrow> min d (x_now x + timeout))\<rparr>) x)"

definition bodyLimitMiddleware :: "string \<Rightarrow> int \<Rightarrow> 'l gateway middleware" where
  "bodyLimitMiddleware policy limit next = (\<lambda>r x.
     if limit < r_contentLength r
     then (Returned, reject (policy @ '':body'') 413 ''request body too large'' x)
     else next (r\<lparr>r_bodyLimit := Some (case r_bodyLimit r of None \<Rightarrow> limit | Some l \<Rightarrow> min l limit)\<rparr>) x)"

definition slots_used :: "nat \<Rightarrow> 'l gateway \<Rightarrow> nat" where
  "slots_used ref g = (case mget (gw_slots g) ref of None \<Rightarrow> 0 | Some n \<Rightarrow> n)"

definition set_slots :: "nat \<Rightarrow> nat \<Rightarrow> 'l gateway \<Rightarrow> 'l gateway" where
  "set_slots ref n g = g\<lparr>gw_slots := mput ref n (gw_slots g)\<rparr>"

text \<open>The send on the channel in a \<open>select\<close> with a default, and the deferred receive.\<close>

definition slot_acquire :: "int \<Rightarrow> nat \<Rightarrow> 'l gateway \<Rightarrow> 'l gateway option" where
  "slot_acquire limit ref g =
     (if int (slots_used ref g) < limit then Some (set_slots ref (slots_used ref g + 1) g) else None)"

definition slot_release :: "nat \<Rightarrow> 'l gateway \<Rightarrow> 'l gateway" where
  "slot_release ref g = set_slots ref (slots_used ref g - 1) g"

definition concurrencyMiddleware :: "string \<Rightarrow> int \<Rightarrow> nat \<Rightarrow> 'l gateway middleware" where
  "concurrencyMiddleware policy limit ref next = (\<lambda>r x.
     case slot_acquire limit ref (x_shared x) of
       Some g \<Rightarrow> (let (out, x') = next r (x\<lparr>x_shared := g\<rparr>) in (out, on_gateway (slot_release ref) x'))
     | None \<Rightarrow> (Returned, reject (policy @ '':concurrency'') 503 ''too many concurrent requests''
                           (setHeader ''Retry-After'' ''1'' x)))"

definition rateMiddleware :: "'l rate_ops \<Rightarrow> nat \<Rightarrow> 'l gateway middleware" where
  "rateMiddleware ops ref next = (\<lambda>r x.
     case mget (gw_limiters (x_shared x)) ref of
       None \<Rightarrow> (Panicked (PanicValue ''nil pointer dereference''), x)
     | Some l \<Rightarrow>
         (let (ok, l') = rl_allow ops (rateLimitKey (x_state x)) (x_now x) l;
              x' = on_gateway (\<lambda>g. g\<lparr>gw_limiters := mput ref l' (gw_limiters g)\<rparr>) x
          in if \<not> ok
             then (Returned, reject (rl_name l @ '':rate'') 429 ''rate limit exceeded''
                               (setHeader ''Retry-After'' (rl_retryAfter l) x'))
             else next r x'))"

section \<open>Compiling policies\<close>

text \<open>The three parts of \<open>compilePolicy\<close>, one per kind of limit.\<close>

definition compileRequest :: "Policy \<Rightarrow> 'l gateway middleware list result" where
  "compileRequest policy =
     (case p_request policy of
        None \<Rightarrow> Inr []
      | Some config \<Rightarrow>
          if rq_maxBodyBytes config < 0 \<or> rq_timeout config < 0
          then Inl (Errorf ''request limits cannot be negative'' [])
          else if rq_maxBodyBytes config = 0 \<and> rq_timeout config = 0
          then Inl (Errorf ''request policy sets no limit'' [])
          else Inr ((if 0 < rq_timeout config then [timeoutMiddleware (rq_timeout config)] else []) @
                    (if 0 < rq_maxBodyBytes config
                     then [bodyLimitMiddleware (p_name policy) (rq_maxBodyBytes config)] else [])))"

definition compileRateLimit ::
  "'l rate_ops \<Rightarrow> Policy \<Rightarrow> 'l gateway \<Rightarrow> ('l gateway middleware list \<times> 'l gateway) result" where
  "compileRateLimit ops policy gw =
     (case p_rateLimit policy of
        None \<Rightarrow> Inr ([], gw)
      | Some config \<Rightarrow>
          rbind (newRateLimiter ops (p_name policy) config) (\<lambda>limiter.
            Inr ([rateMiddleware ops (gw_next gw)],
                 gw\<lparr>gw_limiters := mput (gw_next gw) limiter (gw_limiters gw), gw_next := Suc (gw_next gw)\<rparr>)))"

definition compileConcurrency ::
  "Policy \<Rightarrow> 'l gateway \<Rightarrow> ('l gateway middleware list \<times> 'l gateway) result" where
  "compileConcurrency policy gw =
     (case p_concurrency policy of
        None \<Rightarrow> Inr ([], gw)
      | Some config \<Rightarrow>
          if cp_max config \<le> 0 then Inl (Errorf ''concurrency max must be positive'' [])
          else Inr ([concurrencyMiddleware (p_name policy) (cp_max config) (gw_next gw)],
                    gw\<lparr>gw_slots := mput (gw_next gw) 0 (gw_slots gw), gw_next := Suc (gw_next gw)\<rparr>))"

definition compilePolicy ::
  "'l rate_ops \<Rightarrow> Policy \<Rightarrow> 'l gateway \<Rightarrow> ('l gateway compiledPolicy \<times> 'l gateway) result" where
  "compilePolicy ops policy gw =
     rbind (compileRequest policy) (\<lambda>m1.
     rbind (compileRateLimit ops policy gw) (\<lambda>(m2, gw1).
     rbind (compileConcurrency policy gw1) (\<lambda>(m3, gw2).
       if m1 @ m2 @ m3 = [] then Inl (Errorf ''policy has no limits'' [])
       else Inr (\<lparr>cp_definition = policy, cp_middleware = m1 @ m2 @ m3\<rparr>, gw2))))"

type_synonym 'l policies = "(string, 'l gateway compiledPolicy) gomap"

definition compilePolicies_step ::
  "'l rate_ops \<Rightarrow> 'l policies \<Rightarrow> Policy \<Rightarrow> 'l policies \<times> 'l gateway \<Rightarrow> ('l policies \<times> 'l gateway) result" where
  "compilePolicies_step ops prev policy s =
     (let (res, gw) = s in
      if p_name policy = [] then Inl (Errorf ''policy name is required'' [])
      else if mhas res (p_name policy) then Inl (Errorf ''duplicate policy name %q'' [p_name policy])
      else case mget prev (p_name policy) of
        Some existing \<Rightarrow>
          if cp_definition existing = policy then Inr (mput (p_name policy) existing res, gw)
          else rbind (wrap_err (Wrapf ''policy %q: %w'' [p_name policy]) (compilePolicy ops policy gw))
                 (\<lambda>(compiled, gw'). Inr (mput (p_name policy) compiled res, gw'))
      | None \<Rightarrow>
          rbind (wrap_err (Wrapf ''policy %q: %w'' [p_name policy]) (compilePolicy ops policy gw))
            (\<lambda>(compiled, gw'). Inr (mput (p_name policy) compiled res, gw')))"

definition compilePolicies ::
  "'l rate_ops \<Rightarrow> Policy list \<Rightarrow> 'l policies \<Rightarrow> 'l gateway \<Rightarrow> ('l policies \<times> 'l gateway) result" where
  "compilePolicies ops input prev gw = rfold (compilePolicies_step ops prev) input ([], gw)"

section \<open>Applying policies\<close>

definition wrap :: "'g compiledPolicy \<Rightarrow> 'g middleware" where
  "wrap p next =
     (let wrapped = Chain next (cp_middleware p); name = p_name (cp_definition p)
      in (\<lambda>r x.
        case x_state x of
          None \<Rightarrow> wrapped r x
        | Some s \<Rightarrow>
            (let (fresh, s') = markApplied name s
             in if fresh then wrapped r (x\<lparr>x_state := Some s'\<rparr>) else next r x)))"

lemma wrap_stateless: "x_state x = None \<Longrightarrow> wrap p h r x = Chain h (cp_middleware p) r x"
  by (simp add: wrap_def Let_def)

lemma wrap_again:
  "x_state x = Some s \<Longrightarrow> p_name (cp_definition p) \<in> set (st_applied s) \<Longrightarrow> wrap p h r x = h r x"
  by (simp add: wrap_def markApplied_def Let_def)

lemma wrap_first:
  "x_state x = Some s \<Longrightarrow> p_name (cp_definition p) \<notin> set (st_applied s) \<Longrightarrow>
   wrap p h r x = Chain h (cp_middleware p) r
     (x\<lparr>x_state := Some (s\<lparr>st_applied := p_name (cp_definition p) # st_applied s\<rparr>)\<rparr>)"
  by (simp add: wrap_def markApplied_def Let_def)

fun applyPolicies_rev :: "'g handler \<Rightarrow> string list \<Rightarrow> (string, 'g compiledPolicy) gomap \<Rightarrow> 'g handler result" where
  "applyPolicies_rev handler [] policies = Inr handler"
| "applyPolicies_rev handler (name # names) policies =
     (case mget policies name of
        None \<Rightarrow> Inl (Errorf ''unknown policy %q'' [name])
      | Some policy \<Rightarrow> applyPolicies_rev (wrap policy handler) names policies)"

text \<open>The loop runs over the names from the last to the first.\<close>

definition applyPolicies :: "'g handler \<Rightarrow> string list \<Rightarrow> (string, 'g compiledPolicy) gomap \<Rightarrow> 'g handler result" where
  "applyPolicies handler names policies = applyPolicies_rev handler (rev names) policies"

lemma applyPolicies_rev_Inr:
  "applyPolicies_rev h names ps = Inr h' \<longleftrightarrow>
     (\<forall>n \<in> set names. mget ps n \<noteq> None) \<and> h' = Chain h (map (\<lambda>n. wrap (the (mget ps n))) (rev names))"
  by (induction names arbitrary: h) (auto simp: Chain_append split: option.splits)

lemma applyPolicies_Inr:
  "applyPolicies h names ps = Inr h' \<longleftrightarrow>
     (\<forall>n \<in> set names. mget ps n \<noteq> None) \<and> h' = Chain h (map (\<lambda>n. wrap (the (mget ps n))) names)"
  by (simp add: applyPolicies_def applyPolicies_rev_Inr)

lemma applyPolicies_rev_Inl:
  "applyPolicies_rev h names ps = Inl e \<Longrightarrow> \<exists>n \<in> set names. mget ps n = None \<and> e = Errorf ''unknown policy %q'' [n]"
  by (induction names arbitrary: h) (auto split: option.splits)

section \<open>Scoped middleware\<close>

text \<open>
  Two handlers agree after the policies \<open>N\<close> when no request that passed exactly
  these policies can tell them apart. A middleware is scoped when it passes the
  request's metadata on to the next handler with the policies it came with, so
  agreement of the next handlers carries over.
\<close>

definition passed :: "string set \<Rightarrow> 'g exchange \<Rightarrow> bool" where
  "passed N x \<longleftrightarrow> (\<exists>s. x_state x = Some s \<and> set (st_applied s) = N)"

definition agree :: "string set \<Rightarrow> 'g handler \<Rightarrow> 'g handler \<Rightarrow> bool" where
  "agree N h1 h2 \<longleftrightarrow> (\<forall>r x. passed N x \<longrightarrow> h1 r x = h2 r x)"

lemma agreeD: "agree N h1 h2 \<Longrightarrow> passed N x \<Longrightarrow> h1 r x = h2 r x"
  by (simp add: agree_def)

lemma agree_refl [simp]: "agree N h h"
  by (simp add: agree_def)

lemma agree_trans: "agree N a b \<Longrightarrow> agree N b c \<Longrightarrow> agree N a c"
  by (simp add: agree_def)

locale scoped_middleware =
  fixes m :: "'g middleware"
  assumes scoped: "agree N h1 h2 \<Longrightarrow> agree N (m h1) (m h2)"

lemma passed_state_only: "x_state y = x_state x \<Longrightarrow> passed N y = passed N x"
  by (simp add: passed_def)

lemma passed_setHeader [simp]: "passed N (setHeader n v x) = passed N x"
  by (simp add: passed_def setHeader_def)

lemma passed_on_gateway [simp]: "passed N (on_gateway f x) = passed N x"
  by (simp add: passed_def on_gateway_def)

lemma passed_site [simp]: "passed N (on_state (\<lambda>s. s\<lparr>st_site := n\<rparr>) x) = passed N x"
  by (auto simp: passed_def)

lemma passed_route [simp]: "passed N (on_state (\<lambda>s. s\<lparr>st_route := n\<rparr>) x) = passed N x"
  by (auto simp: passed_def)

interpretation scoped_timeout: scoped_middleware "timeoutMiddleware t" for t
  by unfold_locales (simp add: agree_def timeoutMiddleware_def)

interpretation scoped_body: scoped_middleware "bodyLimitMiddleware n l" for n l
  by unfold_locales (simp add: agree_def bodyLimitMiddleware_def)

interpretation scoped_concurrency: scoped_middleware "concurrencyMiddleware n l ref" for n l ref
  by unfold_locales (simp add: agree_def concurrencyMiddleware_def passed_def split: option.split)

interpretation scoped_rate: scoped_middleware "rateMiddleware ops ref" for ops ref
  by unfold_locales (simp add: agree_def rateMiddleware_def Let_def split: option.split prod.split)

interpretation scoped_site: scoped_middleware "withSite n" for n
  by unfold_locales (simp add: agree_def withSite_def)

interpretation scoped_route: scoped_middleware "withRoute n" for n
  by unfold_locales (simp add: agree_def withRoute_def)

lemma agree_Chain:
  assumes "\<forall>m \<in> set ms. scoped_middleware m" and "agree N h1 h2"
  shows "agree N (Chain h1 ms) (Chain h2 ms)"
  using assms by (induction ms) (auto intro: scoped_middleware.scoped)

text \<open>Wrapping adds the policy's name to what the next handler sees.\<close>

lemma agree_wrap:
  fixes p :: "'g compiledPolicy"
  assumes ms: "\<forall>m \<in> set (cp_middleware p). scoped_middleware m"
    and "agree (insert (p_name (cp_definition p)) N) h1 h2"
  shows "agree N (wrap p h1) (wrap p h2)"
proof -
  let ?n = "p_name (cp_definition p)"
  have chain: "agree (insert ?n N) (Chain h1 (cp_middleware p)) (Chain h2 (cp_middleware p))"
    by (rule agree_Chain [OF assms])
  show ?thesis
    unfolding agree_def
  proof (intro allI impI)
    fix r and x :: "'g exchange"
    assume "passed N x"
    then obtain s where s: "x_state x = Some s" "set (st_applied s) = N"
      by (auto simp: passed_def)
    show "wrap p h1 r x = wrap p h2 r x"
    proof (cases "?n \<in> set (st_applied s)")
      case True
      then have "passed (insert ?n N) x" using s by (auto simp: passed_def)
      then show ?thesis using agreeD [OF assms(2)] True s by (simp add: wrap_again)
    next
      case False
      then have "passed (insert ?n N) (x\<lparr>x_state := Some (s\<lparr>st_applied := ?n # st_applied s\<rparr>)\<rparr>)"
        using s by (auto simp: passed_def)
      then show ?thesis using agreeD [OF chain] False s by (simp add: wrap_first)
    qed
  qed
qed

lemma agree_skip: "p_name (cp_definition p) \<in> N \<Longrightarrow> agree N (wrap p h) h"
  by (auto simp: agree_def passed_def wrap_again)

section \<open>Compiled policies\<close>

lemma compilePolicy_parts:
  assumes "compilePolicy ops policy gw = Inr (p, gw')"
  shows "\<exists>m1 m2 m3 gw1. compileRequest policy = Inr m1 \<and> compileRateLimit ops policy gw = Inr (m2, gw1) \<and>
    compileConcurrency policy gw1 = Inr (m3, gw') \<and> m1 @ m2 @ m3 \<noteq> [] \<and>
    p = \<lparr>cp_definition = policy, cp_middleware = m1 @ m2 @ m3\<rparr>"
  using assms by (auto simp: compilePolicy_def result_simps split: if_splits prod.splits)

lemma compile_parts_scoped:
  "compileRequest policy = Inr m1 \<Longrightarrow> m \<in> set m1 \<Longrightarrow> scoped_middleware m"
  "compileRateLimit ops policy gw = Inr (m2, gw1) \<Longrightarrow> m \<in> set m2 \<Longrightarrow> scoped_middleware m"
  "compileConcurrency policy gw1 = Inr (m3, gw2) \<Longrightarrow> m \<in> set m3 \<Longrightarrow> scoped_middleware m"
  by (auto simp: compileRequest_def compileRateLimit_def compileConcurrency_def result_simps
      scoped_timeout.scoped_middleware_axioms scoped_body.scoped_middleware_axioms
      scoped_rate.scoped_middleware_axioms scoped_concurrency.scoped_middleware_axioms
      split: option.splits if_splits)

lemma compilePolicy_Inr:
  assumes "compilePolicy ops policy gw = Inr (p, gw')"
  shows "cp_definition p = policy" and "cp_middleware p \<noteq> []"
    and "\<forall>m \<in> set (cp_middleware p). scoped_middleware m"
  using compilePolicy_parts [OF assms] compile_parts_scoped by fastforce+

text \<open>Compiling allocates new objects and leaves the existing ones alone.\<close>

definition gateway_extends :: "'l gateway \<Rightarrow> 'l gateway \<Rightarrow> bool" where
  "gateway_extends g g' \<longleftrightarrow> gw_next g \<le> gw_next g' \<and>
     (\<forall>ref < gw_next g. mget (gw_limiters g') ref = mget (gw_limiters g) ref \<and>
                        mget (gw_slots g') ref = mget (gw_slots g) ref)"

lemma gateway_extends_refl [simp]: "gateway_extends g g"
  by (simp add: gateway_extends_def)

lemma gateway_extends_trans: "gateway_extends a b \<Longrightarrow> gateway_extends b c \<Longrightarrow> gateway_extends a c"
  by (auto simp: gateway_extends_def)

lemma compilePolicy_extends: "compilePolicy ops policy gw = Inr (p, gw') \<Longrightarrow> gateway_extends gw gw'"
  by (drule compilePolicy_parts)
    (auto simp: compileRateLimit_def compileConcurrency_def result_simps gateway_extends_def
      split: option.splits if_splits)

definition policies_ok :: "(string, 'g compiledPolicy) gomap \<Rightarrow> bool" where
  "policies_ok ps \<longleftrightarrow> (\<forall>n p. mget ps n = Some p \<longrightarrow>
     p_name (cp_definition p) = n \<and> (\<forall>m \<in> set (cp_middleware p). scoped_middleware m))"

lemma policies_ok_Nil [simp]: "policies_ok []"
  by (simp add: policies_ok_def)

lemma compilePolicies_step_Inr:
  assumes "compilePolicies_step ops prev policy (res, gw) = Inr (res', gw')"
  shows "p_name policy \<noteq> [] \<and> \<not> mhas res (p_name policy) \<and>
    (\<exists>p. res' = mput (p_name policy) p res \<and>
      (mget prev (p_name policy) = Some p \<and> cp_definition p = policy \<and> gw' = gw \<or>
       (\<forall>q. mget prev (p_name policy) = Some q \<longrightarrow> cp_definition q \<noteq> policy) \<and>
       compilePolicy ops policy gw = Inr (p, gw')))"
  using assms
  by (auto simp: compilePolicies_step_def result_simps split: if_splits option.splits)

lemma compilePolicies_step_policy:
  assumes "policies_ok prev" and "compilePolicies_step ops prev policy (res, gw) = Inr (res', gw')"
  obtains p where "res' = mput (p_name policy) p res" and "\<not> mhas res (p_name policy)"
    and "cp_definition p = policy" and "\<forall>m \<in> set (cp_middleware p). scoped_middleware m"
    and "gateway_extends gw gw'"
    and "\<And>q. mget prev (p_name policy) = Some q \<Longrightarrow> cp_definition q = policy \<Longrightarrow> p = q"
proof -
  from compilePolicies_step_Inr [OF assms(2)] obtain p where
    res: "res' = mput (p_name policy) p res" "\<not> mhas res (p_name policy)" and
    cases: "mget prev (p_name policy) = Some p \<and> cp_definition p = policy \<and> gw' = gw \<or>
       (\<forall>q. mget prev (p_name policy) = Some q \<longrightarrow> cp_definition q \<noteq> policy) \<and>
       compilePolicy ops policy gw = Inr (p, gw')" by blast
  from cases show thesis
  proof
    assume old: "mget prev (p_name policy) = Some p \<and> cp_definition p = policy \<and> gw' = gw"
    then have "\<forall>m \<in> set (cp_middleware p). scoped_middleware m"
      using assms(1) unfolding policies_ok_def by blast
    with old res show thesis by (intro that [of p]) simp_all
  next
    assume new: "(\<forall>q. mget prev (p_name policy) = Some q \<longrightarrow> cp_definition q \<noteq> policy) \<and>
       compilePolicy ops policy gw = Inr (p, gw')"
    then have "compilePolicy ops policy gw = Inr (p, gw')" ..
    from compilePolicy_Inr [OF this] compilePolicy_extends [OF this] new res
    show thesis by (intro that [of p]) simp_all
  qed
qed

lemma policies_ok_mput:
  "policies_ok ps \<Longrightarrow> \<forall>m \<in> set (cp_middleware p). scoped_middleware m \<Longrightarrow>
   policies_ok (mput (p_name (cp_definition p)) p ps)"
  by (simp add: policies_ok_def)

lemma compilePolicies_fold:
  assumes "policies_ok prev" "policies_ok res"
    and "rfold (compilePolicies_step ops prev) input (res, gw) = Inr (ps, gw')"
  shows "policies_ok ps \<and> gateway_extends gw gw' \<and>
    (\<forall>n. mhas res n \<longrightarrow> mget ps n = mget res n) \<and>
    (\<forall>n. mhas ps n \<longleftrightarrow> mhas res n \<or> n \<in> set (map p_name input)) \<and>
    (\<forall>policy \<in> set input. \<exists>p. mget ps (p_name policy) = Some p \<and> cp_definition p = policy \<and>
        (\<forall>q. mget prev (p_name policy) = Some q \<and> cp_definition q = policy \<longrightarrow> p = q))"
  using assms
proof (induction input arbitrary: res gw)
  case (Cons policy input)
  obtain r1 g1 where step: "compilePolicies_step ops prev policy (res, gw) = Inr (r1, g1)"
    and rest: "rfold (compilePolicies_step ops prev) input (r1, g1) = Inr (ps, gw')"
    using Cons.prems(3) by (auto simp: result_simps)
  from compilePolicies_step_policy [OF Cons.prems(1) step] obtain p where
    p: "r1 = mput (p_name policy) p res" "\<not> mhas res (p_name policy)" "cp_definition p = policy"
    and scoped: "\<forall>m \<in> set (cp_middleware p). scoped_middleware m"
    and ext: "gateway_extends gw g1"
    and reuse: "\<And>q. mget prev (p_name policy) = Some q \<Longrightarrow> cp_definition q = policy \<Longrightarrow> p = q" by metis
  have ok: "policies_ok r1" using policies_ok_mput [OF Cons.prems(2) scoped] p by simp
  note ih = Cons.IH [OF Cons.prems(1) ok rest]
  have "mget ps (p_name policy) = Some p" using ih p(1) by simp
  moreover have "mget ps n = mget res n" if "mhas res n" for n
    using ih p(1,2) that by (metis mget_mput mhas_mput)
  moreover have "gateway_extends gw g'" if "gateway_extends g1 g'" for g'
    using gateway_extends_trans [OF ext that] .
  moreover have "mhas ps n \<longleftrightarrow> mhas res n \<or> n \<in> set (map p_name (policy # input))" for n
    using ih p(1) by (metis insert_iff list.map(2) list.simps(15) mhas_mput)
  ultimately show ?case using ih p(3) reuse by simp
qed simp

lemmas compilePolicies_Inr = compilePolicies_fold [OF _ policies_ok_Nil, folded compilePolicies_def]

text \<open>Reloading a configuration keeps the state of every unchanged policy: a policy
  whose definition is the same in the previous snapshot is the same compiled
  object afterwards, and no rate-limit table or concurrency count that existed
  before is changed by compiling.\<close>

theorem unchanged_policy_keeps_state:
  assumes "compilePolicies ops input prev gw = Inr (ps, gw')" and "policies_ok prev"
    and "policy \<in> set input" and "mget prev (p_name policy) = Some old" and "cp_definition old = policy"
  shows "mget ps (p_name policy) = Some old \<and> gateway_extends gw gw'"
  using compilePolicies_Inr [OF assms(2,1)] assms(3-5) by auto

definition sample_policy :: Policy where
  "sample_policy = \<lparr>p_name = ''api'', p_request = None, p_rateLimit = Some sample_limit, p_concurrency = None\<rparr>"

definition sample_compiled :: "(rat \<times> int \<times> rat \<times> int option) gateway compiledPolicy" where
  "sample_compiled = \<lparr>cp_definition = sample_policy, cp_middleware = [rateMiddleware bucket_ops 0]\<rparr>"

lemma sample_policies_ok: "policies_ok [(''api'', sample_compiled)]"
  by (simp add: policies_ok_def sample_compiled_def sample_policy_def scoped_rate.scoped_middleware_axioms)

theorem unchanged_policy_keeps_state_witness:
  "mget [(''api'', sample_compiled)] ''api'' = Some sample_compiled \<and>
   gateway_extends \<lparr>gw_limiters = [(0, sample_limiter)], gw_slots = [], gw_next = 1\<rparr>
                   \<lparr>gw_limiters = [(0, sample_limiter)], gw_slots = [], gw_next = 1\<rparr>"
proof -
  have c: "compilePolicies bucket_ops [sample_policy] [(''api'', sample_compiled)]
      \<lparr>gw_limiters = [(0, sample_limiter)], gw_slots = [], gw_next = 1\<rparr> =
      Inr ([(''api'', sample_compiled)], \<lparr>gw_limiters = [(0, sample_limiter)], gw_slots = [], gw_next = 1\<rparr>)"
    by (simp add: compilePolicies_def compilePolicies_step_def sample_policy_def sample_compiled_def)
  show ?thesis
    using unchanged_policy_keeps_state [OF c sample_policies_ok, of sample_policy sample_compiled]
    by (simp add: sample_policy_def sample_compiled_def)
qed

section \<open>Once per request\<close>

abbreviation wrapped_in :: "(string, 'g compiledPolicy) gomap \<Rightarrow> string list \<Rightarrow> 'g middleware" where
  "wrapped_in ps names h \<equiv> Chain h (map (\<lambda>n. wrap (the (mget ps n))) names)"

lemma wrapped_in_agree:
  assumes "policies_ok ps" and "\<forall>n \<in> set names. mget ps n \<noteq> None"
    and "agree (N \<union> set names) h1 h2"
  shows "agree N (wrapped_in ps names h1) (wrapped_in ps names h2)"
  using assms(2,3)
proof (induction names arbitrary: N)
  case (Cons n names)
  then obtain p where p: "mget ps n = Some p" by auto
  have pn: "p_name (cp_definition p) = n" "\<forall>m \<in> set (cp_middleware p). scoped_middleware m"
    using assms(1) p by (auto simp: policies_ok_def)
  have "agree (insert n N) (wrapped_in ps names h1) (wrapped_in ps names h2)"
    using Cons by auto
  then show ?case using agree_wrap [of p N] pn p by simp
qed simp

text \<open>
  \<open>run_policy\<close> runs a policy's middleware without asking whether it ran
  before; \<open>fresh_names\<close> are the names of a list that are new to a request which
  passed \<open>seen\<close>, each once.
\<close>

definition run_policy :: "'g compiledPolicy \<Rightarrow> 'g middleware" where
  "run_policy p next = (\<lambda>r x. Chain next (cp_middleware p) r
     (on_state (\<lambda>s. s\<lparr>st_applied := p_name (cp_definition p) # st_applied s\<rparr>) x))"

abbreviation run_policies :: "(string, 'g compiledPolicy) gomap \<Rightarrow> string list \<Rightarrow> 'g middleware" where
  "run_policies ps names h \<equiv> Chain h (map (\<lambda>n. run_policy (the (mget ps n))) names)"

fun fresh_names :: "string set \<Rightarrow> string list \<Rightarrow> string list" where
  "fresh_names seen [] = []"
| "fresh_names seen (n # ns) =
     (if n \<in> seen then fresh_names seen ns else n # fresh_names (insert n seen) ns)"

lemma set_fresh_names: "set (fresh_names seen ns) = set ns - seen"
  by (induction ns arbitrary: seen) auto

lemma distinct_fresh_names: "distinct (fresh_names seen ns)"
  by (induction ns arbitrary: seen) (auto simp: set_fresh_names)

lemma agree_run_policy:
  assumes "\<forall>m \<in> set (cp_middleware p). scoped_middleware m"
    and "agree (insert (p_name (cp_definition p)) N) h1 h2"
  shows "agree N (run_policy p h1) (run_policy p h2)"
  using agree_Chain [OF assms] by (auto simp: agree_def run_policy_def passed_def)

lemma agree_wrap_fresh: "p_name (cp_definition p) \<notin> N \<Longrightarrow> agree N (wrap p h) (run_policy p h)"
  by (auto simp: agree_def passed_def wrap_first run_policy_def on_state_def)

lemma wrapped_in_fresh:
  assumes "policies_ok ps" and "\<forall>n \<in> set names. mget ps n \<noteq> None"
  shows "agree N (wrapped_in ps names h) (run_policies ps (fresh_names N names) h)"
  using assms(2)
proof (induction names arbitrary: N)
  case (Cons n names)
  then obtain p where p: "mget ps n = Some p" by auto
  have pn: "p_name (cp_definition p) = n" "\<forall>m \<in> set (cp_middleware p). scoped_middleware m"
    using assms(1) p by (auto simp: policies_ok_def)
  show ?case
  proof (cases "n \<in> N")
    case True
    have "agree N (wrapped_in ps names h) (run_policies ps (fresh_names N names) h)"
      using Cons by auto
    then show ?thesis using agree_trans [OF agree_skip [of p N]] True p pn by simp
  next
    case False
    have "agree (insert n N) (wrapped_in ps names h) (run_policies ps (fresh_names (insert n N) names) h)"
      using Cons.IH [of "insert n N"] Cons.prems by auto
    then show ?thesis
      using agree_trans [OF agree_wrap_fresh [of p N] agree_run_policy [of p N]] False p pn by simp
  qed
qed simp

lemma run_policies_agree:
  assumes "policies_ok ps" and "\<forall>n \<in> set names. mget ps n \<noteq> None"
    and "agree (N \<union> set names) h1 h2"
  shows "agree N (run_policies ps names h1) (run_policies ps names h2)"
  using assms(2,3)
proof (induction names arbitrary: N)
  case (Cons n names)
  then obtain p where p: "mget ps n = Some p" by auto
  have pn: "p_name (cp_definition p) = n" "\<forall>m \<in> set (cp_middleware p). scoped_middleware m"
    using assms(1) p by (auto simp: policies_ok_def)
  have "agree (insert n N) (run_policies ps names h1) (run_policies ps names h2)"
    using Cons by auto
  then show ?case using agree_run_policy [of p N] pn p by simp
qed simp

text \<open>C1: Policies run once per request. A handler wrapped by its route's policies,
  these by its site's and these by the listener's, behaves for a request as the
  chain in which each named policy's middleware stands exactly once, at the
  outermost place that names it, in the order of the lists; repeated names
  change nothing.\<close>

theorem policies_run_once:
  assumes ok: "policies_ok ps" and fresh: "x_state x = Some s" "st_applied s = []"
    and "applyPolicies h rnames ps = Inr h1"
    and "applyPolicies (withRoute route h1) snames ps = Inr h2"
    and "applyPolicies (withSite site h2) lnames ps = Inr h3"
  defines "L \<equiv> fresh_names {} lnames"
    and "S \<equiv> fresh_names (set lnames) snames"
    and "R \<equiv> fresh_names (set lnames \<union> set snames) rnames"
  shows "h3 r x = run_policies ps L (withSite site
           (run_policies ps S (withRoute route (run_policies ps R h)))) r x \<and>
         distinct (L @ S @ R) \<and> set (L @ S @ R) = set (lnames @ snames @ rnames)"
proof -
  note r = assms(4) [unfolded applyPolicies_Inr] and s = assms(5) [unfolded applyPolicies_Inr]
    and l = assms(6) [unfolded applyPolicies_Inr]
  have route: "agree (set lnames \<union> set snames) (withRoute route h1) (withRoute route (run_policies ps R h))"
    using scoped_route.scoped [OF wrapped_in_fresh [OF ok]] r by (simp add: R_def)
  have site_eq: "agree (set lnames) h2 (run_policies ps S (withRoute route h1))"
    using wrapped_in_fresh [OF ok] s by (simp add: S_def)
  have S_names: "set S = set snames - set lnames" "\<forall>n \<in> set S. mget ps n \<noteq> None"
    using s by (auto simp: S_def set_fresh_names)
  have "agree (set lnames \<union> set S) (withRoute route h1) (withRoute route (run_policies ps R h))"
    using route S_names by simp
  from agree_trans [OF site_eq run_policies_agree [OF ok S_names(2) this]]
  have site: "agree (set lnames) (withSite site h2)
      (withSite site (run_policies ps S (withRoute route (run_policies ps R h))))" (is "agree _ ?a ?b")
    by (rule scoped_site.scoped)
  have L_names: "set L = set lnames" "\<forall>n \<in> set L. mget ps n \<noteq> None"
    using l by (auto simp: L_def set_fresh_names)
  have "agree {} h3 (run_policies ps L ?a)" using wrapped_in_fresh [OF ok] l by (simp add: L_def)
  moreover have "agree {} (run_policies ps L ?a) (run_policies ps L ?b)"
    using run_policies_agree [OF ok L_names(2), of "{}"] site L_names by simp
  moreover have "passed {} x" using fresh by (simp add: passed_def)
  ultimately show ?thesis
    by (auto simp: agree_def distinct_fresh_names set_fresh_names L_def S_def R_def)
qed

definition sample_state :: requestState where
  "sample_state = \<lparr>st_id = ''1'', st_listener = ''http'', st_site = [], st_route = [],
     st_clientIP = Some (V4 0x0A000001), st_trustedPeer = False, st_rejectedBy = [], st_applied = []\<rparr>"

definition sample_exchange :: "'g \<Rightarrow> 'g exchange" where
  "sample_exchange g = \<lparr>x_tracker = newTracker 100, x_state = Some sample_state, x_now = 0, x_shared = g\<rparr>"

theorem policies_run_once_witness:
  "withSite ''s'' (wrap sample_compiled (withRoute ''r'' (wrap sample_compiled httpNotFound)))
     (get_request ''a.test'' ''/'' ''10.0.0.1:9'' []) (sample_exchange empty_gateway) =
   withSite ''s'' (run_policy sample_compiled (withRoute ''r'' httpNotFound))
     (get_request ''a.test'' ''/'' ''10.0.0.1:9'' []) (sample_exchange empty_gateway)"
proof -
  let ?ps = "[(''api'', sample_compiled)]"
  have a: "applyPolicies h [''api''] ?ps = Inr (wrap sample_compiled h)" for h
    by (simp add: applyPolicies_def)
  have "applyPolicies h [] ?ps = Inr h" for h by (simp add: applyPolicies_def)
  from policies_run_once [OF sample_policies_ok _ _ a a this, where x = "sample_exchange empty_gateway" and s = sample_state
      and r = "get_request ''a.test'' ''/'' ''10.0.0.1:9'' []" and h = httpNotFound and route = "''r''" and site = "''s''"]
  show ?thesis by (simp add: sample_exchange_def sample_state_def)
qed

section \<open>Request limits and keys\<close>

text \<open>What a request policy does: a request that declares a body above the
  limit is answered 413 without reaching the handler; every other request
  reaches the handler, with its deadline no later than the policy's timeout
  after now and its body cut off at the policy's limit, and tighter bounds of
  an outer policy kept.\<close>

theorem request_policy_limits:
  assumes "compileRequest policy = Inr ms" and "p_request policy = Some c"
  shows "Chain h ms r x =
    (if 0 < rq_maxBodyBytes c \<and> rq_maxBodyBytes c < r_contentLength r
     then (Returned, reject (p_name policy @ '':body'') 413 ''request body too large'' x)
     else h (r\<lparr>r_deadline := (if rq_timeout c = 0 then r_deadline r
                   else Some (case r_deadline r of None \<Rightarrow> x_now x + rq_timeout c
                              | Some d \<Rightarrow> min d (x_now x + rq_timeout c))),
               r_bodyLimit := (if rq_maxBodyBytes c = 0 then r_bodyLimit r
                   else Some (case r_bodyLimit r of None \<Rightarrow> rq_maxBodyBytes c
                              | Some l \<Rightarrow> min l (rq_maxBodyBytes c)))\<rparr>) x)"
proof -
  have "0 \<le> rq_maxBodyBytes c" "0 \<le> rq_timeout c"
    and ms: "ms = (if 0 < rq_timeout c then [timeoutMiddleware (rq_timeout c)] else []) @
      (if 0 < rq_maxBodyBytes c then [bodyLimitMiddleware (p_name policy) (rq_maxBodyBytes c)] else [])"
    using assms by (auto simp: compileRequest_def split: if_splits)
  then show ?thesis by (auto simp: timeoutMiddleware_def bodyLimitMiddleware_def)
qed

theorem request_policy_limits_witness:
  "Chain httpNotFound [bodyLimitMiddleware ''b'' 10]
     ((get_request ''a.test'' ''/'' ''10.0.0.1:9'' [])\<lparr>r_contentLength := 11\<rparr>)
     (sample_exchange (empty_gateway :: nat gateway)) =
   (Returned, reject ''b:body'' 413 ''request body too large'' (sample_exchange empty_gateway))"
proof -
  let ?p = "\<lparr>p_name = ''b'', p_request = Some \<lparr>rq_maxBodyBytes = 10, rq_timeout = 0\<rparr>, p_rateLimit = None,
             p_concurrency = None\<rparr>"
  have c: "compileRequest ?p = Inr [bodyLimitMiddleware ''b'' 10]" by (simp add: compileRequest_def)
  show ?thesis
    by (subst request_policy_limits [OF c, where c = "\<lparr>rq_maxBodyBytes = 10, rq_timeout = 0\<rparr>"]) simp_all
qed

text \<open>An IPv6 client cannot escape its rate limit by rotating addresses: all
  addresses of one /64, with any zone, have the same key and so share a bucket.\<close>

theorem rateLimitKey_subnet:
  assumes "st_clientIP s = Some (V6 v z)" and "st_clientIP t = Some (V6 w z')" and "drop_bit 64 v = drop_bit 64 w"
  shows "rateLimitKey (Some s) = rateLimitKey (Some t)"
proof -
  have "maskAddr 64 (V6 v []) = maskAddr 64 (V6 w [])"
    using assms(3) by (simp add: maskAddr_eq_iff)
  then show ?thesis
    using assms(1,2) by (simp add: rateLimitKey_def is6_def masked_def prefixFrom_def withoutZone_def prefixString_def)
qed

theorem rateLimitKey_subnet_witness:
  "rateLimitKey (Some (sample_state\<lparr>st_clientIP := Some (V6 0x20010db8000000000000000000000001 ''eth0'')\<rparr>)) =
   rateLimitKey (Some (sample_state\<lparr>st_clientIP := Some (V6 0x20010db800000000ffffffffffffffff [])\<rparr>))"
proof -
  have d: "drop_bit 64 (0x20010db8000000000000000000000001 :: 128 word) =
        drop_bit 64 (0x20010db800000000ffffffffffffffff :: 128 word)"
    by code_simp
  show ?thesis by (rule rateLimitKey_subnet [OF _ _ d]) simp_all
qed

section \<open>Concurrency\<close>

text \<open>
  The requests inside one concurrency middleware, with the channel of slots as
  its only state: a request enters by sending to the channel, is refused when
  the channel is full, and receives from the channel when it leaves. Sends and
  receives of different requests interleave freely.
\<close>

inductive conc_step :: "int \<Rightarrow> nat \<Rightarrow> 'l gateway \<times> nat set \<Rightarrow> 'l gateway \<times> nat set \<Rightarrow> bool"
  for limit :: int and ref :: nat where
  enter: "rid \<notin> active \<Longrightarrow> slot_acquire limit ref g = Some g' \<Longrightarrow>
          conc_step limit ref (g, active) (g', insert rid active)"
| refuse: "rid \<notin> active \<Longrightarrow> slot_acquire limit ref g = None \<Longrightarrow>
           conc_step limit ref (g, active) (g, active)"
| leave: "rid \<in> active \<Longrightarrow> conc_step limit ref (g, active) (slot_release ref g, active - {rid})"

inductive_cases conc_stepE: "conc_step limit ref s s'"

definition conc_inv :: "int \<Rightarrow> nat \<Rightarrow> 'l gateway \<times> nat set \<Rightarrow> bool" where
  "conc_inv limit ref = (\<lambda>(g, active). finite active \<and> slots_used ref g = card active \<and> int (card active) \<le> limit)"

lemma slots_used_set [simp]: "slots_used ref (set_slots ref n g) = n"
  by (simp add: slots_used_def set_slots_def)

lemma conc_inv_step: "conc_step limit ref s s' \<Longrightarrow> conc_inv limit ref s \<Longrightarrow> conc_inv limit ref s'"
  by (erule conc_stepE)
    (auto simp: conc_inv_def slot_acquire_def slot_release_def card_Diff_singleton split: if_splits)

lemma conc_inv_steps: "(conc_step limit ref)\<^sup>*\<^sup>* s s' \<Longrightarrow> conc_inv limit ref s \<Longrightarrow> conc_inv limit ref s'"
  by (induction rule: rtranclp_induct) (auto intro: conc_inv_step)


definition sample_concurrency :: Policy where
  "sample_concurrency = \<lparr>p_name = ''one'', p_request = None, p_rateLimit = None,
     p_concurrency = Some \<lparr>cp_max = 1\<rparr>\<rparr>"


text \<open>A slot is given back whatever happens to the request, a panic of the handler
  included: a handler that leaves the count of the slots alone is run with one
  slot more, and after it the count is the one before the request.\<close>

theorem concurrency_slot_returned:
  assumes "\<forall>r y. slots_used ref (x_shared (snd (h r y))) = slots_used ref (x_shared y)"
  shows "slots_used ref (x_shared (snd (concurrencyMiddleware n limit ref h r x))) = slots_used ref (x_shared x) \<and>
    fst (concurrencyMiddleware n limit ref h r x) =
      (case slot_acquire limit ref (x_shared x) of
         None \<Rightarrow> Returned | Some g \<Rightarrow> fst (h r (x\<lparr>x_shared := g\<rparr>)))"
proof (cases "slot_acquire limit ref (x_shared x)")
  case None
  then show ?thesis by (simp add: concurrencyMiddleware_def setHeader_def)
next
  case (Some g)
  obtain out x' where n: "h r (x\<lparr>x_shared := g\<rparr>) = (out, x')" by fastforce
  have "slots_used ref (x_shared x') = slots_used ref g" using assms n by (metis snd_conv exchange.select_convs(4) exchange.surjective exchange.update_convs(4))
  moreover have "slots_used ref g = Suc (slots_used ref (x_shared x))"
    using Some by (auto simp: slot_acquire_def split: if_splits)
  ultimately show ?thesis
    using Some n by (simp add: concurrencyMiddleware_def slot_release_def on_gateway_def)
qed

theorem concurrency_slot_returned_witness:
  "let (out, x) = concurrencyMiddleware ''one'' 1 0 (\<lambda>r x. (Panicked AbortHandler, x))
      (get_request ''a.test'' ''/'' ''10.0.0.1:9'' []) (sample_exchange (empty_gateway :: nat gateway))
   in out = Panicked AbortHandler \<and> slots_used 0 (x_shared x) = 0"
  using concurrency_slot_returned [where ref = 0 and h = "\<lambda>r x. (Panicked AbortHandler, x)" and n = "''one''"
      and limit = 1 and r = "get_request ''a.test'' ''/'' ''10.0.0.1:9'' []"
      and x = "sample_exchange (empty_gateway :: nat gateway)"]
  by (simp add: slot_acquire_def sample_exchange_def empty_gateway_def slots_used_def case_prod_beta)

end
