(* ===== verification/Proxy.thy ===== *)
theory Proxy
  imports Policy
begin

text \<open>
  \<open>proxy.go\<close>: upstream URLs, outgoing requests and error codes of the reverse
  proxy, prefix stripping, and the transports' identity. The round trip to the
  upstream is a parameter; \<open>httputil.ReverseProxy\<close> (Go's standard library) is
  modelled up to protocol upgrades, trailers and 1xx responses.
\<close>

section \<open>Path prefixes\<close>

definition cutPathPrefix :: "string \<Rightarrow> string \<Rightarrow> string \<times> bool" where
  "cutPathPrefix path prefix =
     (case cutPrefix path prefix of
        None \<Rightarrow> (path, False)
      | Some rest \<Rightarrow>
          if rest \<noteq> [] \<and> hd rest \<noteq> CHR ''/'' then (path, False)
          else if rest = [] then (''/'', True)
          else (rest, True))"

definition stripPathPrefix :: "string \<Rightarrow> url \<Rightarrow> url" where
  "stripPathPrefix prefix0 u =
     (let prefix = trimSuffix prefix0 ''/''; (path, ok) = cutPathPrefix (u_path u) prefix
      in if \<not> ok then u
         else let u' = u\<lparr>u_path := path\<rparr>
              in if u_rawpath u \<noteq> [] then
                   (let (raw, ok') = cutPathPrefix (u_rawpath u) prefix
                    in if ok' then u'\<lparr>u_rawpath := raw\<rparr> else u'\<lparr>u_rawpath := []\<rparr>)
                 else u')"

definition stripPrefix :: "string \<Rightarrow> 'g middleware" where
  "stripPrefix prefix next = (\<lambda>r x. next (r\<lparr>r_url := stripPathPrefix prefix (r_url r)\<rparr>) x)"

section \<open>Upstreams\<close>

record transportKey =
  tk_socket :: string
  tk_insecure :: bool
  tk_dialTimeout :: duration
  tk_responseHeaderTimeout :: duration
  tk_maxConns :: int

text \<open>What \<open>newTransport\<close> sets; \<open>tr_dials\<close> is the network and address dialled for a request to \<open>addr\<close>.\<close>

record transport =
  tr_proxyFromEnv :: bool
  tr_dialTimeout :: duration
  tr_keepAlive :: duration
  tr_dials :: "string \<Rightarrow> string \<times> string"
  tr_responseHeaderTimeout :: duration
  tr_maxConnsPerHost :: int
  tr_maxIdleConns :: int
  tr_maxIdlePerHost :: int
  tr_verifies :: bool

text \<open>A transport as an object: every transport has a connection pool of its own.\<close>

record pool =
  pool_id :: nat
  pool_transport :: transport

definition newTransport :: "transportKey \<Rightarrow> transport" where
  "newTransport key =
     \<lparr>tr_proxyFromEnv = False,
      tr_dialTimeout = tk_dialTimeout key, tr_keepAlive = 30 * second,
      tr_dials = (if tk_socket key \<noteq> [] then (\<lambda>_. (''unix'', tk_socket key)) else (\<lambda>addr. (''tcp'', addr))),
      tr_responseHeaderTimeout = tk_responseHeaderTimeout key,
      tr_maxConnsPerHost = tk_maxConns key, tr_maxIdleConns = 256, tr_maxIdlePerHost = 64,
      tr_verifies = (\<not> tk_insecure key)\<rparr>"

definition parseUpstream :: "string \<Rightarrow> (url \<times> string) result" where
  "parseUpstream raw =
     (case cutPrefix raw ''unix:'' of
        Some s \<Rightarrow>
          let socket = trimPrefix s ''//''
          in if \<not> hasPrefix socket ''/''
             then Inl (Errorf ''invalid upstream %q: unix socket path must be absolute'' [raw])
             else Inr (empty_url\<lparr>u_scheme := ''http'', u_host := ''localhost''\<rparr>, socket)
      | None \<Rightarrow>
          (case urlParse raw of
             None \<Rightarrow> Inl (Errorf ''invalid upstream %q: want http://, https:// or unix:'' [raw])
           | Some target \<Rightarrow>
               if u_host target = [] \<or> u_scheme target \<noteq> ''http'' \<and> u_scheme target \<noteq> ''https''
               then Inl (Errorf ''invalid upstream %q: want http://, https:// or unix:'' [raw])
               else Inr (target, [])))"

section \<open>The outgoing request\<close>

text \<open>\<open>removeHopByHopHeaders\<close> of the standard library.\<close>

definition hopHeaders :: "string list" where
  "hopHeaders = [''Connection'', ''Proxy-Connection'', ''Keep-Alive'', ''Proxy-Authenticate'',
     ''Proxy-Authorization'', ''Te'', ''Trailer'', ''Transfer-Encoding'', ''Upgrade'']"

definition connectionTokens :: "header \<Rightarrow> string list" where
  "connectionTokens h =
     filter (\<lambda>t. t \<noteq> []) (map trimSpace (concat (map (splitChar CHR '','') (headerValues h ''Connection''))))"

definition removeHopByHop :: "header \<Rightarrow> header" where
  "removeHopByHop h = foldl (\<lambda>h n. headerDel n h) h (connectionTokens h @ hopHeaders)"

definition upgradeType :: "header \<Rightarrow> string" where
  "upgradeType h = (if ''upgrade'' \<in> set (map toLower (connectionTokens h)) then headerGet h ''Upgrade'' else [])"

definition wantsTrailers :: "header \<Rightarrow> bool" where
  "wantsTrailers h = (''trailers'' \<in> set (map (toLower \<circ> trimSpace)
     (concat (map (splitChar CHR '','') (headerValues h ''Te'')))))"

text \<open>\<open>cleanQueryParams\<close>: a query with a semicolon or a broken escape is parsed and written anew.\<close>

definition plusToSpace :: "string \<Rightarrow> string" where
  "plusToSpace s = map (\<lambda>c. if c = CHR ''+'' then CHR '' '' else c) s"

definition queryUnescape :: "string \<Rightarrow> string option" where
  "queryUnescape s = unescape (plusToSpace s)"

definition queryEscape :: "string \<Rightarrow> string" where
  "queryEscape s = concat (map (\<lambda>c. if is_alnum c \<or> c \<in> set ''-_.~'' then [c]
     else if c = CHR '' '' then ''+'' else pct c) s)"

definition queryPair :: "string \<Rightarrow> (string \<times> string) option" where
  "queryPair s =
     (if s = [] \<or> CHR '';'' \<in> set s then None
      else let (k, v) = (case cutChar CHR ''='' s of None \<Rightarrow> (s, []) | Some p \<Rightarrow> p)
           in case (queryUnescape k, queryUnescape v) of (Some k', Some v') \<Rightarrow> Some (k', v') | _ \<Rightarrow> None)"

definition parseQuery :: "string \<Rightarrow> (string \<times> string) list" where
  "parseQuery s = List.map_filter queryPair (splitChar CHR ''&'' s)"

fun string_le :: "string \<Rightarrow> string \<Rightarrow> bool" where
  "string_le [] t = True"
| "string_le (a # s) [] = False"
| "string_le (a # s) (b # t) =
     ((of_char a :: nat) < of_char b \<or> a = b \<and> string_le s t)"

definition encodeQuery :: "(string \<times> string) list \<Rightarrow> string" where
  "encodeQuery kvs = joinStr ''&'' (map (\<lambda>(k, v). queryEscape k @ ''='' @ queryEscape v)
     (foldr (\<lambda>kv acc. takeWhile (\<lambda>kv'. \<not> string_le (fst kv) (fst kv')) acc @ kv #
                      dropWhile (\<lambda>kv'. \<not> string_le (fst kv) (fst kv')) acc) kvs []))"

definition cleanQueryParams :: "string \<Rightarrow> string" where
  "cleanQueryParams s = (if CHR '';'' \<in> set s \<or> unescape s = None then encodeQuery (parseQuery s) else s)"

definition singleJoiningSlash :: "string \<Rightarrow> string \<Rightarrow> string" where
  "singleJoiningSlash a b =
     (if hasSuffix a ''/'' \<and> hasPrefix b ''/'' then a @ tl b
      else if \<not> hasSuffix a ''/'' \<and> \<not> hasPrefix b ''/'' then a @ ''/'' @ b else a @ b)"

definition joinURLPath :: "url \<Rightarrow> url \<Rightarrow> string \<times> string" where
  "joinURLPath a b =
     (if u_rawpath a = [] \<and> u_rawpath b = [] then (singleJoiningSlash (u_path a) (u_path b), [])
      else let ap = escapedPath a; bp = escapedPath b
           in if hasSuffix ap ''/'' \<and> hasPrefix bp ''/'' then (u_path a @ drop 1 (u_path b), ap @ drop 1 bp)
              else if \<not> hasSuffix ap ''/'' \<and> \<not> hasPrefix bp ''/''
              then (u_path a @ ''/'' @ u_path b, ap @ ''/'' @ bp)
              else (u_path a @ u_path b, ap @ bp))"

text \<open>\<open>ProxyRequest.SetURL\<close> and \<open>SetXForwarded\<close>.\<close>

definition SetURL :: "url \<Rightarrow> request \<Rightarrow> request" where
  "SetURL target out =
     (let (p, raw) = joinURLPath target (r_url out); q = u_query (r_url out)
      in out\<lparr>r_url := (r_url out)\<lparr>u_scheme := u_scheme target, u_host := u_host target, u_path := p,
                 u_rawpath := raw,
                 u_query := (if u_query target = [] \<or> q = [] then u_query target @ q
                             else u_query target @ ''&'' @ q)\<rparr>,
             r_host := []\<rparr>)"

definition SetXForwarded :: "request \<Rightarrow> header \<Rightarrow> header" where
  "SetXForwarded inr out =
     headerSet ''X-Forwarded-Proto'' (if r_tls inr then ''https'' else ''http'')
     (headerSet ''X-Forwarded-Host'' (r_host inr)
       (case splitHostPort (r_remoteAddr inr) of
          Some (ip, _) \<Rightarrow>
            (let prior = headerValues out ''X-Forwarded-For''
             in headerSet ''X-Forwarded-For''
                  (if prior \<noteq> [] then joinStr '', '' prior @ '', '' @ ip else ip) out)
        | None \<Rightarrow> headerDel ''X-Forwarded-For'' out))"

definition setForwardedHeaders :: "requestState option \<Rightarrow> request \<Rightarrow> header \<Rightarrow> header" where
  "setForwardedHeaders st inr out =
     (let trusted = (case st of None \<Rightarrow> False | Some s \<Rightarrow> st_trustedPeer s);
          out1 = (if trusted then mput ''X-Forwarded-For'' (headerValues (r_header inr) ''X-Forwarded-For'') out
                  else out);
          out2 = SetXForwarded inr out1;
          out3 = (if trusted
                  then foldl (\<lambda>h n. if headerGet (r_header inr) n \<noteq> []
                                    then headerSet n (headerGet (r_header inr) n) h else h)
                         out2 [''X-Forwarded-Host'', ''X-Forwarded-Proto'']
                  else out2);
          out4 = headerDel ''X-Real-IP'' out3
      in case st of
           None \<Rightarrow> out4
         | Some s \<Rightarrow> (case st_clientIP s of None \<Rightarrow> out4 | Some a \<Rightarrow> headerSet ''X-Real-IP'' (addrString a) out4))"

text \<open>The \<open>Rewrite\<close> function of the proxy.\<close>

definition rewrite :: "Proxy \<Rightarrow> url \<Rightarrow> requestState option \<Rightarrow> request \<Rightarrow> request \<Rightarrow> request" where
  "rewrite config target st inr out0 =
     (let out1 = (if stripPrefix_of config \<noteq> []
                  then out0\<lparr>r_url := stripPathPrefix (stripPrefix_of config) (r_url out0)\<rparr> else out0);
          out2 = SetURL target out1;
          out3 = out2\<lparr>r_host := (if hostHeader config \<noteq> [] then hostHeader config else r_host inr)\<rparr>
      in out3\<lparr>r_header := setForwardedHeaders st inr (r_header out3)\<rparr>)"

text \<open>\<open>ReverseProxy\<close> before the round trip.\<close>

definition reverse_header :: "header \<Rightarrow> header" where
  "reverse_header h =
     (let up = upgradeType h;
          h1 = removeHopByHop h;
          h2 = (if wantsTrailers h then headerSet ''Te'' ''trailers'' h1 else h1);
          h3 = (if up \<noteq> [] then headerSet ''Upgrade'' up (headerSet ''Connection'' ''Upgrade'' h2) else h2)
      in headerDel ''X-Forwarded-Proto'' (headerDel ''X-Forwarded-Host''
           (headerDel ''X-Forwarded-For'' (headerDel ''Forwarded'' h3))))"

definition outgoing :: "Proxy \<Rightarrow> url \<Rightarrow> requestState option \<Rightarrow> request \<Rightarrow> request" where
  "outgoing config target st inr =
     (let out0 = inr\<lparr>r_header := reverse_header (r_header inr),
                     r_url := (r_url inr)\<lparr>u_query := cleanQueryParams (u_query (r_url inr))\<rparr>\<rparr>;
          out1 = rewrite config target st inr out0
      in if mhas (r_header out1) ''User-Agent'' then out1
         else out1\<lparr>r_header := headerSet ''User-Agent'' [] (r_header out1)\<rparr>)"

section \<open>Responses\<close>

datatype upstreamError = MaxBytesExceeded | DeadlineExceeded | UpstreamFailed string

definition proxyErrorStatus :: "request \<Rightarrow> upstreamError \<Rightarrow> int" where
  "proxyErrorStatus r err =
     (case err of
        MaxBytesExceeded \<Rightarrow> 413
      | DeadlineExceeded \<Rightarrow> 504
      | UpstreamFailed _ \<Rightarrow> if r_cancelled r then 499 else 502)"

record upstreamResponse =
  ur_code :: int
  ur_header :: header
  ur_body :: string
  ur_complete :: bool

type_synonym 'g round_trip = "pool \<Rightarrow> request \<Rightarrow> 'g \<Rightarrow> (upstreamError + upstreamResponse) \<times> 'g"

definition isPrint :: "string \<Rightarrow> bool" where
  "isPrint s = list_all (\<lambda>c. 32 \<le> (of_char c :: nat) \<and> of_char c < (127 :: nat)) s"

definition copyHeaders :: "header \<Rightarrow> 'g exchange \<Rightarrow> 'g exchange" where
  "copyHeaders src = on_tracker (\<lambda>t. t\<lparr>rw_header :=
     foldl (\<lambda>h (k, vs). foldl (\<lambda>h v. headerAdd k v h) h vs) (rw_header t) src\<rparr>)"

text \<open>A body that breaks off aborts the connection, so the client sees it too.\<close>

definition proxyServe :: "'g round_trip \<Rightarrow> pool \<Rightarrow> Proxy \<Rightarrow> url \<Rightarrow> 'g handler" where
  "proxyServe rt pl config target r x =
     (if \<not> isPrint (upgradeType (r_header r))
      then (Returned, writeHeader (proxyErrorStatus r (UpstreamFailed ''invalid protocol'')) x)
      else let (res, g) = rt pl (outgoing config target (x_state x) r) (x_shared x); x1 = x\<lparr>x_shared := g\<rparr>
           in case res of
                Inl err \<Rightarrow> (Returned, writeHeader (proxyErrorStatus r err) x1)
              | Inr u \<Rightarrow>
                  (let x2 = writeHeader (ur_code u) (copyHeaders (removeHopByHop (ur_header u)) x1);
                       x3 = (if ur_body u \<noteq> [] then writeBody (ur_body u) x2 else x2)
                   in (if ur_complete u then Returned else Panicked AbortHandler, x3)))"

text \<open>\<open>compiler.proxy\<close>; the caller takes the transport of the key, see \<open>Compile\<close>.\<close>

definition proxy_key :: "Proxy \<Rightarrow> (url \<times> transportKey) result" where
  "proxy_key config =
     rbind (parseUpstream (upstream config)) (\<lambda>(target, socket).
       if dialTimeout config < 0 \<or> responseHeaderTimeout config < 0 \<or> maxConns config < 0
       then Inl (Errorf ''proxy timeouts and max_conns cannot be negative'' [])
       else Inr (target,
         \<lparr>tk_socket = socket, tk_insecure = insecureSkipVerify config,
          tk_dialTimeout = durationOr (dialTimeout config) (5 * second),
          tk_responseHeaderTimeout = responseHeaderTimeout config, tk_maxConns = maxConns config\<rparr>))"

section \<open>Headers of the outgoing request\<close>

lemma canonical_names [simp]:
  "canonicalKey ''Connection'' = ''Connection''" "canonicalKey ''Te'' = ''Te''"
  "canonicalKey ''Upgrade'' = ''Upgrade''" "canonicalKey ''Forwarded'' = ''Forwarded''"
  "canonicalKey ''X-Forwarded-For'' = ''X-Forwarded-For''"
  "canonicalKey ''X-Forwarded-Host'' = ''X-Forwarded-Host''"
  "canonicalKey ''X-Forwarded-Proto'' = ''X-Forwarded-Proto''"
  "canonicalKey ''X-Real-IP'' = ''X-Real-Ip''" "canonicalKey ''User-Agent'' = ''User-Agent''"
  by code_simp+

lemma headerValues_mput [simp]:
  "headerValues (mput k vs h) n = (if canonicalKey n = k then vs else headerValues h n)"
  by (simp add: headerValues_def)

lemma headerValues_Dels:
  "headerValues (foldl (\<lambda>h n. headerDel n h) h ns) m =
     (if canonicalKey m \<in> canonicalKey ` set ns then [] else headerValues h m)"
  by (induction ns arbitrary: h) auto

lemma headerValues_hop:
  "headerValues (removeHopByHop h) m =
     (if canonicalKey m \<in> canonicalKey ` (set (connectionTokens h) \<union> set hopHeaders) then [] else headerValues h m)"
  by (simp add: removeHopByHop_def headerValues_Dels image_Un)

lemma reverse_header_forwarded [simp]:
  "headerValues (reverse_header h) ''Forwarded'' = []"
  "headerValues (reverse_header h) ''X-Forwarded-For'' = []"
  "headerValues (reverse_header h) ''X-Forwarded-Host'' = []"
  "headerValues (reverse_header h) ''X-Forwarded-Proto'' = []"
  by (simp_all add: reverse_header_def Let_def)

lemma outgoing_header:
  "canonicalKey n \<noteq> ''User-Agent'' \<Longrightarrow>
   headerValues (r_header (outgoing config target st r)) n =
   headerValues (setForwardedHeaders st r (reverse_header (r_header r))) n"
  by (auto simp: outgoing_def rewrite_def SetURL_def Let_def split: prod.splits)

text \<open>The values a header set by the proxy has, one header at a time.\<close>

lemma SetXForwarded_values:
  assumes "splitHostPort (r_remoteAddr r) = Some (ip, port)"
  shows "headerValues (SetXForwarded r out) n =
    (if canonicalKey n = ''X-Forwarded-Proto'' then [if r_tls r then ''https'' else ''http'']
     else if canonicalKey n = ''X-Forwarded-Host'' then [r_host r]
     else if canonicalKey n = ''X-Forwarded-For'' then
       [if headerValues out ''X-Forwarded-For'' \<noteq> []
        then joinStr '', '' (headerValues out ''X-Forwarded-For'') @ '', '' @ ip else ip]
     else headerValues out n)"
  using assms by (simp add: SetXForwarded_def Let_def)

lemma keep_values:
  "headerValues (if b then headerSet m v out else out) n =
     (if b \<and> canonicalKey n = canonicalKey m then [v] else headerValues out n)"
  by simp

lemma setForwardedHeaders_values:
  "headerValues (setForwardedHeaders (Some s) r out) n =
    (if canonicalKey n = ''X-Real-Ip'' then (case st_clientIP s of None \<Rightarrow> [] | Some a \<Rightarrow> [addrString a])
     else if st_trustedPeer s \<and> headerGet (r_header r) ''X-Forwarded-Proto'' \<noteq> [] \<and>
             canonicalKey n = ''X-Forwarded-Proto'' then [headerGet (r_header r) ''X-Forwarded-Proto'']
     else if st_trustedPeer s \<and> headerGet (r_header r) ''X-Forwarded-Host'' \<noteq> [] \<and>
             canonicalKey n = ''X-Forwarded-Host'' then [headerGet (r_header r) ''X-Forwarded-Host'']
     else headerValues (SetXForwarded r (if st_trustedPeer s
            then mput ''X-Forwarded-For'' (headerValues (r_header r) ''X-Forwarded-For'') out else out)) n)"
  by (cases "st_clientIP s"; cases "st_trustedPeer s") (simp_all add: setForwardedHeaders_def Let_def keep_values)

text \<open>C10: The upstream cannot be lied to about the client. Whatever headers the
  client sends, behind an untrusted peer \<open>X-Forwarded-For\<close> is the peer's
  address, \<open>X-Forwarded-Host\<close> the request's host, \<open>X-Forwarded-Proto\<close> the
  connection's scheme; from a trusted peer the first is extended by the peer and
  the others are passed on. \<open>X-Real-IP\<close> is always the resolved client address, and
  \<open>Forwarded\<close> is removed.\<close>

theorem outgoing_forwarded_headers:
  assumes "splitHostPort (r_remoteAddr r) = Some (ip, port)"
    and "h = r_header (outgoing config target (Some s) r)"
    and "prior = headerValues (r_header r) ''X-Forwarded-For''"
  shows "headerValues h ''X-Forwarded-For'' =
           [if st_trustedPeer s \<and> prior \<noteq> [] then joinStr '', '' prior @ '', '' @ ip else ip] \<and>
         headerValues h ''X-Forwarded-Host'' =
           [if st_trustedPeer s \<and> headerGet (r_header r) ''X-Forwarded-Host'' \<noteq> []
            then headerGet (r_header r) ''X-Forwarded-Host'' else r_host r] \<and>
         headerValues h ''X-Forwarded-Proto'' =
           [if st_trustedPeer s \<and> headerGet (r_header r) ''X-Forwarded-Proto'' \<noteq> []
            then headerGet (r_header r) ''X-Forwarded-Proto'' else if r_tls r then ''https'' else ''http''] \<and>
         headerValues h ''X-Real-IP'' = (case st_clientIP s of None \<Rightarrow> [] | Some a \<Rightarrow> [addrString a]) \<and>
         headerValues h ''Forwarded'' = []"
  using assms(1) unfolding assms(2,3)
  by (simp add: outgoing_header setForwardedHeaders_values SetXForwarded_values)

definition sample_proxy :: Proxy where
  "sample_proxy = \<lparr>upstream = ''http://127.0.0.1:3000'', stripPrefix_of = ''/api'', hostHeader = [],
     dialTimeout = 0, responseHeaderTimeout = 0, maxConns = 0, insecureSkipVerify = False\<rparr>"

text \<open>A client that claims another address and asks for its header to be dropped.\<close>

theorem outgoing_forwarded_headers_witness:
  "headerValues (r_header (outgoing sample_proxy (empty_url\<lparr>u_scheme := ''http'', u_host := ''127.0.0.1:3000''\<rparr>)
     (Some sample_state) (get_request ''a.test'' ''/api/x'' ''10.0.0.1:9''
       [(''X-Forwarded-For'', [''1.2.3.4'']), (''Connection'', [''X-Real-IP''])]))) ''X-Forwarded-For'' = [''10.0.0.1'']"
proof -
  have sp: "splitHostPort ''10.0.0.1:9'' = Some (''10.0.0.1'', ''9'')" by code_simp
  show ?thesis
    using outgoing_forwarded_headers [where r = "get_request ''a.test'' ''/api/x'' ''10.0.0.1:9''
       [(''X-Forwarded-For'', [''1.2.3.4'']), (''Connection'', [''X-Real-IP''])]" and s = sample_state,
       simplified, OF sp]
    by (simp add: sample_state_def)
qed

section \<open>Stripping prefixes\<close>

lemma cutPathPrefix_spec:
  "cutPathPrefix path prefix =
     (if path = prefix then (''/'', True)
      else if \<exists>rest. path = prefix @ CHR ''/'' # rest then (drop (length prefix) path, True)
      else (path, False))"
proof (cases "cutPrefix path prefix")
  case None
  then have "\<not> hasPrefix path prefix" by (simp add: cutPrefix_None_iff)
  then have "path \<noteq> prefix" "\<not> (\<exists>rest. path = prefix @ CHR ''/'' # rest)" by (auto simp: hasPrefix_iff)
  then show ?thesis using None by (simp add: cutPathPrefix_def)
next
  case (Some rest)
  then have "path = prefix @ rest" by (simp add: cutPrefix_Some_iff)
  then show ?thesis using Some by (cases rest) (auto simp: cutPathPrefix_def)
qed

lemma unescape_append: "CHR ''%'' \<notin> set p \<Longrightarrow> unescape (p @ s) = map_option ((@) p) (unescape s)"
  by (cases "unescape s"; induction p) auto

text \<open>
  The encoded path stays an encoding of the path, for prefixes written without
  escapes.
\<close>

definition url_sync :: "url \<Rightarrow> bool" where
  "url_sync u \<longleftrightarrow> u_rawpath u = [] \<or> unescape (u_rawpath u) = Some (u_path u)"

text \<open>\<open>strip_prefix\<close> removes whole path segments: of the paths that begin with the
  prefix only the prefix itself (which becomes \<open>/\<close>) and those that continue
  with a slash change, every other path is left as it is, and the escaped form
  of the path still decodes to the path.\<close>

theorem stripPathPrefix_segments:
  assumes "p = trimSuffix prefix ''/''" and "CHR ''%'' \<notin> set p" and "url_sync u"
  shows "u_path (stripPathPrefix prefix u) =
           (if u_path u = p then ''/''
            else if \<exists>rest. u_path u = p @ CHR ''/'' # rest then drop (length p) (u_path u)
            else u_path u) \<and>
         url_sync (stripPathPrefix prefix u)"
proof
  show "u_path (stripPathPrefix prefix u) =
           (if u_path u = p then ''/''
            else if \<exists>rest. u_path u = p @ CHR ''/'' # rest then drop (length p) (u_path u)
            else u_path u)"
    unfolding stripPathPrefix_def assms(1) by (auto simp: cutPathPrefix_spec Let_def)
next
  have raw: "u_rawpath u = [] \<or> unescape (u_rawpath u) = Some (u_path u)"
    using assms(3) by (simp add: url_sync_def)
  have "unescape (drop (length p) (u_rawpath u)) = Some (drop (length p) (u_path u))"
    if "u_rawpath u = p @ t" "unescape (u_rawpath u) = Some (u_path u)" for t
    using that unescape_append [OF assms(2), of t] by (auto dest: sym)
  moreover have "unescape p = Some p" using unescape_append [OF assms(2), of "[]"] by simp
  ultimately show "url_sync (stripPathPrefix prefix u)"
    using raw unfolding url_sync_def stripPathPrefix_def assms(1) [symmetric]
    by (auto simp: cutPathPrefix_spec Let_def)
qed

theorem stripPathPrefix_segments_witness:
  "u_path (stripPathPrefix ''/api/'' (empty_url\<lparr>u_path := ''/apis'', u_rawpath := ''/api%73''\<rparr>)) = ''/apis''"
proof -
  have "trimSuffix ''/api/'' ''/'' = ''/api''" by code_simp
  moreover have "url_sync (empty_url\<lparr>u_path := ''/apis'', u_rawpath := ''/api%73''\<rparr>)" by code_simp
  ultimately show ?thesis
    using stripPathPrefix_segments [of "''/api''" "''/api/''" "empty_url\<lparr>u_path := ''/apis'', u_rawpath := ''/api%73''\<rparr>"]
    by simp
qed

text \<open>
  The comment of \<open>stripPathPrefix\<close> promises that encoded characters survive. When
  the client also encodes a character of the prefix itself, the escaped form no
  longer starts with the prefix and is dropped: the slash of \<open>a%2Fb\<close> becomes a
  separator.
\<close>

lemma stripPathPrefix_drops_escapes:
  "escapedPath (stripPathPrefix ''/api'' (empty_url\<lparr>u_path := ''/api/a/b'', u_rawpath := ''/%61pi/a%2Fb''\<rparr>)) = ''/a/b'' \<and>
   escapedPath (stripPathPrefix ''/api'' (empty_url\<lparr>u_path := ''/api/a/b'', u_rawpath := ''/api/a%2Fb''\<rparr>)) = ''/a%2Fb''"
  by code_simp

section \<open>Answers\<close>

lemma exchange_ok_copyHeaders [simp]: "exchange_ok (copyHeaders h x) = exchange_ok x"
  by (simp add: exchange_ok_def copyHeaders_def on_tracker_def)

interpretation honest_proxy: honest_handler "proxyServe rt pl config target" for rt pl config target
  by unfold_locales
    (auto simp: proxyServe_def Let_def exchange_ok_writeHeader exchange_ok_writeBody
      split: prod.splits sum.splits)

text \<open>A failing upstream is answered, never ignored: the client gets 413 when its
  body exceeded the limit, 504 when the deadline passed, and otherwise 499 (for
  the log) when it went away and 502 when it did not, with no body; and a body
  that breaks off aborts the connection instead of ending normally.\<close>

theorem proxy_failure_status:
  assumes "isPrint (upgradeType (r_header r))" and "t_status (x_tracker x) = 0"
  shows "case rt pl (outgoing config target (x_state x) r) (x_shared x) of
      (Inl err, g) \<Rightarrow>
        fst (proxyServe rt pl config target r x) = Returned \<and>
        t_status (x_tracker (snd (proxyServe rt pl config target r x))) =
          (if err = MaxBytesExceeded then 413 else if err = DeadlineExceeded then 504
           else if r_cancelled r then 499 else 502) \<and>
        rw_body (x_tracker (snd (proxyServe rt pl config target r x))) = rw_body (x_tracker x)
    | (Inr u, g) \<Rightarrow>
        fst (proxyServe rt pl config target r x) = (if ur_complete u then Returned else Panicked AbortHandler)"
  using assms
  by (auto simp: proxyServe_def Let_def proxyErrorStatus_def writeHeader_def on_tracker_def tracker_WriteHeader_def
      under_writeHeader_def split: prod.split sum.split upstreamError.split)

definition sample_key :: transportKey where
  "sample_key = \<lparr>tk_socket = [], tk_insecure = False, tk_dialTimeout = 1, tk_responseHeaderTimeout = 1, tk_maxConns = 0\<rparr>"

definition sample_pool :: pool where
  "sample_pool = \<lparr>pool_id = 0, pool_transport = newTransport sample_key\<rparr>"

theorem proxy_failure_status_witness:
  "t_status (x_tracker (snd (proxyServe (\<lambda>pl r g. (Inl DeadlineExceeded, g))
     sample_pool sample_proxy (empty_url\<lparr>u_scheme := ''http'', u_host := ''127.0.0.1:3000''\<rparr>)
     (get_request ''a.test'' ''/api/x'' ''10.0.0.1:9'' []) (sample_exchange (0 :: nat))))) = 504"
proof -
  have p: "isPrint (upgradeType (r_header (get_request ''a.test'' ''/api/x'' ''10.0.0.1:9'' [])))" by code_simp
  have t: "t_status (x_tracker (sample_exchange (0 :: nat))) = 0" by (simp add: sample_exchange_def newTracker_def)
  show ?thesis
    using proxy_failure_status [OF p t, where rt = "\<lambda>pl r g. (Inl DeadlineExceeded, g)"
        and pl = sample_pool
        and config = sample_proxy and target = "empty_url\<lparr>u_scheme := ''http'', u_host := ''127.0.0.1:3000''\<rparr>"]
    by simp
qed

end
