(* ===== verification/Handlers.thy ===== *)
theory Handlers
  imports Proxy
begin

text \<open>
  \<open>handlers.go\<close>: the built-in handlers (files, respond, redirect) and the choice
  of a route's handler. \<open>http.Redirect\<close>, \<open>http.FileServer\<close> and \<open>http.Dir\<close> of Go's
  standard library are modelled; the operating system's open and stat, writing
  a file's content and listing a directory are parameters, as are extension
  handlers.
\<close>

section \<open>Redirects\<close>

definition hexEscapeNonASCII :: "string \<Rightarrow> string" where
  "hexEscapeNonASCII s = concat (map (\<lambda>c. if 128 \<le> (of_char c :: nat) then pct c else [c]) s)"

definition htmlEscape :: "string \<Rightarrow> string" where
  "htmlEscape s = concat (map (\<lambda>c.
     if c = CHR ''&'' then ''&amp;'' else if c = CHR ''<'' then ''&lt;'' else if c = CHR ''>'' then ''&gt;''
     else if c = CHR 0x22 then ''&#34;'' else if c = CHR 0x27 then ''&#39;'' else [c]) s)"

definition statusText :: "int \<Rightarrow> string" where
  "statusText c = (case map_of
     [(300, ''Multiple Choices''), (301, ''Moved Permanently''), (302, ''Found''), (303, ''See Other''),
      (304, ''Not Modified''), (305, ''Use Proxy''), (307, ''Temporary Redirect''), (308, ''Permanent Redirect''),
      (405, ''Method Not Allowed'')] c of Some t \<Rightarrow> t | None \<Rightarrow> [])"

text \<open>The \<open>Location\<close> that \<open>http.Redirect\<close> computes.\<close>

definition path_split_dir :: "string \<Rightarrow> string" where
  "path_split_dir p = (case lastIndexChar CHR ''/'' p of None \<Rightarrow> [] | Some i \<Rightarrow> take (Suc i) p)"

definition redirectTarget :: "request \<Rightarrow> string \<Rightarrow> string" where
  "redirectTarget r url =
     (case urlParse url of
        None \<Rightarrow> url
      | Some u \<Rightarrow>
          if u_scheme u = [] \<and> u_host u = [] then
            let old = (if u_path (r_url r) = [] then ''/'' else u_path (r_url r));
                url1 = (if hasPrefix url ''/'' then url else path_split_dir old @ url);
                (p, query) = (case indexChar CHR ''?'' url1 of None \<Rightarrow> (url1, []) | Some i \<Rightarrow> (take i url1, drop i url1));
                c = pathClean p
            in (if hasSuffix p ''/'' \<and> \<not> hasSuffix c ''/'' then c @ ''/'' else c) @ query
          else url)"

definition httpRedirect :: "request \<Rightarrow> string \<Rightarrow> int \<Rightarrow> 'g exchange \<Rightarrow> 'g exchange" where
  "httpRedirect r url code x =
     (let target = redirectTarget r url;
          hadCT = mhas (rw_header (x_tracker x)) ''Content-Type'';
          x1 = setHeader ''Location'' (hexEscapeNonASCII target) x;
          x2 = (if \<not> hadCT \<and> (r_method r = ''GET'' \<or> r_method r = ''HEAD'')
                then setHeader ''Content-Type'' ''text/html; charset=utf-8'' x1 else x1);
          x3 = writeHeader code x2
      in if \<not> hadCT \<and> r_method r = ''GET''
         then writeBody (''<a href='' @ [CHR 0x22] @ htmlEscape target @ [CHR 0x22] @ ''>'' @ statusText code @
                         ''</a>.'' @ [CHR 0x0A, CHR 0x0A]) x3
         else x3)"

definition redirectHandler :: "Redirect \<Rightarrow> 'g handler result" where
  "redirectHandler config =
     (let status = (if rd_status config = 0 then 308 else rd_status config) in
      if rd_to config = [] then Inl (Errorf ''redirect target is required'' [])
      else if status < 300 \<or> 399 < status then Inl (Errorf ''redirect status must be 3xx, got %d'' [itoa status])
      else if \<not> rd_preservePath config
      then Inr (\<lambda>r x. (Returned, httpRedirect r (rd_to config) status x))
      else Inr (\<lambda>r x. (Returned,
             httpRedirect r (trimSuffix (rd_to config) ''/'' @ requestURI (r_url r)) status x)))"

section \<open>Fixed responses\<close>

definition respondHandler :: "Respond \<Rightarrow> 'g handler result" where
  "respondHandler config =
     (let status = (if rs_status config = 0 then 200 else rs_status config) in
      if status < 200 \<or> 599 < status then Inl (Errorf ''invalid response status %d'' [itoa status])
      else let header = foldl (\<lambda>h (n, v). headerSet n v h) [] (rs_headers config)
           in Inr (\<lambda>r x. (Returned, writeBody (rs_body config) (writeHeader status
                (on_tracker (\<lambda>t. t\<lparr>rw_header := foldl (\<lambda>h (k, vs). mput k vs h) (rw_header t) header\<rparr>) x)))))"

section \<open>Files\<close>

datatype fsError = FsNotExist | FsPermission | FsOther

text \<open>An open file: the name the operating system opened, and what \<open>Stat\<close> answers.\<close>

record openFile =
  fl_name :: string
  fl_isDir :: bool
  fl_statFails :: bool

type_synonym fileSystem = "string \<Rightarrow> fsError + openFile"

text \<open>\<open>http.Dir\<close> over the operating system's open.\<close>

definition httpDir :: "fileSystem \<Rightarrow> string \<Rightarrow> fileSystem" where
  "httpDir os_open dir name = os_open (pathJoin dir (pathClean (CHR ''/'' # name)))"

definition hiddenPart :: "string \<Rightarrow> bool" where
  "hiddenPart part = (hasPrefix part ''.'' \<and> part \<noteq> ''.well-known'')"

definition hiddenName :: "string \<Rightarrow> bool" where
  "hiddenName name = list_ex hiddenPart (splitChar CHR ''/'' name)"

definition publicOpen :: "fileSystem \<Rightarrow> bool \<Rightarrow> fileSystem" where
  "publicOpen fs browse name =
     (if hiddenName name then Inl FsNotExist
      else case fs name of
        Inl e \<Rightarrow> Inl e
      | Inr f \<Rightarrow>
          if browse then Inr f
          else if fl_statFails f then Inl FsOther
          else if fl_isDir f then
            (case fs (pathJoin name ''index.html'') of Inl _ \<Rightarrow> Inl FsNotExist | Inr _ \<Rightarrow> Inr f)
          else Inr f)"

text \<open>\<open>http.FileServer\<close>; \<open>content\<close> and \<open>listing\<close> are \<open>serveContent\<close> and \<open>dirList\<close>.\<close>

definition localRedirect :: "request \<Rightarrow> string \<Rightarrow> 'g exchange \<Rightarrow> 'g exchange" where
  "localRedirect r p x =
     writeHeader 301 (setHeader ''Location''
       (p @ (if u_query (r_url r) \<noteq> [] then CHR ''?'' # u_query (r_url r) else [])) x)"

definition fsErrorPage :: "fsError \<Rightarrow> 'g exchange \<Rightarrow> 'g exchange" where
  "fsErrorPage e = (case e of
      FsNotExist \<Rightarrow> httpError ''404 page not found'' 404
    | FsPermission \<Rightarrow> httpError ''403 Forbidden'' 403
    | FsOther \<Rightarrow> httpError ''500 Internal Server Error'' 500)"

definition serveFile ::
  "(openFile \<Rightarrow> 'g handler) \<Rightarrow> (openFile \<Rightarrow> 'g handler) \<Rightarrow> fileSystem \<Rightarrow> string \<Rightarrow> 'g handler" where
  "serveFile content listing fs name r x =
     (let url = u_path (r_url r) in
      if hasSuffix url ''/index.html'' then (Returned, localRedirect r ''./'' x)
      else case fs name of
        Inl e \<Rightarrow> (Returned, fsErrorPage e x)
      | Inr f \<Rightarrow>
          if fl_statFails f then (Returned, fsErrorPage FsOther x)
          else if fl_isDir f \<and> \<not> hasSuffix url ''/'' then (Returned, localRedirect r (pathBase url @ ''/'') x)
          else if \<not> fl_isDir f \<and> hasSuffix url ''/'' then
            (if pathBase url = ''/'' \<or> pathBase url = ''.''
             then (Returned, httpError ''http: attempting to traverse a non-directory'' 500 x)
             else (Returned, localRedirect r (''../'' @ pathBase url) x))
          else if fl_isDir f then
            (case fs (trimSuffix name ''/'' @ ''/index.html'') of
               Inr ff \<Rightarrow> if fl_statFails ff \<or> fl_isDir ff then listing f r x else content ff r x
             | Inl _ \<Rightarrow> listing f r x)
          else content f r x)"

definition fileServer ::
  "(openFile \<Rightarrow> 'g handler) \<Rightarrow> (openFile \<Rightarrow> 'g handler) \<Rightarrow> fileSystem \<Rightarrow> 'g handler" where
  "fileServer content listing fs r x =
     (let upath = u_path (r_url r);
          r' = (if hasPrefix upath ''/'' then r else r\<lparr>r_url := (r_url r)\<lparr>u_path := CHR ''/'' # upath\<rparr>\<rparr>)
      in serveFile content listing fs (pathClean (u_path (r_url r'))) r' x)"

text \<open>What the handlers take from outside: the operating system and the standard library's writers.\<close>

record 'g env =
  e_open :: fileSystem
  e_stat :: "string \<Rightarrow> bool result"
  e_content :: "openFile \<Rightarrow> 'g handler"
  e_listing :: "openFile \<Rightarrow> 'g handler"
  e_roundTrip :: "'g round_trip"

definition filesHandler :: "'g env \<Rightarrow> Files \<Rightarrow> 'g handler result" where
  "filesHandler env config =
     (if f_root config = [] then Inl (Errorf ''files root is required'' [])
      else rbind (wrap_err (Wrapf ''files root: %w'' []) (e_stat env (f_root config))) (\<lambda>isDir.
        if \<not> isDir then Inl (Errorf ''files root %s is not a directory'' [f_root config])
        else let handler = fileServer (e_content env) (e_listing env)
                   (publicOpen (httpDir (e_open env) (f_root config)) (f_browse config))
             in Inr (if f_stripPrefix config \<noteq> [] then stripPrefix (f_stripPrefix config) handler else handler)))"

section \<open>Choosing the handler\<close>

text \<open>
  The parts of the snapshot under construction that handlers use: the
  transports of this and of the previous snapshot, and the next free pool.
\<close>

record transports =
  ts_now :: "(transportKey, pool) gomap"
  ts_prev :: "(transportKey, pool) gomap"
  ts_next :: nat

definition compiler_transport :: "transportKey \<Rightarrow> transports \<Rightarrow> pool \<times> transports" where
  "compiler_transport key ts =
     (case (case mget (ts_now ts) key of Some t \<Rightarrow> Some t | None \<Rightarrow> mget (ts_prev ts) key) of
        Some t \<Rightarrow> (t, ts\<lparr>ts_now := mput key t (ts_now ts)\<rparr>)
      | None \<Rightarrow>
          (let t = \<lparr>pool_id = ts_next ts, pool_transport = newTransport key\<rparr>
           in (t, ts\<lparr>ts_now := mput key t (ts_now ts), ts_next := Suc (ts_next ts)\<rparr>)))"

definition compiler_proxy :: "'g env \<Rightarrow> Proxy \<Rightarrow> transports \<Rightarrow> ('g handler \<times> transports) result" where
  "compiler_proxy env config ts =
     rbind (proxy_key config) (\<lambda>(target, key).
       let (pl, ts') = compiler_transport key ts
       in Inr (proxyServe (e_roundTrip env) pl config target, ts'))"

type_synonym 'g registry = "(string, json \<Rightarrow> 'g handler result) gomap"

definition unknownExtension :: "string \<Rightarrow> gerror" where
  "unknownExtension name = Errorf ''unknown field or handler %q'' [name]"

definition sortStrings :: "string list \<Rightarrow> string list" where
  "sortStrings ss = foldr (\<lambda>s acc. takeWhile (\<lambda>t. \<not> string_le s t) acc @ s # dropWhile (\<lambda>t. \<not> string_le s t) acc) ss []"

definition checkExtensions :: "'g registry \<Rightarrow> (string, json) gomap \<Rightarrow> unit result" where
  "checkExtensions reg extensions =
     rfold (\<lambda>name u. if mhas reg name then Inr () else Inl (unknownExtension name)) (sortStrings (mkeys extensions)) ()"

definition handler_count :: "Handler \<Rightarrow> nat" where
  "handler_count h = length (h_extensions h) +
     length (filter id [h_proxy h \<noteq> None, h_files h \<noteq> None, h_respond h \<noteq> None, h_redirect h \<noteq> None])"

definition compiler_handler ::
  "'g env \<Rightarrow> 'g registry \<Rightarrow> Handler \<Rightarrow> transports \<Rightarrow> ('g handler \<times> transports) result" where
  "compiler_handler env reg h ts =
     (if handler_count h \<noteq> 1
      then Inl (Errorf ''exactly one handler is required: proxy, files, respond, redirect or a registered extension'' [])
      else case h_proxy h of Some p \<Rightarrow> compiler_proxy env p ts
      | None \<Rightarrow> case h_files h of Some f \<Rightarrow> rbind (filesHandler env f) (\<lambda>hd. Inr (hd, ts))
      | None \<Rightarrow> case h_respond h of Some r \<Rightarrow> rbind (respondHandler r) (\<lambda>hd. Inr (hd, ts))
      | None \<Rightarrow> case h_redirect h of Some r \<Rightarrow> rbind (redirectHandler r) (\<lambda>hd. Inr (hd, ts))
      | None \<Rightarrow> case h_extensions h of
          (name, v) # _ \<Rightarrow>
            (case mget reg name of
               None \<Rightarrow> Inl (unknownExtension name)
             | Some factory \<Rightarrow> rbind (wrap_err (Wrapf ''%s: %w'' [name]) (factory v)) (\<lambda>hd. Inr (hd, ts)))
        | [] \<Rightarrow> Inl (Errorf ''unreachable'' []))"

section \<open>Hidden files\<close>

lemma splitChar_joinStr:
  "ss \<noteq> [] \<Longrightarrow> (\<And>s. s \<in> set ss \<Longrightarrow> c \<notin> set s) \<Longrightarrow> splitChar c (joinStr [c] ss) = ss"
proof (induction ss)
  case (Cons s ss)
  show ?case
  proof (cases ss)
    case Nil
    then show ?thesis using Cons.prems by (simp add: splitChar_no_sep)
  next
    case (Cons t ts)
    then show ?thesis using Cons.IH Cons.prems by (simp add: splitChar_append_sep)
  qed
qed simp

lemma clean_segs_plain:
  "(\<And>s. s \<in> set ss \<Longrightarrow> s \<noteq> ''.'' \<and> s \<noteq> ''..'') \<Longrightarrow> clean_segs rooted out ss = rev out @ filter (\<lambda>s. s \<noteq> []) ss"
  by (induction ss arbitrary: out) auto

lemma splitChar_pathClean:
  assumes "\<And>s. s \<in> set (splitChar CHR ''/'' p) \<Longrightarrow> s \<noteq> ''.'' \<and> s \<noteq> ''..''"
    and "hasPrefix p ''/'' \<or> (\<exists>s \<in> set (splitChar CHR ''/'' p). s \<noteq> [])"
  shows "set (splitChar CHR ''/'' (pathClean p)) \<subseteq> insert [] (set (splitChar CHR ''/'' p))"
proof -
  let ?ss = "filter (\<lambda>s. s \<noteq> []) (splitChar CHR ''/'' p)"
  have segs: "clean_segs b [] (splitChar CHR ''/'' p) = ?ss" for b
    using clean_segs_plain [OF assms(1)] by simp
  show ?thesis
  proof (cases "?ss = []")
    case True
    then have "hasPrefix p ''/''" using assms(2) by (auto simp: filter_empty_conv)
    then show ?thesis using True segs by (simp add: pathClean_def)
  next
    case False
    have split: "splitChar CHR ''/'' (joinStr ''/'' ?ss) = ?ss"
      by (rule splitChar_joinStr [OF False]) (auto dest: splitChar_parts)
    have "joinStr ''/'' ?ss \<noteq> []"
    proof
      assume "joinStr ''/'' ?ss = []"
      with split have "[] \<in> set ?ss" by (metis list.set_intros(1) splitChar.simps(1))
      then show False by simp
    qed
    then show ?thesis using split segs by (auto simp: pathClean_def Let_def)
  qed
qed

lemma splitChar_append: "splitChar c (a @ c # b) = splitChar c a @ splitChar c b"
  by (induction a) (auto split: list.split)

lemma hiddenPart_simps [simp]: "\<not> hiddenPart []" "hiddenPart ''.''" "hiddenPart ''..''"
  by (simp_all add: hiddenPart_def hasPrefix_def)

lemma hiddenName_pathClean:
  assumes "\<not> hiddenName p" and "hasPrefix p ''/'' \<or> (\<exists>s \<in> set (splitChar CHR ''/'' p). s \<noteq> [])"
  shows "\<not> hiddenName (pathClean p)"
proof -
  have visible: "\<not> hiddenPart s" if "s \<in> set (splitChar CHR ''/'' p)" for s
    using assms(1) that by (auto simp: hiddenName_def list_ex_iff)
  then have "s \<noteq> ''.'' \<and> s \<noteq> ''..''" if "s \<in> set (splitChar CHR ''/'' p)" for s
    using that by force
  from splitChar_pathClean [OF this assms(2)] show ?thesis
    using visible by (auto simp: hiddenName_def list_ex_iff)
qed

lemma hiddenName_append: "hiddenName (a @ CHR ''/'' # b) \<longleftrightarrow> hiddenName a \<or> hiddenName b"
  by (simp add: hiddenName_def splitChar_append)

lemma hiddenName_index:
  assumes "\<not> hiddenName name"
  shows "\<not> hiddenName (pathJoin name ''index.html'')"
proof -
  have "\<not> hiddenName ''index.html''" and ix: "splitChar CHR ''/'' ''index.html'' = [''index.html'']" by code_simp+
  then show ?thesis
    using assms hiddenName_pathClean [of "''index.html''"] hiddenName_pathClean [of "name @ CHR ''/'' # ''index.html''"]
    by (auto simp: pathJoin_def hiddenName_append splitChar_append)
qed

lemma hiddenName_httpDir:
  assumes "\<not> hiddenName name" and "\<not> hiddenName dir" and "hasPrefix dir ''/''"
  shows "\<not> hiddenName (pathJoin dir (pathClean (CHR ''/'' # name)))"
proof -
  have "\<not> hiddenName (pathClean (CHR ''/'' # name))"
    using assms(1) by (intro hiddenName_pathClean) (auto simp: hiddenName_def hasPrefix_def)
  moreover have "hasPrefix (dir @ x) ''/''" for x using assms(3) by (auto simp: hasPrefix_iff)
  moreover have "pathClean (CHR ''/'' # name) \<noteq> []" by (simp add: pathClean_def Let_def hasPrefix_def)
  moreover have "dir \<noteq> []" using assms(3) by (auto simp: hasPrefix_iff)
  ultimately show ?thesis
    using assms(2) by (simp add: pathJoin_def hiddenName_append hiddenName_pathClean)
qed

lemma publicOpen_hidden_only:
  assumes "\<And>name. \<not> hiddenName name \<Longrightarrow> fs1 name = fs2 name"
  shows "publicOpen fs1 browse = publicOpen fs2 browse"
  using assms by (auto simp: publicOpen_def fun_eq_iff hiddenName_index split: sum.split)


definition sample_files :: Files where
  "sample_files = \<lparr>f_root = ''/srv'', f_stripPrefix = [], f_browse = False\<rparr>"

text \<open>A directory with one page, and the same with a \<open>.env\<close> file in it.\<close>

definition sample_os :: "bool \<Rightarrow> fileSystem" where
  "sample_os secret name =
     (if name = ''/srv'' then Inr \<lparr>fl_name = name, fl_isDir = True, fl_statFails = False\<rparr>
      else if name = ''/srv/index.html'' \<or> secret \<and> name = ''/srv/.env''
      then Inr \<lparr>fl_name = name, fl_isDir = False, fl_statFails = False\<rparr> else Inl FsNotExist)"

definition sample_env :: "bool \<Rightarrow> nat env" where
  "sample_env secret = \<lparr>e_open = sample_os secret, e_stat = (\<lambda>d. Inr (d = ''/srv'')),
     e_content = (\<lambda>f r x. (Returned, writeBody (fl_name f) x)), e_listing = (\<lambda>f r x. (Returned, x)),
     e_roundTrip = (\<lambda>pl r g. (Inl DeadlineExceeded, g))\<rparr>"


section \<open>Absolute redirects\<close>

text \<open>A URL with a scheme is sent as it is, whatever follows.\<close>

lemma getScheme_https: "getScheme (''https:'' @ t) = Some (''https'', t)"
proof -
  have "takeWhile (\<lambda>c. is_alnum c \<or> c \<in> set ''+-.'') (''https:'' @ t) = ''https''"
    by (simp add: is_alnum_def)
  then show ?thesis by (simp add: getScheme_def hasPrefix_def is_alpha_def)
qed

lemma getScheme_http: "getScheme (''http:'' @ t) = Some (''http'', t)"
proof -
  have "takeWhile (\<lambda>c. is_alnum c \<or> c \<in> set ''+-.'') (''http:'' @ t) = ''http''"
    by (simp add: is_alnum_def)
  then show ?thesis by (simp add: getScheme_def hasPrefix_def is_alpha_def)
qed

lemma setPath_scheme: "setPath p u = Some v \<Longrightarrow> u_scheme v = u_scheme u"
  by (auto simp: setPath_def)

lemma urlParse_scheme:
  assumes "urlParse raw = Some u" and "getScheme (case cutChar CHR ''#'' raw of Some (a, _) \<Rightarrow> a | None \<Rightarrow> raw) = Some (sch, r0)"
    and "sch \<noteq> []"
  shows "u_scheme u \<noteq> []"
proof -
  let ?s = "case cutChar CHR ''#'' raw of Some (a, _) \<Rightarrow> a | None \<Rightarrow> raw"
  have "?s \<noteq> ''*''"
  proof
    assume star: "?s = ''*''"
    have "getScheme ''*'' = Some ([], ''*'')" by code_simp
    then show False using assms(2,3) unfolding star by simp
  qed
  moreover have "toLower sch \<noteq> []" using assms(3) by (simp add: toLower_def)
  ultimately show ?thesis
    using assms
    by (auto simp: urlParse_def Let_def split: if_splits option.splits prod.splits dest!: setPath_scheme)
qed

definition absolute_url :: "string \<Rightarrow> bool" where
  "absolute_url url \<longleftrightarrow> hasPrefix url ''https://'' \<or> hasPrefix url ''http://''"

lemma cut_fragment_prefix:
  assumes "CHR ''#'' \<notin> set p"
  shows "\<exists>t'. (case cutChar CHR ''#'' (p @ t) of Some (a, _) \<Rightarrow> a | None \<Rightarrow> p @ t) = p @ t'"
proof -
  have "cutChar CHR ''#'' (p @ t) = map_option (\<lambda>(a, b). (p @ a, b)) (cutChar CHR ''#'' t)"
    using assms by (cases "cutChar CHR ''#'' t"; induction p) auto
  then show ?thesis by (cases "cutChar CHR ''#'' t") auto
qed

lemma redirectTarget_absolute:
  assumes "absolute_url url"
  shows "redirectTarget r url = url"
proof (cases "urlParse url")
  case None
  then show ?thesis by (simp add: redirectTarget_def)
next
  case (Some u)
  let ?s = "case cutChar CHR ''#'' url of Some (a, _) \<Rightarrow> a | None \<Rightarrow> url"
  have "\<exists>t. url = ''https:'' @ t \<or> url = ''http:'' @ t"
    using assms by (auto simp: absolute_url_def hasPrefix_iff)
  then obtain t where "?s = ''https:'' @ t \<or> ?s = ''http:'' @ t"
    using cut_fragment_prefix [of "''https:''"] cut_fragment_prefix [of "''http:''"] by fastforce
  then have "\<exists>sch r0. getScheme ?s = Some (sch, r0) \<and> sch \<noteq> []"
    using getScheme_https getScheme_http by (metis list.discI)
  then have "u_scheme u \<noteq> []" using urlParse_scheme [OF Some] by blast
  then show ?thesis using Some by (simp add: redirectTarget_def)
qed

lemma httpRedirect_effect:
  assumes "t_status (x_tracker x) = 0" and "300 \<le> code"
  shows "t_status (x_tracker (httpRedirect r url code x)) = code"
    and "headerGet (rw_header (x_tracker (httpRedirect r url code x))) ''Location'' =
           hexEscapeNonASCII (redirectTarget r url)"
proof -
  have "canonicalKey ''Location'' = ''Location''" "canonicalKey ''Content-Type'' = ''Content-Type''" by code_simp+
  then show "t_status (x_tracker (httpRedirect r url code x)) = code"
    "headerGet (rw_header (x_tracker (httpRedirect r url code x))) ''Location'' = hexEscapeNonASCII (redirectTarget r url)"
    using assms by (simp_all add: httpRedirect_def Let_def writeBody_def writeHeader_def setHeader_def on_tracker_def
        tracker_Write_def tracker_WriteHeader_def under_write_def under_start_def under_writeHeader_def case_prod_beta)
qed

text \<open>A redirect with \<open>preserve_path\<close> to an absolute URL keeps what the client
  asked for: the status is the configured 3xx, 308 when none is given, and
  \<open>Location\<close> is the target, less a trailing slash, followed by the request's
  escaped path and query, never resolved against the request's own URL.\<close>

theorem redirect_preserves_request:
  assumes "redirectHandler config = Inr h" and "rd_preservePath config" and "t_status (x_tracker x) = 0"
    and "absolute_url (trimSuffix (rd_to config) ''/'')"
  shows "fst (h r x) = Returned \<and>
    t_status (x_tracker (snd (h r x))) = (if rd_status config = 0 then 308 else rd_status config) \<and>
    300 \<le> t_status (x_tracker (snd (h r x))) \<and> t_status (x_tracker (snd (h r x))) \<le> 399 \<and>
    headerGet (rw_header (x_tracker (snd (h r x)))) ''Location'' =
      hexEscapeNonASCII (trimSuffix (rd_to config) ''/'' @ requestURI (r_url r))"
proof -
  let ?status = "if rd_status config = 0 then 308 else rd_status config"
  let ?to = "trimSuffix (rd_to config) ''/'' @ requestURI (r_url r)"
  have abs: "absolute_url (trimSuffix (rd_to config) ''/'' @ t)" for t
    using assms(4) by (auto simp: absolute_url_def hasPrefix_iff)
  have range: "300 \<le> ?status" "?status \<le> 399" and "\<not> rd_to config = []"
    using assms(1) by (auto simp: redirectHandler_def Let_def split: if_splits)
  then have "h r x = (Returned, httpRedirect r ?to ?status x)"
    using assms(1,2) by (auto simp: redirectHandler_def Let_def split: if_splits)
  then show ?thesis
    using httpRedirect_effect [OF assms(3), of ?status r ?to] range redirectTarget_absolute [OF abs] by simp
qed

theorem redirect_preserves_request_witness:
  "headerGet (rw_header (x_tracker (httpRedirect (get_request ''a.test'' ''/x y'' ''10.0.0.1:9'' [])
     ''https://b.test/x%20y'' 308 (sample_exchange (0 :: nat))))) ''Location'' = ''https://b.test/x%20y''"
proof -
  let ?c = "\<lparr>rd_to = ''https://b.test/'', rd_status = 0, rd_preservePath = True\<rparr>"
  let ?h = "\<lambda>r x. (Returned, httpRedirect r (''https://b.test'' @ requestURI (r_url r)) 308 x)"
  have t: "trimSuffix ''https://b.test/'' ''/'' = ''https://b.test''" by code_simp
  have c: "redirectHandler ?c = Inr ?h" by (simp add: redirectHandler_def t)
  have x: "t_status (x_tracker (sample_exchange (0 :: nat))) = 0" by (simp add: sample_exchange_def newTracker_def)
  have a: "absolute_url (trimSuffix (rd_to ?c) ''/'')" by code_simp
  have u: "''https://b.test'' @ requestURI (empty_url\<lparr>u_path := ''/x y''\<rparr>) = ''https://b.test/x%20y''" by code_simp
  have e: "hexEscapeNonASCII ''https://b.test/x%20y'' = ''https://b.test/x%20y''" by code_simp
  show ?thesis
    using redirect_preserves_request [OF c _ x a, of "get_request ''a.test'' ''/x y'' ''10.0.0.1:9'' []"]
    by (simp only: fst_conv snd_conv get_request_simps u t e Redirect.select_convs simp_thms)
qed

section \<open>Sharing of transports\<close>

text \<open>
  Every pool belongs to one key and has a number of its own, in this snapshot
  and the previous one.
\<close>

definition has_pool :: "transports \<Rightarrow> transportKey \<Rightarrow> pool \<Rightarrow> bool" where
  "has_pool ts k p \<longleftrightarrow> mget (ts_now ts) k = Some p \<or> mget (ts_prev ts) k = Some p"

definition transports_ok :: "transports \<Rightarrow> bool" where
  "transports_ok ts \<longleftrightarrow>
     (\<forall>k p. has_pool ts k p \<longrightarrow> pool_id p < ts_next ts \<and> pool_transport p = newTransport k) \<and>
     (\<forall>k p k' p'. has_pool ts k p \<and> has_pool ts k' p' \<longrightarrow> (k = k' \<longleftrightarrow> pool_id p = pool_id p') \<and> (k = k' \<longrightarrow> p = p'))"

lemma pool_unique: "transports_ok ts \<Longrightarrow> has_pool ts k p \<Longrightarrow> has_pool ts k p' \<Longrightarrow> p = p'"
  unfolding transports_ok_def by blast

lemma pool_key: "transports_ok ts \<Longrightarrow> has_pool ts k p \<Longrightarrow> pool_id p < ts_next ts \<and> pool_transport p = newTransport k"
  unfolding transports_ok_def by blast

lemma transport_known:
  assumes "has_pool ts key t" and "transports_ok ts"
  shows "compiler_transport key ts = (t, ts\<lparr>ts_now := mput key t (ts_now ts)\<rparr>)"
proof -
  have "has_pool ts key t' \<Longrightarrow> t' = t" for t' using pool_unique [OF assms(2)] assms(1) by blast
  then have "mget (ts_now ts) key = None \<and> mget (ts_prev ts) key = Some t \<or> mget (ts_now ts) key = Some t"
    using assms(1) unfolding has_pool_def by (metis not_None_eq)
  then have "(case mget (ts_now ts) key of Some t \<Rightarrow> Some t | None \<Rightarrow> mget (ts_prev ts) key) = Some t"
    by (elim disjE conjE) simp_all
  then show ?thesis by (simp add: compiler_transport_def)
qed

lemma transport_new:
  assumes "\<And>t. \<not> has_pool ts key t"
  shows "compiler_transport key ts = (\<lparr>pool_id = ts_next ts, pool_transport = newTransport key\<rparr>,
    ts\<lparr>ts_now := mput key \<lparr>pool_id = ts_next ts, pool_transport = newTransport key\<rparr> (ts_now ts),
       ts_next := Suc (ts_next ts)\<rparr>)"
proof -
  have "mget (ts_now ts) key = None" "mget (ts_prev ts) key = None"
    using assms unfolding has_pool_def by (metis not_None_eq)+
  then show ?thesis by (simp add: compiler_transport_def Let_def)
qed



section \<open>Honest handlers\<close>

lemma exchange_ok_httpRedirect: "exchange_ok x \<Longrightarrow> exchange_ok (httpRedirect r url c x)"
  by (simp add: httpRedirect_def Let_def exchange_ok_writeBody exchange_ok_writeHeader)

lemma redirect_honest: "redirectHandler config = Inr h \<Longrightarrow> honest_handler h"
  by (auto simp: redirectHandler_def Let_def honest_handler_def exchange_ok_httpRedirect split: if_splits)

lemma respond_honest: "respondHandler config = Inr h \<Longrightarrow> honest_handler h"
  by (auto simp: respondHandler_def Let_def honest_handler_def exchange_ok_def on_tracker_def writeBody_def
      writeHeader_def tracker_ok_WriteHeader tracker_ok_Write split: if_splits)

end
