(* ===== verification/Observability.thy ===== *)
theory Observability
  imports Acme Handlers "HOL-Library.Multiset"
begin

text \<open>
  \<open>observability.go\<close> but for the response tracker (in \<open>Http\<close>): the record of a
  completed request, request metrics per listener, site and route, their
  snapshot, sum and Prometheus text, and request IDs. Go's \<open>uint64\<close> counters
  and the \<open>int64\<close> total duration are 64-bit words, so they wrap as the code's
  do. The map of routes is guarded by a mutex: \<open>observe\<close> and \<open>metrics_snapshot\<close> are atomic steps.
\<close>

record RequestRecord =
  rr_time :: int
  rr_duration :: duration
  rr_requestID :: string
  rr_listener :: string
  rr_site :: string
  rr_route :: string
  rr_clientIP :: string
  rr_method :: string
  rr_host :: string
  rr_path :: string
  rr_status :: int
  rr_bytes :: int
  rr_rejectedBy :: string
  rr_panicked :: bool

section \<open>Metrics\<close>

record RouteMetrics =
  rm_listener :: string
  rm_site :: string
  rm_route :: string
  rm_requests :: "64 word"
  rm_errors :: "64 word"
  rm_rejected :: "64 word"
  rm_responseBytes :: "64 word"
  rm_totalDuration :: "64 word"
  rm_statusClasses :: "64 word list"

type_synonym metricKey = "string \<times> string \<times> string"

record metrics =
  mt_active :: int
  mt_routes :: "(metricKey, RouteMetrics) gomap"

definition newMetrics :: metrics where
  "newMetrics = \<lparr>mt_active = 0, mt_routes = []\<rparr>"

definition zeroRoute :: "metricKey \<Rightarrow> RouteMetrics" where
  "zeroRoute key = \<lparr>rm_listener = fst key, rm_site = fst (snd key), rm_route = snd (snd key),
     rm_requests = 0, rm_errors = 0, rm_rejected = 0, rm_responseBytes = 0, rm_totalDuration = 0,
     rm_statusClasses = replicate 6 0\<rparr>"

definition metric_key :: "RequestRecord \<Rightarrow> metricKey" where
  "metric_key r = (rr_listener r, rr_site r, rr_route r)"

definition failed_record :: "RequestRecord \<Rightarrow> bool" where
  "failed_record r = (500 \<le> rr_status r \<or> rr_panicked r)"

definition count_record :: "RequestRecord \<Rightarrow> RouteMetrics \<Rightarrow> RouteMetrics" where
  "count_record r m =
     (let class = rr_status r div 100 in
      m\<lparr>rm_requests := rm_requests m + 1,
        rm_responseBytes := rm_responseBytes m + word_of_int (max (rr_bytes r) 0),
        rm_totalDuration := rm_totalDuration m + word_of_int (rr_duration r),
        rm_errors := (if failed_record r then rm_errors m + 1 else rm_errors m),
        rm_rejected := (if rr_rejectedBy r \<noteq> [] then rm_rejected m + 1 else rm_rejected m),
        rm_statusClasses := (if 1 \<le> class \<and> class \<le> 5
          then (rm_statusClasses m)[nat class := rm_statusClasses m ! nat class + 1] else rm_statusClasses m)\<rparr>)"

definition observe :: "RequestRecord \<Rightarrow> metrics \<Rightarrow> metrics" where
  "observe r m =
     (let key = metric_key r;
          route = (case mget (mt_routes m) key of None \<Rightarrow> zeroRoute key | Some route \<Rightarrow> route)
      in m\<lparr>mt_routes := mput key (count_record r route) (mt_routes m)\<rparr>)"

record MetricsSnapshot =
  ms_activeRequests :: int
  ms_routes :: "RouteMetrics list"
  ms_certificates :: "CertificateStatus list"

text \<open>\<open>cmp.Or\<close> of three comparisons: lexicographic in listener, site and route.\<close>

definition route_le :: "RouteMetrics \<Rightarrow> RouteMetrics \<Rightarrow> bool" where
  "route_le a b =
     (if rm_listener a \<noteq> rm_listener b then string_le (rm_listener a) (rm_listener b)
      else if rm_site a \<noteq> rm_site b then string_le (rm_site a) (rm_site b)
      else string_le (rm_route a) (rm_route b))"

fun insert_by :: "('a \<Rightarrow> 'a \<Rightarrow> bool) \<Rightarrow> 'a \<Rightarrow> 'a list \<Rightarrow> 'a list" where
  "insert_by le x [] = [x]"
| "insert_by le x (y # ys) = (if le x y then x # y # ys else y # insert_by le x ys)"

definition sort_by :: "('a \<Rightarrow> 'a \<Rightarrow> bool) \<Rightarrow> 'a list \<Rightarrow> 'a list" where
  "sort_by le xs = foldr (insert_by le) xs []"

definition metrics_snapshot :: "metrics \<Rightarrow> MetricsSnapshot" where
  "metrics_snapshot m = \<lparr>ms_activeRequests = mt_active m, ms_routes = sort_by route_le (map snd (mt_routes m)),
     ms_certificates = []\<rparr>"

definition add_route_metrics :: "RouteMetrics \<Rightarrow> RouteMetrics \<Rightarrow> RouteMetrics" where
  "add_route_metrics acc r = acc\<lparr>rm_requests := rm_requests acc + rm_requests r,
     rm_errors := rm_errors acc + rm_errors r, rm_rejected := rm_rejected acc + rm_rejected r,
     rm_responseBytes := rm_responseBytes acc + rm_responseBytes r,
     rm_totalDuration := rm_totalDuration acc + rm_totalDuration r,
     rm_statusClasses := map2 (+) (rm_statusClasses acc) (rm_statusClasses r)\<rparr>"

definition Total :: "MetricsSnapshot \<Rightarrow> RouteMetrics" where
  "Total s = foldl add_route_metrics (zeroRoute ([], [], [])) (ms_routes s)"

section \<open>The Prometheus text format\<close>

definition metricLabel :: "string \<Rightarrow> string" where
  "metricLabel s = concat (map (\<lambda>c. if c = CHR 0x5C then [CHR 0x5C, CHR 0x5C]
     else if c = CHR 0x0A then [CHR 0x5C, CHR ''n''] else if c = CHR 0x22 then [CHR 0x5C, CHR 0x22] else [c]) s)"

definition quote :: "string \<Rightarrow> string" where
  "quote s = CHR 0x22 # s @ [CHR 0x22]"

definition metricLabels :: "RouteMetrics \<Rightarrow> string" where
  "metricLabels r = ''listener='' @ quote (metricLabel (rm_listener r)) @ '',site='' @ quote (metricLabel (rm_site r)) @
     '',route='' @ quote (metricLabel (rm_route r))"

definition certificateLabels :: "CertificateStatus \<Rightarrow> string" where
  "certificateLabels c = ''names='' @ quote (metricLabel (joinStr '','' (st_names c))) @
     '',managed='' @ quote (if st_managed c then ''true'' else ''false'')"

definition newline :: string where
  "newline = [CHR 0x0A]"

definition metric_line :: "string \<Rightarrow> string \<Rightarrow> string \<Rightarrow> string" where
  "metric_line name labels v = name @ ''{'' @ labels @ ''} '' @ v @ newline"

definition type_line :: "string \<Rightarrow> string \<Rightarrow> string" where
  "type_line name kind = ''# TYPE '' @ name @ '' '' @ kind @ newline"

text \<open>
  \<open>fmt.Sprint\<close> of the duration's seconds, a \<open>float64\<close>, is the parameter \<open>seconds\<close>.
  \<open>fmt\<close> prints unsigned words in decimal; the expiry of a certificate is in
  seconds, 0 when there is none; the buffered writer's error is not modelled.
\<close>

definition WritePrometheus :: "(64 word \<Rightarrow> string) \<Rightarrow> MetricsSnapshot \<Rightarrow> string" where
  "WritePrometheus seconds s =
     (let uint_text = (\<lambda>w. itoa (uint (w :: 64 word)));
          counter = (\<lambda>(name, f). type_line name ''counter'' @
             concat (map (\<lambda>r. metric_line name (metricLabels r) (f r)) (ms_routes s)));
          classes = (\<lambda>r. concat (map (\<lambda>class. metric_line ''yabber_http_responses_total''
             (metricLabels r @ '',status_class='' @ quote (itoa_nat class @ ''xx''))
             (uint_text (rm_statusClasses r ! class))) [1, 2, 3, 4, 5]))
      in type_line ''yabber_http_active_requests'' ''gauge'' @
         ''yabber_http_active_requests '' @ itoa (ms_activeRequests s) @ newline @
         concat (map counter
           [(''yabber_http_requests_total'', \<lambda>r. uint_text (rm_requests r)),
            (''yabber_http_errors_total'', \<lambda>r. uint_text (rm_errors r)),
            (''yabber_http_rejected_total'', \<lambda>r. uint_text (rm_rejected r)),
            (''yabber_http_response_bytes_total'', \<lambda>r. uint_text (rm_responseBytes r)),
            (''yabber_http_request_duration_seconds_total'', \<lambda>r. seconds (rm_totalDuration r))]) @
         type_line ''yabber_http_responses_total'' ''counter'' @
         concat (map classes (ms_routes s)) @
         type_line ''yabber_certificate_expiry_timestamp_seconds'' ''gauge'' @
         concat (map (\<lambda>c. metric_line ''yabber_certificate_expiry_timestamp_seconds'' (certificateLabels c)
           (case st_notAfter c of None \<Rightarrow> ''0'' | Some t \<Rightarrow> itoa (t div 1000000000))) (ms_certificates s)) @
         type_line ''yabber_certificate_acme_error'' ''gauge'' @
         concat (map (\<lambda>c. metric_line ''yabber_certificate_acme_error'' (certificateLabels c)
           (if st_error c \<noteq> None then ''1'' else ''0'')) (filter st_managed (ms_certificates s))))"

section \<open>Request IDs\<close>

definition validRequestID :: "string \<Rightarrow> bool" where
  "validRequestID s = (s \<noteq> [] \<and> length s \<le> 128 \<and> list_all (\<lambda>c. 32 < (of_char c :: nat) \<and> of_char c \<le> (126 :: nat)) s)"

text \<open>\<open>random\<close> is what \<open>rand.Text\<close> returns.\<close>

definition requestID :: "string \<Rightarrow> request \<Rightarrow> bool \<Rightarrow> string" where
  "requestID random r trusted =
     (if trusted \<and> validRequestID (headerGet (r_header r) ''X-Request-ID'')
      then headerGet (r_header r) ''X-Request-ID'' else random)"

section \<open>What the metrics count\<close>

text \<open>The specification: what one listener, site and route adds up to, from the records of its requests.\<close>

definition class_count :: "RequestRecord list \<Rightarrow> nat \<Rightarrow> 64 word" where
  "class_count rs c = (if c = 0 then 0 else of_nat (length (filter (\<lambda>r. rr_status r div 100 = int c) rs)))"

definition tally :: "metricKey \<Rightarrow> RequestRecord list \<Rightarrow> RouteMetrics" where
  "tally key rs = \<lparr>rm_listener = fst key, rm_site = fst (snd key), rm_route = snd (snd key),
     rm_requests = of_nat (length rs), rm_errors = of_nat (length (filter failed_record rs)),
     rm_rejected = of_nat (length (filter (\<lambda>r. rr_rejectedBy r \<noteq> []) rs)),
     rm_responseBytes = word_of_int (sum_list (map (\<lambda>r. max (rr_bytes r) 0) rs)),
     rm_totalDuration = word_of_int (sum_list (map rr_duration rs)),
     rm_statusClasses = map (class_count rs) [0..<6]\<rparr>"

lemma tally_Nil: "tally key [] = zeroRoute key"
proof -
  have "map (class_count []) [0..<6] = replicate 6 0" by (rule nth_equalityI) (auto simp: class_count_def)
  then show ?thesis by (simp add: tally_def zeroRoute_def del: upt_rec_numeral)
qed

lemma class_count_snoc:
  "class_count (rs @ [r]) c = (if c \<noteq> 0 \<and> rr_status r div 100 = int c then class_count rs c + 1 else class_count rs c)"
  by (simp add: class_count_def)

lemma update_class:
  assumes "\<And>c. g c = (if c \<noteq> 0 \<and> k = int c then f c + (1 :: 64 word) else f c)"
  shows "(if 1 \<le> k \<and> k < int n then (map f [0..<n])[nat k := map f [0..<n] ! nat k + 1] else map f [0..<n]) = map g [0..<n]"
proof (cases "1 \<le> k \<and> k < int n")
  case True
  then have "nat k < n" by arith
  show ?thesis
    by (rule nth_equalityI) (use True \<open>nat k < n\<close> in \<open>auto simp: nth_list_update assms\<close>)
next
  case False
  have "map f [0..<n] = map g [0..<n]" by (rule map_cong) (use False in \<open>auto simp: assms\<close>)
  then show ?thesis using False by (simp only: if_False)
qed

lemma count_classes:
  "(if 1 \<le> rr_status r div 100 \<and> rr_status r div 100 \<le> 5
    then (map (class_count rs) [0..<6])[nat (rr_status r div 100) := map (class_count rs) [0..<6] ! nat (rr_status r div 100) + 1]
    else map (class_count rs) [0..<6]) = map (class_count (rs @ [r])) [0..<6]"
proof -
  have "rr_status r div 100 \<le> 5 \<longleftrightarrow> rr_status r div 100 < int 6" by linarith
  then show ?thesis
    using update_class [where n = 6, OF class_count_snoc [of rs r]] by (simp only:)
qed

lemma count_record_fields:
  "rm_listener (count_record r m) = rm_listener m" "rm_site (count_record r m) = rm_site m"
  "rm_route (count_record r m) = rm_route m" "rm_requests (count_record r m) = rm_requests m + 1"
  "rm_errors (count_record r m) = (if failed_record r then rm_errors m + 1 else rm_errors m)"
  "rm_rejected (count_record r m) = (if rr_rejectedBy r \<noteq> [] then rm_rejected m + 1 else rm_rejected m)"
  "rm_responseBytes (count_record r m) = rm_responseBytes m + word_of_int (max (rr_bytes r) 0)"
  "rm_totalDuration (count_record r m) = rm_totalDuration m + word_of_int (rr_duration r)"
  "rm_statusClasses (count_record r m) =
     (if 1 \<le> rr_status r div 100 \<and> rr_status r div 100 \<le> 5
      then (rm_statusClasses m)[nat (rr_status r div 100) := rm_statusClasses m ! nat (rr_status r div 100) + 1]
      else rm_statusClasses m)"
  by (simp_all add: count_record_def Let_def)

lemma count_tally: "count_record r (tally key rs) = tally key (rs @ [r])"
proof (rule RouteMetrics.equality)
  show "rm_statusClasses (count_record r (tally key rs)) = rm_statusClasses (tally key (rs @ [r]))"
    unfolding count_record_fields tally_def RouteMetrics.simps by (rule count_classes)
qed (simp_all add: count_record_fields(1-8) tally_def)

lemma observe_key: "mget (mt_routes (observe r m)) key =
   (if metric_key r = key
    then Some (count_record r (case mget (mt_routes m) key of None \<Rightarrow> zeroRoute key | Some route \<Rightarrow> route))
    else mget (mt_routes m) key)"
  by (auto simp: observe_def Let_def)

text \<open>The metrics of a listener, site and route are the tally of the records of its
  requests, modulo the width of the counters: how many there were, failed or were
  rejected by a policy, the bytes and time they took, and how many had each class of
  status. There is an entry for exactly the keys that occurred.\<close>

theorem metrics_tally:
  "mget (mt_routes (fold observe rs newMetrics)) key =
     (let matching = filter (\<lambda>r. metric_key r = key) rs in if matching = [] then None else Some (tally key matching))"
proof (induction rs rule: rev_induct)
  case Nil
  then show ?case by (simp add: newMetrics_def)
next
  case (snoc r rs)
  have "count_record r (zeroRoute key) = tally key [r]" using count_tally [of r key "[]"] by (simp add: tally_Nil)
  then show ?case using snoc by (auto simp: observe_key Let_def count_tally)
qed

text \<open>Sums over the routes: a snapshot only reorders them, an observation changes one.\<close>

lemma mset_sort_by: "mset (sort_by le xs) = mset xs"
proof -
  have "mset (insert_by le x ys) = add_mset x (mset ys)" for x ys by (induction ys) auto
  then show ?thesis unfolding sort_by_def by (induction xs) auto
qed

lemma set_sort_by: "set (sort_by le xs) = set xs"
  by (metis mset_sort_by set_mset_mset)

lemma sum_sort_by: "sum_list (map f (sort_by le xs)) = (sum_list (map f xs) :: 'a :: comm_monoid_add)"
  by (metis mset_map mset_sort_by sum_mset_sum_list)

lemma sum_mput:
  "distinct (mkeys m) \<Longrightarrow> sum_list (map (f \<circ> snd) (mput k v m)) =
   sum_list (map (f \<circ> snd) m) - (case mget m k of None \<Rightarrow> 0 | Some w \<Rightarrow> f w) + (f v :: 'a :: ab_group_add)"
proof (induction m)
  case (Cons p m)
  then show ?case by (cases "fst p = k") (auto split: option.split)
qed simp

lemma observe_sum:
  assumes "\<And>m. f (count_record r m) = f m + (d :: 64 word)" and "\<And>k. f (zeroRoute k) = 0"
    and "distinct (mkeys (mt_routes m))"
  shows "sum_list (map (f \<circ> snd) (mt_routes (observe r m))) = sum_list (map (f \<circ> snd) (mt_routes m)) + d"
  using assms by (auto simp: observe_def Let_def sum_mput split: option.split)

lemma observe_distinct: "distinct (mkeys (mt_routes (fold observe rs newMetrics)))"
proof (induction rs rule: rev_induct)
  case (snoc r rs)
  then show ?case by (simp add: observe_def Let_def)
qed (simp add: newMetrics_def)

lemma observe_sums:
  assumes "\<And>r m. f (count_record r m) = f m + d r" and "\<And>k. f (zeroRoute k) = (0 :: 64 word)"
  shows "sum_list (map f (ms_routes (metrics_snapshot (fold observe rs newMetrics)))) = sum_list (map d rs)"
proof -
  have "sum_list (map (f \<circ> snd) (mt_routes (fold observe rs newMetrics))) = sum_list (map d rs)"
  proof (induction rs rule: rev_induct)
    case (snoc r rs)
    then show ?case using observe_sum [of f r "d r", OF assms observe_distinct [of rs]] by (simp add: comp_def)
  qed (simp add: newMetrics_def)
  then show ?thesis by (simp add: metrics_snapshot_def sum_sort_by comp_def)
qed

lemma Total_fields:
  "rm_requests (Total s) = sum_list (map rm_requests (ms_routes s))"
  "rm_errors (Total s) = sum_list (map rm_errors (ms_routes s))"
  "rm_rejected (Total s) = sum_list (map rm_rejected (ms_routes s))"
  "rm_responseBytes (Total s) = sum_list (map rm_responseBytes (ms_routes s))"
  "rm_totalDuration (Total s) = sum_list (map rm_totalDuration (ms_routes s))"
proof -
  have gen: "f (foldl add_route_metrics acc rs) = f acc + sum_list (map f rs)"
    if "\<And>a b. f (add_route_metrics a b) = f a + (f b :: 64 word)" for f acc rs
    using that by (induction rs arbitrary: acc) (simp_all add: add.assoc)
  show "rm_requests (Total s) = sum_list (map rm_requests (ms_routes s))"
    "rm_errors (Total s) = sum_list (map rm_errors (ms_routes s))"
    "rm_rejected (Total s) = sum_list (map rm_rejected (ms_routes s))"
    "rm_responseBytes (Total s) = sum_list (map rm_responseBytes (ms_routes s))"
    "rm_totalDuration (Total s) = sum_list (map rm_totalDuration (ms_routes s))"
    by (simp_all add: Total_def gen add_route_metrics_def zeroRoute_def)
qed

lemma sum_list_indicator: "sum_list (map (\<lambda>r. if P r then 1 else 0) rs) = of_nat (length (filter P rs))"
  by (induction rs) auto

text \<open>The totals do not depend on how requests spread over listeners, sites and routes:
  they count every completed request once, every failure and rejection, and add up
  all bytes and durations, modulo the width of the counters.\<close>

theorem metrics_total:
  "let t = Total (metrics_snapshot (fold observe rs newMetrics)) in
     rm_requests t = of_nat (length rs) \<and> rm_errors t = of_nat (length (filter failed_record rs)) \<and>
     rm_rejected t = of_nat (length (filter (\<lambda>r. rr_rejectedBy r \<noteq> []) rs)) \<and>
     rm_responseBytes t = word_of_int (sum_list (map (\<lambda>r. max (rr_bytes r) 0) rs)) \<and>
     rm_totalDuration t = word_of_int (sum_list (map rr_duration rs))"
proof -
  have words: "sum_list (map (\<lambda>r. word_of_int (g r)) rs) = (word_of_int (sum_list (map g rs)) :: 64 word)" for g :: "RequestRecord \<Rightarrow> int"
    by (induction rs) simp_all
  have "sum_list (map (\<lambda>r. 1) rs) = (of_nat (length rs) :: 64 word)" by (induction rs) simp_all
  moreover note observe_sums [of rm_requests "\<lambda>r. 1" rs] observe_sums [of rm_errors "\<lambda>r. if failed_record r then 1 else 0" rs]
    observe_sums [of rm_rejected "\<lambda>r. if rr_rejectedBy r \<noteq> [] then 1 else 0" rs]
    observe_sums [of rm_responseBytes "\<lambda>r. word_of_int (max (rr_bytes r) 0)" rs]
    observe_sums [of rm_totalDuration "\<lambda>r. word_of_int (rr_duration r)" rs]
  ultimately show ?thesis
    by (simp add: Let_def Total_fields count_record_fields zeroRoute_def words sum_list_indicator)
qed

text \<open>The total duration is an \<open>int64\<close> of nanoseconds and wraps: two requests of 150 years, or ten
  thousand connections open for eleven days, make it negative.\<close>

lemma totalDuration_wraps: "sint (word_of_int (10000 * (11 * 24 * hour)) :: 64 word) < 0"
  by code_simp

section \<open>The text format is not open to injection\<close>

text \<open>Reading a quoted label value as Prometheus does, up to the closing quote.\<close>

fun scan_label :: "string \<Rightarrow> (string \<times> string) option" where
  "scan_label [] = None"
| "scan_label (c # cs) =
     (if c = CHR 0x22 then Some ([], cs)
      else if c = CHR 0x0A then None
      else if c = CHR 0x5C then
        (case cs of
           [] \<Rightarrow> None
         | d # ds \<Rightarrow> map_option (\<lambda>(v, rest). ((if d = CHR ''n'' then CHR 0x0A else d) # v, rest)) (scan_label ds))
      else map_option (\<lambda>(v, rest). (c # v, rest)) (scan_label cs))"

text \<open>A label value is read back as it was: scanning the escaped value and what follows
  its closing quote gives the value and what follows, for every name a configuration or
  request can bring in, quotes, backslashes and line breaks included; the escaped value has no line break.\<close>

theorem metricLabel_roundtrip:
  "scan_label (metricLabel s @ CHR 0x22 # rest) = Some (s, rest) \<and> CHR 0x0A \<notin> set (metricLabel s)"
  by (induction s) (auto simp: metricLabel_def)

text \<open>A request ID holds only visible ASCII characters, at most 128 of them, when the
  random text does, so that none can break a log line or a header; and the client's own
  header is used only when the peer is a trusted proxy.\<close>

theorem requestID_safe:
  assumes "validRequestID random"
  shows "validRequestID (requestID random r trusted) \<and> (\<not> trusted \<longrightarrow> requestID random r trusted = random)"
  using assms by (simp add: requestID_def)

theorem requestID_safe_witness:
  "requestID ''ABC'' (get_request ''a.test'' ''/'' ''10.0.0.1:9'' [(''X-Request-Id'', [''evil''])]) False = ''ABC''"
proof -
  have "validRequestID ''ABC''" by code_simp
  from requestID_safe [OF this] show ?thesis by blast
qed

end
