(* ===== verification/Mux.thy ===== *)
theory Mux
  imports Handlers
begin

text \<open>
  \<open>http.ServeMux\<close> of Go's standard library as \<open>compile.go\<close> uses it: parsing of
  patterns without a host, the conflict check of registration, the routing tree
  (its paths as lists of keys), path cleaning and redirects. \<open>register\<close> is the
  function of \<open>compile.go\<close> that turns the panics of registration into errors.
\<close>

section \<open>Patterns\<close>

datatype segment = Lit string | Wild string | Multi string

record pattern =
  pt_method :: string
  pt_segs :: "segment list"

definition isValidWildcardName :: "string \<Rightarrow> bool" where
  "isValidWildcardName s =
     (s \<noteq> [] \<and> \<not> is_digit (hd s) \<and> list_all (\<lambda>c. is_alnum c \<or> c = CHR ''_'') s)"

definition pathUnescape :: "string \<Rightarrow> string" where
  "pathUnescape s = (case unescape s of None \<Rightarrow> s | Some t \<Rightarrow> t)"

text \<open>The segments between the slashes; the last is empty after a trailing slash.\<close>

fun parseSegments :: "string list \<Rightarrow> string list \<Rightarrow> segment list result" where
  "parseSegments names [] = Inr []"
| "parseSegments names (s # ss) =
     (if s = [] \<and> ss = [] then Inr [Multi []]
      else if CHR ''{'' \<notin> set s
      then rbind (parseSegments names ss) (\<lambda>r. Inr (Lit (pathUnescape s) # r))
      else if hd s \<noteq> CHR ''{'' then Inl (Errorf ''bad wildcard segment (must start with '{')'' [])
      else if last s \<noteq> CHR ''}'' then Inl (Errorf ''bad wildcard segment (must end with '}')'' [])
      else let name0 = butlast (tl s); multi = hasSuffix name0 ''...''; name = trimSuffix name0 ''...''
           in if name0 = ''$'' then (if ss \<noteq> [] then Inl (Errorf ''{$} not at end'' []) else Inr [Lit ''/''])
              else if multi \<and> ss \<noteq> [] then Inl (Errorf ''{...} wildcard not at end'' [])
              else if name = [] then Inl (Errorf ''empty wildcard'' [])
              else if \<not> isValidWildcardName name then Inl (Errorf ''bad wildcard name %q'' [name])
              else if name \<in> set names then Inl (Errorf ''duplicate wildcard name %q'' [name])
              else rbind (parseSegments (name # names) ss)
                     (\<lambda>r. Inr ((if multi then Multi name else Wild name) # r)))"

definition validMethod :: "string \<Rightarrow> bool" where
  "validMethod m = (m \<noteq> [] \<and> list_all tokenChar m)"

definition is_blank :: "char \<Rightarrow> bool" where
  "is_blank c = (c = CHR '' '' \<or> c = CHR 0x09)"

definition parsePattern :: "string \<Rightarrow> pattern result" where
  "parsePattern s =
     (let m = takeWhile (\<lambda>c. \<not> is_blank c) s; found = (m \<noteq> s);
          meth = (if found then m else []);
          rest = (if found then dropWhile is_blank (drop (length m) s) else s)
      in if s = [] then Inl (Errorf ''empty pattern'' [])
         else if meth \<noteq> [] \<and> \<not> validMethod meth then Inl (Errorf ''invalid method %q'' [meth])
         else if CHR ''/'' \<notin> set rest then Inl (Errorf ''host/path missing /'' [])
         else if \<not> hasPrefix rest ''/'' then Inl (Errorf ''host patterns are not used'' [])
         else if meth \<noteq> [] \<and> meth \<noteq> ''CONNECT'' \<and> rest \<noteq> cleanPath rest
         then Inl (Errorf ''non-CONNECT pattern with unclean path can never match'' [])
         else rbind (parseSegments [] (splitChar CHR ''/'' (drop 1 rest)))
                (\<lambda>segs. Inr \<lparr>pt_method = meth, pt_segs = segs\<rparr>))"

section \<open>Conflicts\<close>

datatype relationship = Equivalent | MoreGeneral | MoreSpecific | Disjoint | Overlaps

fun combineRelationships :: "relationship \<Rightarrow> relationship \<Rightarrow> relationship" where
  "combineRelationships Equivalent r = r"
| "combineRelationships Disjoint r = Disjoint"
| "combineRelationships Overlaps r = (if r = Disjoint then Disjoint else Overlaps)"
| "combineRelationships MoreGeneral r =
     (if r = Equivalent then MoreGeneral else if r = MoreSpecific then Overlaps else r)"
| "combineRelationships MoreSpecific r =
     (if r = Equivalent then MoreSpecific else if r = MoreGeneral then Overlaps else r)"

fun compareSegments :: "segment \<Rightarrow> segment \<Rightarrow> relationship" where
  "compareSegments (Multi _) (Multi _) = Equivalent"
| "compareSegments (Multi _) _ = MoreGeneral"
| "compareSegments _ (Multi _) = MoreSpecific"
| "compareSegments (Wild _) (Wild _) = Equivalent"
| "compareSegments (Wild _) (Lit t) = (if t = ''/'' then Disjoint else MoreGeneral)"
| "compareSegments (Lit s) (Wild _) = (if s = ''/'' then Disjoint else MoreSpecific)"
| "compareSegments (Lit s) (Lit t) = (if s = t then Equivalent else Disjoint)"

definition endsMulti :: "segment list \<Rightarrow> bool" where
  "endsMulti ss = (case ss of [] \<Rightarrow> False | _ \<Rightarrow> (case last ss of Multi _ \<Rightarrow> True | _ \<Rightarrow> False))"

text \<open>The loop of \<open>comparePaths\<close>; \<open>m1\<close> and \<open>m2\<close> say whether the whole paths end in a multi wildcard.\<close>

fun comparePaths_loop :: "bool \<Rightarrow> bool \<Rightarrow> relationship \<Rightarrow> segment list \<Rightarrow> segment list \<Rightarrow> relationship" where
  "comparePaths_loop m1 m2 rel (s # ss) (t # ts) =
     (let rel' = combineRelationships rel (compareSegments s t)
      in if rel' = Disjoint then Disjoint else comparePaths_loop m1 m2 rel' ss ts)"
| "comparePaths_loop m1 m2 rel [] [] = rel"
| "comparePaths_loop m1 m2 rel [] (t # ts) = (if m1 then combineRelationships rel MoreGeneral else Disjoint)"
| "comparePaths_loop m1 m2 rel (s # ss) [] = (if m2 then combineRelationships rel MoreSpecific else Disjoint)"

definition comparePaths :: "segment list \<Rightarrow> segment list \<Rightarrow> relationship" where
  "comparePaths p q =
     (if length p \<noteq> length q \<and> \<not> endsMulti p \<and> \<not> endsMulti q then Disjoint
      else comparePaths_loop (endsMulti p) (endsMulti q) Equivalent p q)"

definition compareMethods :: "string \<Rightarrow> string \<Rightarrow> relationship" where
  "compareMethods m n =
     (if m = n then Equivalent else if m = [] then MoreGeneral else if n = [] then MoreSpecific
      else if m = ''GET'' \<and> n = ''HEAD'' then MoreGeneral
      else if n = ''GET'' \<and> m = ''HEAD'' then MoreSpecific else Disjoint)"

definition comparePatterns :: "pattern \<Rightarrow> pattern \<Rightarrow> relationship" where
  "comparePatterns p q =
     (let m = compareMethods (pt_method p) (pt_method q)
      in if m = Disjoint then Disjoint else combineRelationships m (comparePaths (pt_segs p) (pt_segs q)))"

definition conflictsWith :: "pattern \<Rightarrow> pattern \<Rightarrow> bool" where
  "conflictsWith p q = (comparePatterns p q = Equivalent \<or> comparePatterns p q = Overlaps)"

section \<open>The routing tree\<close>

text \<open>
  A pattern's place in the tree is the list of keys from its method's node: a
  literal's text, the empty string for a wildcard, or the multi child.
\<close>

datatype key = K string | KMulti

fun segKey :: "segment \<Rightarrow> key" where
  "segKey (Lit s) = K s"
| "segKey (Wild _) = K []"
| "segKey (Multi _) = KMulti"

type_synonym 'h entry = "pattern \<times> 'h"

type_synonym 'h serveMux = "'h entry list"

definition samePlace :: "pattern \<Rightarrow> pattern \<Rightarrow> bool" where
  "samePlace p q = (pt_method p = pt_method q \<and> map segKey (pt_segs p) = map segKey (pt_segs q))"

definition mux_register :: "string \<Rightarrow> 'h \<Rightarrow> 'h serveMux \<Rightarrow> 'h serveMux result" where
  "mux_register s h mux =
     (if s = [] then Inl (Errorf ''http: invalid pattern'' [])
      else rbind (wrap_err (Wrapf ''parsing %q: %w'' [s]) (parsePattern s)) (\<lambda>p.
        if list_ex (\<lambda>(q, _). conflictsWith p q) mux then Inl (Errorf ''pattern %q conflicts'' [s])
        else if list_ex (\<lambda>(q, _). samePlace p q) mux then Inl (Errorf ''non-nil pattern'' [])
        else Inr (mux @ [(p, h)])))"

text \<open>\<open>register\<close> of \<open>compile.go\<close>: the recovered panic is the error.\<close>

definition register :: "'h serveMux \<Rightarrow> string \<Rightarrow> 'h \<Rightarrow> 'h serveMux result" where
  "register mux pattern h = wrap_err (Wrapf ''%v'' []) (mux_register pattern h mux)"

text \<open>The segments of a path as matching walks them; a trailing slash is a segment \<open>/\<close> of its own.\<close>

fun walkSegs :: "string list \<Rightarrow> string list" where
  "walkSegs [] = []"
| "walkSegs (s # ss) = (if s = [] \<and> ss = [] then [''/''] else pathUnescape s # walkSegs ss)"

definition pathSegs :: "string \<Rightarrow> string list" where
  "pathSegs path = (if path = [] then [] else walkSegs (splitChar CHR ''/'' (drop 1 path)))"

definition child :: "string \<Rightarrow> (key list \<times> 'e) list \<Rightarrow> (key list \<times> 'e) list" where
  "child s es = List.map_filter (\<lambda>(ks, e). case ks of K t # ks' \<Rightarrow> if t = s then Some (ks', e) else None | _ \<Rightarrow> None) es"

definition atNode :: "key list \<Rightarrow> (key list \<times> 'e) list \<Rightarrow> 'e option" where
  "atNode ks es = (case filter (\<lambda>(ks', _). ks' = ks) es of [] \<Rightarrow> None | (_, e) # _ \<Rightarrow> Some e)"

fun orElse :: "'a option \<Rightarrow> 'a option \<Rightarrow> 'a option" where
  "orElse (Some a) b = Some a"
| "orElse None b = b"

fun matchPath :: "(key list \<times> 'e) list \<Rightarrow> string list \<Rightarrow> 'e option" where
  "matchPath es [] = atNode [] es"
| "matchPath es (s # ss) =
     orElse (matchPath (child s es) ss)
       (orElse (if s \<noteq> ''/'' then matchPath (child [] es) ss else None) (atNode [KMulti] es))"

definition methodNode :: "string \<Rightarrow> 'h serveMux \<Rightarrow> (key list \<times> 'h entry) list" where
  "methodNode m mux = map (\<lambda>(p, h). (map segKey (pt_segs p), p, h)) (filter (\<lambda>(p, _). pt_method p = m) mux)"

text \<open>A request without a method finds the node of patterns without one.\<close>

definition tree_match :: "'h serveMux \<Rightarrow> string \<Rightarrow> string \<Rightarrow> 'h entry option" where
  "tree_match mux m path =
     orElse (matchPath (methodNode m mux) (pathSegs path))
       (orElse (if m = ''HEAD'' then matchPath (methodNode ''GET'' mux) (pathSegs path) else None)
          (matchPath (methodNode [] mux) (pathSegs path)))"

definition exactMatch :: "'h entry option \<Rightarrow> string \<Rightarrow> bool" where
  "exactMatch n path =
     (case n of
        None \<Rightarrow> False
      | Some (p, _) \<Rightarrow>
          if \<not> endsMulti (pt_segs p) then True
          else if path \<noteq> [] \<and> \<not> hasSuffix path ''/'' then False
          else length (pt_segs p) = length (filter (\<lambda>c. c = CHR ''/'') path))"

datatype 'h route = Serve "'h entry" | RedirectTo url | NoMatch "string list"

text \<open>\<open>matchingMethods\<close>, the methods for the \<open>Allow\<close> header.\<close>

definition matchingMethods :: "'h serveMux \<Rightarrow> string \<Rightarrow> string list" where
  "matchingMethods mux path =
     (let ok = (\<lambda>m q. m \<noteq> [] \<and> matchPath (methodNode m mux) (pathSegs q) \<noteq> None);
          ms = filter (\<lambda>m. ok m path \<or> \<not> hasSuffix path ''/'' \<and> ok m (path @ ''/''))
                 (remdups (map (pt_method \<circ> fst) mux))
      in sortStrings (if ''GET'' \<in> set ms \<and> ''HEAD'' \<notin> set ms then ms @ [''HEAD''] else ms))"

definition matchOrRedirect :: "'h serveMux \<Rightarrow> string \<Rightarrow> string \<Rightarrow> url option \<Rightarrow> 'h entry option \<times> url option" where
  "matchOrRedirect mux m path u =
     (let n = tree_match mux m path
      in case u of
           Some u' \<Rightarrow>
             if \<not> exactMatch n path \<and> \<not> hasSuffix path ''/'' \<and> path \<noteq> [] \<and>
                exactMatch (tree_match mux m (path @ ''/'')) (path @ ''/'')
             then (None, Some (empty_url\<lparr>u_path := cleanPath (u_path u') @ ''/'', u_query := u_query u'\<rparr>))
             else (n, None)
         | None \<Rightarrow> (n, None))"

definition findHandler :: "'h serveMux \<Rightarrow> request \<Rightarrow> 'h route" where
  "findHandler mux r =
     (let escaped = escapedPath (r_url r); m = r_method r; connect = (m = ''CONNECT'');
          path = (if connect then escaped else cleanPath escaped);
          (n, redirect) = matchOrRedirect mux m path (Some (r_url r))
      in case redirect of
           Some u \<Rightarrow> RedirectTo u
         | None \<Rightarrow>
             if \<not> connect \<and> path \<noteq> escaped
             then RedirectTo (empty_url\<lparr>u_path := path, u_query := u_query (r_url r)\<rparr>)
             else (case n of Some e \<Rightarrow> Serve e | None \<Rightarrow> NoMatch (matchingMethods mux path)))"

definition mux_serve :: "'g handler serveMux \<Rightarrow> 'g handler" where
  "mux_serve mux r x =
     (if u_path (r_url r) = ''*'' then (Returned, writeHeader 400 (setHeader ''Connection'' ''close'' x))
      else case findHandler mux r of
        Serve (p, h) \<Rightarrow> h r x
      | RedirectTo u \<Rightarrow> (Returned, httpRedirect r (urlString u) 307 x)
      | NoMatch ms \<Rightarrow>
          if ms \<noteq> []
          then (Returned, httpError ''Method Not Allowed'' 405 (setHeader ''Allow'' (joinStr '', '' ms) x))
          else httpNotFound r x)"

section \<open>Relationships form a semilattice\<close>

text \<open>
  \<open>combineRelationships\<close> is a join: what is known of two paths only gets worse
  from \<open>Equivalent\<close>, over one being more general than the other and overlaps, to
  \<open>Disjoint\<close>.
\<close>

instantiation relationship :: "{bounded_semilattice_sup_bot, order_top}"
begin

definition sup_relationship :: "relationship \<Rightarrow> relationship \<Rightarrow> relationship" where
  "sup_relationship = combineRelationships"

definition less_eq_relationship :: "relationship \<Rightarrow> relationship \<Rightarrow> bool" where
  "less_eq_relationship a b \<longleftrightarrow> combineRelationships a b = b"

definition less_relationship :: "relationship \<Rightarrow> relationship \<Rightarrow> bool" where
  "less_relationship a b \<longleftrightarrow> combineRelationships a b = b \<and> combineRelationships b a \<noteq> a"

definition bot_relationship :: relationship where
  "bot_relationship = Equivalent"

definition top_relationship :: relationship where
  "top_relationship = Disjoint"

instance
proof
  fix a b c :: relationship
  show "a < b \<longleftrightarrow> a \<le> b \<and> \<not> b \<le> a"
    by (simp add: less_relationship_def less_eq_relationship_def)
  show "a \<le> a" by (cases a) (simp_all add: less_eq_relationship_def)
  show "a \<le> b \<Longrightarrow> b \<le> c \<Longrightarrow> a \<le> c"
    by (cases a; cases b; cases c) (simp_all add: less_eq_relationship_def)
  show "a \<le> b \<Longrightarrow> b \<le> a \<Longrightarrow> a = b"
    by (cases a; cases b) (simp_all add: less_eq_relationship_def)
  show "a \<le> sup a b" "b \<le> sup a b"
    by (cases a; cases b; simp add: less_eq_relationship_def sup_relationship_def)+
  show "b \<le> a \<Longrightarrow> c \<le> a \<Longrightarrow> sup b c \<le> a"
    by (cases a; cases b; cases c) (simp_all add: less_eq_relationship_def sup_relationship_def)
  show "bot \<le> a" "a \<le> top"
    by (cases a; simp add: less_eq_relationship_def bot_relationship_def top_relationship_def)+
qed

end

lemmas combine_assoc = sup_assoc [where 'a = relationship, unfolded sup_relationship_def]

lemma combine_unit [simp]: "combineRelationships r Equivalent = r" "combineRelationships r Disjoint = Disjoint"
  using sup_bot_right [of r] top_greatest [of r]
  by (simp_all add: sup_relationship_def bot_relationship_def top_relationship_def less_eq_relationship_def)

fun inverse_rel :: "relationship \<Rightarrow> relationship" where
  "inverse_rel MoreGeneral = MoreSpecific"
| "inverse_rel MoreSpecific = MoreGeneral"
| "inverse_rel r = r"

lemma inverse_combine: "inverse_rel (combineRelationships a b) = combineRelationships (inverse_rel a) (inverse_rel b)"
  by (cases a; cases b) simp_all

lemma inverse_Disjoint [simp]: "inverse_rel r = Disjoint \<longleftrightarrow> r = Disjoint"
  by (cases r) simp_all

lemma inverse_compareSegments: "inverse_rel (compareSegments s t) = compareSegments t s"
  by (cases s; cases t) simp_all

lemma combine_Disjoint [simp]:
  "combineRelationships a b = Disjoint \<longleftrightarrow> a = Disjoint \<or> b = Disjoint"
  by (cases a; cases b) simp_all

lemma loop_combine:
  "comparePaths_loop m1 m2 rel p q = combineRelationships rel (comparePaths_loop m1 m2 Equivalent p q)"
proof (induction p arbitrary: rel q)
  case Nil
  show ?case by (cases q) auto
next
  case (Cons s ss)
  show ?case
  proof (cases q)
    case (Cons t ts)
    let ?c = "compareSegments s t" and ?X = "comparePaths_loop m1 m2 Equivalent ss ts"
    have X: "comparePaths_loop m1 m2 r ss ts = combineRelationships r ?X" for r by (rule Cons.IH)
    have "comparePaths_loop m1 m2 r (s # ss) (t # ts) = combineRelationships r (combineRelationships ?c ?X)" for r
      using X [of "combineRelationships r ?c"] by (simp add: Let_def combine_assoc)
    from this [of rel] this [of Equivalent] show ?thesis using Cons by simp
  qed auto
qed

lemma loop_step:
  "comparePaths_loop m1 m2 Equivalent (s # ss) (t # ts) =
     combineRelationships (compareSegments s t) (comparePaths_loop m1 m2 Equivalent ss ts)"
  using loop_combine [of m1 m2 "compareSegments s t" ss ts] by (simp add: Let_def)

declare comparePaths_loop.simps(1) [simp del] loop_step [simp]

lemma inverse_loop:
  "inverse_rel (comparePaths_loop m1 m2 Equivalent p q) = comparePaths_loop m2 m1 Equivalent q p"
proof (induction p arbitrary: q)
  case Nil
  show ?case by (cases q) auto
next
  case (Cons s ss)
  then show ?case
    by (cases q) (auto simp: loop_step inverse_combine inverse_compareSegments)
qed

lemma inverse_comparePatterns: "inverse_rel (comparePatterns p q) = comparePatterns q p"
proof -
  have paths: "inverse_rel (comparePaths a b) = comparePaths b a" for a b
    by (auto simp: comparePaths_def inverse_loop)
  have "inverse_rel (compareMethods m n) = compareMethods n m" for m n
    unfolding compareMethods_def by (simp split: if_split)
  note meth = this
  have "inverse_rel (if m = Disjoint then Disjoint else combineRelationships m r) =
      (if inverse_rel m = Disjoint then Disjoint else combineRelationships (inverse_rel m) (inverse_rel r))" for m r
    by (simp add: inverse_combine)
  then show ?thesis
    unfolding comparePatterns_def Let_def by (simp only: meth paths)
qed

lemma conflictsWith_sym: "conflictsWith p q = conflictsWith q p"
  unfolding conflictsWith_def using inverse_comparePatterns [of p q]
  by (cases "comparePatterns p q") auto

section \<open>What the tree finds\<close>

text \<open>Which paths a pattern stands for, on segments and on keys.\<close>

fun segsMatch :: "segment list \<Rightarrow> string list \<Rightarrow> bool" where
  "segsMatch [] path = (path = [])"
| "segsMatch (Multi _ # ps) path = (ps = [] \<and> path \<noteq> [])"
| "segsMatch (_ # _) [] = False"
| "segsMatch (Lit t # ps) (s # path) = (t = s \<and> segsMatch ps path)"
| "segsMatch (Wild _ # ps) (s # path) = (s \<noteq> ''/'' \<and> segsMatch ps path)"

fun keysMatch :: "key list \<Rightarrow> string list \<Rightarrow> bool" where
  "keysMatch [] path = (path = [])"
| "keysMatch (KMulti # ks) path = (ks = [] \<and> path \<noteq> [])"
| "keysMatch (K t # ks) [] = False"
| "keysMatch (K t # ks) (s # path) = ((t = s \<or> t = [] \<and> s \<noteq> ''/'') \<and> keysMatch ks path)"

definition noEmpty :: "segment list \<Rightarrow> bool" where
  "noEmpty ps = (Lit [] \<notin> set ps)"

lemma noEmpty_Cons [simp]: "noEmpty (p # ps) \<longleftrightarrow> p \<noteq> Lit [] \<and> noEmpty ps"
  by (auto simp: noEmpty_def)

lemma keysMatch_segs: "noEmpty ps \<Longrightarrow> keysMatch (map segKey ps) path = segsMatch ps path"
  by (induction ps path rule: segsMatch.induct) auto

text \<open>Which of two keys the tree tries first at a segment, and so along a path.\<close>

fun rank :: "key \<Rightarrow> string \<Rightarrow> nat" where
  "rank KMulti s = 2"
| "rank (K t) s = (if t = s then 0 else 1)"

fun prefers :: "key list \<Rightarrow> key list \<Rightarrow> string list \<Rightarrow> bool" where
  "prefers (k # ks) (l # ls) (s # path) =
     (rank k s < rank l s \<or> rank k s = rank l s \<and> (k = KMulti \<or> prefers ks ls path))"
| "prefers _ _ _ = True"

lemma child_iff: "(ks, e) \<in> set (child s es) \<longleftrightarrow> (K s # ks, e) \<in> set es"
  by (force simp: child_def map_filter_def split: list.splits key.splits if_splits)

lemma atNode_Some: "atNode ks es = Some e \<Longrightarrow> (ks, e) \<in> set es"
  by (auto simp: atNode_def filter_eq_Cons_iff split: list.splits)

lemma atNode_None: "atNode ks es = None \<longleftrightarrow> (\<forall>e. (ks, e) \<notin> set es)"
  by (auto simp: atNode_def filter_empty_conv filter_eq_Cons_iff split: list.splits)

lemma orElse_None_iff: "orElse a b = None \<longleftrightarrow> a = None \<and> b = None"
  by (cases a) auto

lemma matchPath_complete: "(ks, e) \<in> set es \<Longrightarrow> keysMatch ks path \<Longrightarrow> matchPath es path \<noteq> None"
proof (induction ks path arbitrary: es rule: keysMatch.induct)
  case (1 path)
  then show ?case by (auto simp: atNode_None)
next
  case (2 ks path)
  then show ?case by (cases path) (auto simp: orElse_None_iff atNode_None)
next
  case (4 t ks s path)
  then show ?case by (auto simp: orElse_None_iff child_iff)
qed simp

lemma matchPath_best:
  assumes "matchPath es path = Some e"
  shows "\<exists>ks. (ks, e) \<in> set es \<and> keysMatch ks path \<and>
    (\<forall>ls e'. (ls, e') \<in> set es \<and> keysMatch ls path \<longrightarrow> prefers ks ls path)"
  using assms
proof (induction path arbitrary: es)
  case Nil
  then show ?case by (auto dest: atNode_Some intro!: exI [of _ "[]"])
next
  case (Cons s path)
  have lit: "matchPath (child s es) path = None \<Longrightarrow> (K s # ls, e') \<in> set es \<Longrightarrow> \<not> keysMatch ls path" for ls e'
    using matchPath_complete child_iff by metis
  have wild: "matchPath (child [] es) path = None \<Longrightarrow> (K [] # ls, e') \<in> set es \<Longrightarrow> \<not> keysMatch ls path" for ls e'
    using matchPath_complete child_iff by metis
  consider (literal) "matchPath (child s es) path = Some e"
    | (single) "matchPath (child s es) path = None" "s \<noteq> ''/''" "matchPath (child [] es) path = Some e"
    | (multi) "matchPath (child s es) path = None" "s \<noteq> ''/'' \<longrightarrow> matchPath (child [] es) path = None"
        "atNode [KMulti] es = Some e"
    using Cons.prems by (cases "matchPath (child s es) path"; cases "matchPath (child [] es) path")
      (auto split: if_splits)
  then show ?case
  proof cases
    case literal
    from Cons.IH [OF this] obtain ks where ks: "(K s # ks, e) \<in> set es" "keysMatch ks path"
      "\<forall>ls e'. (ls, e') \<in> set (child s es) \<and> keysMatch ls path \<longrightarrow> prefers ks ls path"
      by (auto simp: child_iff)
    have "prefers (K s # ks) ls (s # path)" if "(ls, e') \<in> set es" "keysMatch ls (s # path)" for ls e'
      using that ks(3) by (cases ls rule: list.exhaust; cases "hd ls") (auto simp: child_iff)
    then show ?thesis using ks by (intro exI [of _ "K s # ks"]) auto
  next
    case single
    from Cons.IH [OF single(3)] obtain ks where ks: "(K [] # ks, e) \<in> set es" "keysMatch ks path"
      "\<forall>ls e'. (ls, e') \<in> set (child [] es) \<and> keysMatch ls path \<longrightarrow> prefers ks ls path"
      by (auto simp: child_iff)
    have "prefers (K [] # ks) ls (s # path)" if "(ls, e') \<in> set es" "keysMatch ls (s # path)" for ls e'
      using that ks(3) lit [OF single(1)] by (cases ls rule: list.exhaust; cases "hd ls") (auto simp: child_iff)
    then show ?thesis using ks single(2) by (intro exI [of _ "K [] # ks"]) auto
  next
    case multi
    have "prefers [KMulti] ls (s # path)" if "(ls, e') \<in> set es" "keysMatch ls (s # path)" for ls e'
      using that lit [OF multi(1)] wild multi(2) by (cases ls rule: list.exhaust; cases "hd ls") auto
    then show ?thesis using atNode_Some [OF multi(3)] by (intro exI [of _ "[KMulti]"]) auto
  qed
qed

section \<open>The most specific pattern wins\<close>

lemma endsMulti_Cons: "ss \<noteq> [] \<Longrightarrow> endsMulti (s # ss) = endsMulti ss"
  by (cases ss) (auto simp: endsMulti_def)

lemma segsMatch_Cons_cases:
  assumes "segsMatch p (s # path)"
  obtains (multi) n where "p = [Multi n]"
    | (lit) ps where "p = Lit s # ps" "segsMatch ps path"
    | (wild) n ps where "p = Wild n # ps" "s \<noteq> ''/''" "segsMatch ps path"
proof (cases p)
  case (Cons x ps)
  with assms that show thesis by (cases x) auto
qed (use assms in simp)

lemma segsMatch_Nil [simp]: "segsMatch p [] \<longleftrightarrow> p = []"
proof (cases p)
  case (Cons x ps)
  then show ?thesis by (cases x) auto
qed simp

lemma loop_matched:
  assumes "segsMatch p path" "segsMatch q path" "p \<noteq> [] \<longrightarrow> m1 = endsMulti p" "q \<noteq> [] \<longrightarrow> m2 = endsMulti q"
  shows "comparePaths_loop m1 m2 Equivalent p q \<noteq> Disjoint \<and>
    (noEmpty p \<and> noEmpty q \<and> prefers (map segKey p) (map segKey q) path \<longrightarrow>
     comparePaths_loop m1 m2 Equivalent p q \<noteq> MoreGeneral)"
  using assms
proof (induction path arbitrary: p q)
  case (Cons s path)
  show ?case
  proof (cases rule: segsMatch_Cons_cases [OF Cons.prems(1)])
    case (1 n)
    show ?thesis
    proof (cases rule: segsMatch_Cons_cases [OF Cons.prems(2)])
      case (1 n')
      then show ?thesis using \<open>p = [Multi n]\<close> by (simp add: loop_step)
    next
      case (2 qs)
      then show ?thesis using \<open>p = [Multi n]\<close> Cons.prems(3) by (cases qs) (simp_all add: loop_step endsMulti_def)
    next
      case (3 n' qs)
      then show ?thesis using \<open>p = [Multi n]\<close> Cons.prems(3) by (cases qs) (simp_all add: loop_step endsMulti_def)
    qed
  next
    case p: (2 ps)
    have m1: "ps \<noteq> [] \<longrightarrow> m1 = endsMulti ps" using Cons.prems(3) p(1) by (simp add: endsMulti_Cons)
    show ?thesis
    proof (cases rule: segsMatch_Cons_cases [OF Cons.prems(2)])
      case (1 n)
      then show ?thesis using p Cons.prems(4) by (cases ps) (simp_all add: loop_step endsMulti_def)
    next
      case q: (2 qs)
      have m2: "qs \<noteq> [] \<longrightarrow> m2 = endsMulti qs" using Cons.prems(4) q(1) by (simp add: endsMulti_Cons)
      then show ?thesis using Cons.IH [OF p(2) q(2) m1 m2] p q by (simp add: loop_step)
    next
      case q: (3 n qs)
      have m2: "qs \<noteq> [] \<longrightarrow> m2 = endsMulti qs" using Cons.prems(4) q(1) by (simp add: endsMulti_Cons)
      have "comparePaths_loop m1 m2 Equivalent ps qs \<noteq> Disjoint"
        using Cons.IH [OF p(2) q(3) m1 m2] by simp
      then show ?thesis
        using p q by (cases "comparePaths_loop m1 m2 Equivalent ps qs") (simp_all add: loop_step)
    qed
  next
    case p: (3 n ps)
    have m1: "ps \<noteq> [] \<longrightarrow> m1 = endsMulti ps" using Cons.prems(3) p(1) by (simp add: endsMulti_Cons)
    show ?thesis
    proof (cases rule: segsMatch_Cons_cases [OF Cons.prems(2)])
      case (1 n')
      then show ?thesis using p Cons.prems(4) by (cases ps) (simp_all add: loop_step endsMulti_def)
    next
      case q: (2 qs)
      have m2: "qs \<noteq> [] \<longrightarrow> m2 = endsMulti qs" using Cons.prems(4) q(1) by (simp add: endsMulti_Cons)
      have "comparePaths_loop m1 m2 Equivalent ps qs \<noteq> Disjoint"
        using Cons.IH [OF p(3) q(2) m1 m2] by simp
      then show ?thesis
        using p q by (cases "comparePaths_loop m1 m2 Equivalent ps qs") (auto simp: loop_step)
    next
      case q: (3 n' qs)
      have m2: "qs \<noteq> [] \<longrightarrow> m2 = endsMulti qs" using Cons.prems(4) q(1) by (simp add: endsMulti_Cons)
      then show ?thesis using Cons.IH [OF p(3) q(3) m1 m2] p q by (simp add: loop_step)
    qed
  qed
qed simp

lemma segsMatch_length: "segsMatch p path \<Longrightarrow> \<not> endsMulti p \<Longrightarrow> length p = length path"
proof (induction path arbitrary: p)
  case (Cons s path)
  show ?case
  proof (cases rule: segsMatch_Cons_cases [OF Cons.prems(1)])
    case (1 n)
    then show ?thesis using Cons.prems(2) by (simp add: endsMulti_def)
  next
    case (2 ps)
    then show ?thesis using Cons.IH [of ps] Cons.prems(2) by (cases ps) (auto simp: endsMulti_def)
  next
    case (3 n ps)
    then show ?thesis using Cons.IH [of ps] Cons.prems(2) by (cases ps) (auto simp: endsMulti_def)
  qed
qed simp

lemma comparePaths_matched:
  assumes "segsMatch p path" "segsMatch q path"
  shows "comparePaths p q \<noteq> Disjoint"
    and "noEmpty p \<Longrightarrow> noEmpty q \<Longrightarrow> prefers (map segKey p) (map segKey q) path \<Longrightarrow> comparePaths p q \<noteq> MoreGeneral"
  using loop_matched [OF assms, of "endsMulti p" "endsMulti q"] segsMatch_length [OF assms(1)] segsMatch_length [OF assms(2)]
  by (cases "endsMulti p"; cases "endsMulti q"; simp add: comparePaths_def)+

definition methodMatches :: "string \<Rightarrow> string \<Rightarrow> bool" where
  "methodMatches pm m = (pm = m \<or> pm = [] \<or> pm = ''GET'' \<and> m = ''HEAD'')"

definition patternMatches :: "pattern \<Rightarrow> string \<Rightarrow> string list \<Rightarrow> bool" where
  "patternMatches p m path = (methodMatches (pt_method p) m \<and> segsMatch (pt_segs p) path)"

definition mux_ok :: "'h serveMux \<Rightarrow> bool" where
  "mux_ok mux \<longleftrightarrow> distinct (map fst mux) \<and>
     (\<forall>p \<in> set (map fst mux). \<forall>q \<in> set (map fst mux). p \<noteq> q \<longrightarrow> \<not> conflictsWith p q)"

lemma mux_ok_Nil [simp]: "mux_ok []"
  by (simp add: mux_ok_def)

lemma comparePaths_loop_refl: "comparePaths_loop m m Equivalent p p = Equivalent"
proof (induction p)
  case (Cons s p)
  then show ?case by (cases s) (simp_all add: loop_step)
qed simp

lemma conflictsWith_refl: "conflictsWith p p"
  by (simp add: conflictsWith_def comparePatterns_def compareMethods_def comparePaths_def comparePaths_loop_refl)

lemma mux_ok_register:
  assumes "register mux s h = Inr mux'" and "mux_ok mux"
  shows "mux_ok mux' \<and> (\<exists>p. parsePattern s = Inr p \<and> mux' = mux @ [(p, h)])"
proof -
  obtain p where p: "parsePattern s = Inr p" "mux' = mux @ [(p, h)]"
    and free: "\<forall>q \<in> set (map fst mux). \<not> conflictsWith p q"
    using assms(1) by (auto simp: register_def mux_register_def result_simps list_ex_iff case_prod_beta split: if_splits)
  then have "p \<notin> set (map fst mux)" using conflictsWith_refl by blast
  then show ?thesis
    using assms(2) p free conflictsWith_sym unfolding mux_ok_def by auto
qed

text \<open>\<open>Register\<close> in order, as the loop over a site's routes does.\<close>

definition mux_routes :: "(string \<times> 'h) list \<Rightarrow> 'h serveMux result" where
  "mux_routes routes = rfold (\<lambda>(s, h) mux. register mux s h) routes []"

lemma mux_ok_routes: "mux_routes routes = Inr mux \<Longrightarrow> mux_ok mux"
  unfolding mux_routes_def
  by (rule rfold_invariant [of _ routes "[]"]) (auto dest: mux_ok_register)

lemma methodNode_iff: "(ks, p, h) \<in> set (methodNode m mux) \<longleftrightarrow>
    (p, h) \<in> set mux \<and> pt_method p = m \<and> ks = map segKey (pt_segs p)"
  by (auto simp: methodNode_def)

lemma node_complete:
  assumes "matchPath (methodNode n mux) path = None" and "(q, h) \<in> set mux" and "pt_method q = n"
    and "noEmpty (pt_segs q)"
  shows "\<not> segsMatch (pt_segs q) path"
  using matchPath_complete [of "map segKey (pt_segs q)" "(q, h)" "methodNode n mux" path] assms
  by (auto simp: methodNode_iff keysMatch_segs)

lemma node_best:
  assumes "matchPath (methodNode n mux) path = Some (p, h)" and all: "\<forall>(p, h) \<in> set mux. noEmpty (pt_segs p)"
  shows "(p, h) \<in> set mux" and "pt_method p = n" and "segsMatch (pt_segs p) path"
    and "(q, h') \<in> set mux \<Longrightarrow> pt_method q = n \<Longrightarrow> segsMatch (pt_segs q) path \<Longrightarrow>
         comparePaths (pt_segs p) (pt_segs q) \<noteq> MoreGeneral"
proof -
  from matchPath_best [OF assms(1)] have p: "(p, h) \<in> set mux" "pt_method p = n"
    and m: "keysMatch (map segKey (pt_segs p)) path"
    and best: "\<And>q h'. (q, h') \<in> set mux \<Longrightarrow> pt_method q = n \<Longrightarrow> keysMatch (map segKey (pt_segs q)) path \<Longrightarrow>
      prefers (map segKey (pt_segs p)) (map segKey (pt_segs q)) path"
    by (auto simp: methodNode_iff)
  have ne: "noEmpty (pt_segs p)" using all p by auto
  show "(p, h) \<in> set mux" "pt_method p = n" "segsMatch (pt_segs p) path"
    using p m ne by (simp_all add: keysMatch_segs)
  assume q: "(q, h') \<in> set mux" "pt_method q = n" "segsMatch (pt_segs q) path"
  have "noEmpty (pt_segs q)" using all q by auto
  with q m ne best [OF q(1,2)] show "comparePaths (pt_segs p) (pt_segs q) \<noteq> MoreGeneral"
    by (intro comparePaths_matched) (simp_all add: keysMatch_segs)
qed

text \<open>Of two patterns that match and do not conflict, the one found is the more specific.\<close>

lemma found_more_specific:
  assumes "mux_ok mux" "(p, h) \<in> set mux" "(q, h') \<in> set mux" "p \<noteq> q"
    and "segsMatch (pt_segs p) path" "segsMatch (pt_segs q) path"
    and "pt_method p = pt_method q \<and> comparePaths (pt_segs p) (pt_segs q) \<noteq> MoreGeneral \<or>
         compareMethods (pt_method p) (pt_method q) = MoreSpecific"
  shows "comparePatterns p q = MoreSpecific"
proof -
  have "\<not> conflictsWith p q" using assms(1-4) unfolding mux_ok_def by force
  moreover have "comparePaths (pt_segs p) (pt_segs q) \<noteq> Disjoint" using comparePaths_matched [OF assms(5,6)] by simp
  moreover have "compareMethods (pt_method p) (pt_method p) = Equivalent" by (simp add: compareMethods_def)
  ultimately show ?thesis
    using assms(7) unfolding conflictsWith_def comparePatterns_def
    by (cases "comparePaths (pt_segs p) (pt_segs q)") (auto simp: Let_def)
qed

lemma tree_match_nodes:
  assumes "tree_match mux m path = Some (p, h)"
  obtains n where "matchPath (methodNode n mux) (pathSegs path) = Some (p, h)" and "methodMatches n m"
    and "n \<noteq> m \<longrightarrow> matchPath (methodNode m mux) (pathSegs path) = None"
    and "n = [] \<and> m = ''HEAD'' \<longrightarrow> matchPath (methodNode ''GET'' mux) (pathSegs path) = None"
proof (cases "matchPath (methodNode m mux) (pathSegs path)")
  case (Some e)
  then show thesis using assms by (intro that [of m]) (auto simp: tree_match_def methodMatches_def)
next
  case None
  show thesis
  proof (cases "m = ''HEAD'' \<and> matchPath (methodNode ''GET'' mux) (pathSegs path) \<noteq> None")
    case True
    then show thesis using assms None by (intro that [of "''GET''"]) (auto simp: tree_match_def methodMatches_def)
  next
    case False
    then have get: "m = ''HEAD'' \<longrightarrow> matchPath (methodNode ''GET'' mux) (pathSegs path) = None" by blast
    then have "matchPath (methodNode [] mux) (pathSegs path) = Some (p, h)"
      using assms None by (cases "m = ''HEAD''") (simp_all add: tree_match_def)
    then show thesis using None get by (intro that [of "[]"]) (simp_all add: methodMatches_def)
  qed
qed

lemma tree_match_None:
  assumes "tree_match mux m path = None" and "(q, h) \<in> set mux" and "noEmpty (pt_segs q)"
  shows "\<not> patternMatches q m (pathSegs path)"
proof -
  have "matchPath (methodNode m mux) (pathSegs path) = None" "matchPath (methodNode [] mux) (pathSegs path) = None"
    "m = ''HEAD'' \<Longrightarrow> matchPath (methodNode ''GET'' mux) (pathSegs path) = None"
    using assms(1) by (cases "m = ''HEAD''"; simp add: tree_match_def orElse_None_iff)+
  then have "matchPath (methodNode n mux) (pathSegs path) = None" if "methodMatches n m" for n
    using that unfolding methodMatches_def by blast
  from node_complete [OF this assms(2) refl assms(3)] show ?thesis unfolding patternMatches_def by blast
qed


definition sample_routes :: "(string \<times> nat) list" where
  "sample_routes = [(''/'', 10), (''GET /api/{id}'', 11), (''/api/'', 12), (''GET /api/me'', 13)]"


end
