(* ===== verification/Client_IP.thy ===== *)
theory Client_IP
  imports Http
begin

text \<open>
  \<open>clientip.go\<close>: which address a request comes from. A listener's resolver
  holds the prefixes of its trusted proxies; for a trusted peer it walks
  \<open>X-Forwarded-For\<close> from the right. The lemmas show that the walk is the
  rightmost-untrusted rule (\<open>rightmost_untrusted\<close>) and that a client gains
  nothing by sending forged entries.
\<close>

section \<open>The resolver\<close>

record clientIPResolver =
  trusted :: "ipprefix list"

definition parseTrustedProxy :: "string \<Rightarrow> ipprefix result" where
  "parseTrustedProxy v =
     (let value = trimSpace v
      in case parsePrefix value of
           Some p \<Rightarrow> Inr (masked p)
         | None \<Rightarrow>
             (case parseAddr value of
                None \<Rightarrow> Inl (Errorf ''invalid trusted proxy %q'' [value])
              | Some a \<Rightarrow> Inr (masked (prefixFrom (unmap a) (bitLen (unmap a))))))"

definition newClientIPResolver :: "string list \<Rightarrow> clientIPResolver result" where
  "newClientIPResolver values =
     rbind (rmap parseTrustedProxy values) (\<lambda>ps. Inr \<lparr>trusted = ps\<rparr>)"

definition isTrusted :: "clientIPResolver \<Rightarrow> ipaddr \<Rightarrow> bool" where
  "isTrusted res address = list_ex (\<lambda>prefix. prefixContains prefix address) (trusted res)"

definition remoteAddress :: "string \<Rightarrow> ipaddr option" where
  "remoteAddress value =
     map_option unmap (parseAddr (case splitHostPort value of Some (host, _) \<Rightarrow> host | None \<Rightarrow> value))"

text \<open>The loop over the hops, from the last; \<open>client\<close> is the address found so far.\<close>

fun walk_hops :: "clientIPResolver \<Rightarrow> string list \<Rightarrow> ipaddr \<Rightarrow> ipaddr" where
  "walk_hops res [] client = client"
| "walk_hops res (hop # hops) client =
     (case parseAddr (trimSpace hop) of
        None \<Rightarrow> client
      | Some a \<Rightarrow> if isTrusted res (unmap a) then walk_hops res hops (unmap a) else unmap a)"

definition forwardedHops :: "request \<Rightarrow> string list" where
  "forwardedHops r = concat (map (splitChar CHR '','') (headerValues (r_header r) ''X-Forwarded-For''))"

definition resolve :: "clientIPResolver \<Rightarrow> request \<Rightarrow> ipaddr option \<times> bool" where
  "resolve res r =
     (case remoteAddress (r_remoteAddr r) of
        None \<Rightarrow> (None, False)
      | Some peer \<Rightarrow>
          if \<not> isTrusted res peer then (Some peer, False)
          else (Some (walk_hops res (rev (forwardedHops r)) peer), True))"

section \<open>The rightmost untrusted hop\<close>

definition hopAddress :: "string \<Rightarrow> ipaddr option" where
  "hopAddress hop = map_option unmap (parseAddr (trimSpace hop))"

definition trustedHop :: "clientIPResolver \<Rightarrow> string \<Rightarrow> bool" where
  "trustedHop res hop = (case hopAddress hop of None \<Rightarrow> False | Some a \<Rightarrow> isTrusted res a)"

text \<open>
  The specification: drop the trusted hops at the right; the next hop, if it
  parses, is the client, and otherwise the last trusted hop (or the peer) is.
\<close>

definition rightmost_untrusted :: "clientIPResolver \<Rightarrow> string list \<Rightarrow> ipaddr \<Rightarrow> ipaddr" where
  "rightmost_untrusted res hops peer =
     (let back = rev hops; proxies = takeWhile (trustedHop res) back; rest = dropWhile (trustedHop res) back;
          last_proxy = (if proxies = [] then peer else the (hopAddress (last proxies)))
      in case rest of
           [] \<Rightarrow> last_proxy
         | hop # _ \<Rightarrow> (case hopAddress hop of None \<Rightarrow> last_proxy | Some a \<Rightarrow> a))"

lemma walk_hops_cases:
  "walk_hops res (hop # hops) c =
     (if trustedHop res hop then walk_hops res hops (the (hopAddress hop))
      else case hopAddress hop of None \<Rightarrow> c | Some a \<Rightarrow> a)"
  by (auto simp: trustedHop_def hopAddress_def split: option.splits)

lemma walk_hops_spec:
  "walk_hops res hops c =
     (let proxies = takeWhile (trustedHop res) hops; rest = dropWhile (trustedHop res) hops;
          l = (if proxies = [] then c else the (hopAddress (last proxies)))
      in case rest of [] \<Rightarrow> l | hop # _ \<Rightarrow> (case hopAddress hop of None \<Rightarrow> l | Some a \<Rightarrow> a))"
proof (induction hops arbitrary: c)
  case (Cons hop hops)
  show ?case
  proof (cases "trustedHop res hop")
    case True
    have "walk_hops res (hop # hops) c = walk_hops res hops (the (hopAddress hop))"
      by (simp only: walk_hops_cases True if_True)
    then show ?thesis
      by (cases "takeWhile (trustedHop res) hops = []")
        (simp_all add: Cons.IH [of "the (hopAddress hop)"] True Let_def
           del: walk_hops.simps dropWhile_eq_Nil_conv takeWhile_eq_Nil_iff
           split del: if_split cong: list.case_cong option.case_cong)
  next
    case False
    then show ?thesis by (simp add: walk_hops_cases del: walk_hops.simps)
  qed
qed simp

text \<open>An untrusted or malformed hop stops the walk: what is further left is never looked at.\<close>

lemma walk_hops_stop:
  assumes "\<not> trustedHop res hop"
  shows "walk_hops res (right @ hop # left) c = walk_hops res (right @ [hop]) c"
  using assms
proof (induction right arbitrary: c)
  case Nil
  then show ?case by (simp only: append_Nil walk_hops_cases if_False)
next
  case (Cons x right)
  then have "walk_hops res (right @ hop # left) d = walk_hops res (right @ [hop]) d" for d by simp
  then show ?case by (simp only: append_Cons walk_hops_cases [of res x])
qed

text \<open>C3: For a trusted peer the client address is the rightmost hop of
  X-Forwarded-For that is not itself a trusted proxy (the last trusted address
  when a malformed hop, or nothing, stands there); for an untrusted peer it is
  the peer's own address, whatever the headers say; and the peer is reported
  trusted exactly when one of the listener's trusted prefixes contains it.\<close>

theorem resolve_rightmost_untrusted:
  "resolve res r =
     (case remoteAddress (r_remoteAddr r) of
        None \<Rightarrow> (None, False)
      | Some peer \<Rightarrow>
          (Some (if isTrusted res peer then rightmost_untrusted res (forwardedHops r) peer else peer),
           isTrusted res peer))"
  by (simp add: resolve_def walk_hops_spec rightmost_untrusted_def Let_def split: option.splits)

text \<open>A client behind trusted proxies cannot choose its address by sending its
  own X-Forwarded-For: if the proxies appended the address they saw, and that
  address is no trusted proxy, then entries the client put before it never
  change the result.\<close>

theorem resolve_ignores_forged_entries:
  assumes "forwardedHops r = forged @ seen # proxies"
    and "forwardedHops r' = forged' @ seen # proxies"
    and "r_remoteAddr r' = r_remoteAddr r"
    and "\<not> trustedHop res seen"
  shows "resolve res r' = resolve res r"
proof -
  have "walk_hops res (rev (forwardedHops r)) c = walk_hops res (rev proxies @ [seen]) c"
    and "walk_hops res (rev (forwardedHops r')) c = walk_hops res (rev proxies @ [seen]) c" for c
    using walk_hops_stop [OF assms(4), of "rev proxies"] by (simp_all add: assms(1,2))
  then show ?thesis by (simp add: resolve_def assms(3) split: option.splits)
qed

text \<open>A proxy at 10.0.0.1 that saw the client at 203.0.113.9, which forged an entry.\<close>

theorem resolve_ignores_forged_entries_witness:
  "resolve \<lparr>trusted = [\<lparr>pfx_addr = V4 167772160, pfx_bits = 8\<rparr>]\<rparr>
     (get_request ''a.com'' ''/'' ''10.0.0.1:5'' [(''X-Forwarded-For'', [''1.2.3.4,203.0.113.9''])]) =
   resolve \<lparr>trusted = [\<lparr>pfx_addr = V4 167772160, pfx_bits = 8\<rparr>]\<rparr>
     (get_request ''a.com'' ''/'' ''10.0.0.1:5'' [(''X-Forwarded-For'', [''203.0.113.9''])])"
proof -
  have h1: "forwardedHops (get_request ''a.com'' ''/'' ''10.0.0.1:5''
      [(''X-Forwarded-For'', [''203.0.113.9''])]) = [] @ ''203.0.113.9'' # []"
    by code_simp
  have h2: "forwardedHops (get_request ''a.com'' ''/'' ''10.0.0.1:5''
      [(''X-Forwarded-For'', [''1.2.3.4,203.0.113.9''])]) = [''1.2.3.4''] @ ''203.0.113.9'' # []"
    by code_simp
  have h3: "\<not> trustedHop \<lparr>trusted = [\<lparr>pfx_addr = V4 167772160, pfx_bits = 8\<rparr>]\<rparr> ''203.0.113.9''"
    by code_simp
  show ?thesis
    by (rule resolve_ignores_forged_entries [OF h1 h2 _ h3]) simp
qed

end
