(* ===== verification/Compile.thy ===== *)
theory Compile
  imports Mux Client_IP Acme
begin

text \<open>
  \<open>compile.go\<close>: from a configuration to a snapshot. The mutable objects a
  snapshot refers to and shares with its predecessor live in the \<open>heap\<close>: the
  gateway's limiters and slots, the ACME managers, and the counter of
  connection pools. Compiling returns the new heap with the snapshot; a failed
  compilation returns an error only, its objects being unreachable in Go.
\<close>

section \<open>Snapshots\<close>

record listenerSpec =
  sp_address :: string
  sp_tls :: bool
  sp_minTLS :: nat
  sp_server :: ServerConfig

record 'g listenerRuntime =
  lr_spec :: listenerSpec
  lr_handler :: "'g handler"
  lr_clientIP :: clientIPResolver

record 'g siteEntry =
  se_name :: string
  se_handler :: "'g handler"

record ('l, 'w) heap =
  hp_gateway :: "'l gateway"
  hp_pools :: nat
  hp_managers :: "(nat, 'w acmeManager) gomap"
  hp_nextManager :: nat

text \<open>A manager is referred to by its address; its configuration never changes.\<close>

record 'l snapshot =
  sn_config :: Config
  sn_server :: ServerConfig
  sn_listeners :: "(string, 'l gateway listenerRuntime) gomap"
  sn_certs :: certificateStore
  sn_minTLS :: nat
  sn_policies :: "'l policies"
  sn_transports :: "(transportKey, pool) gomap"
  sn_tlsHosts :: "string list"
  sn_acme :: "(nat \<times> ACMEConfig) option"
  sn_managedHosts :: "string list"

record ('l, 'w) options =
  o_env :: "'l gateway env"
  o_handlers :: "'l gateway registry"
  o_middleware :: "'l gateway middleware list"
  o_dataDir :: string
  o_tls :: tls_env
  o_acme :: "'w acme_env"
  o_rates :: "'l rate_ops"
  o_http01 :: "(string \<Rightarrow> string \<Rightarrow> string option) option"

section \<open>Listeners\<close>

definition defaultListeners :: "bool \<Rightarrow> Listener list" where
  "defaultListeners withTLS =
     \<lparr>l_name = ''http'', l_address = '':80'', l_tls = False, l_trustedProxies = [], l_policies = []\<rparr> #
     (if withTLS
      then [\<lparr>l_name = ''https'', l_address = '':443'', l_tls = True, l_trustedProxies = [], l_policies = []\<rparr>]
      else [])"

text \<open>What the loop over the listeners builds up: listeners and addresses seen, specifications and resolvers.\<close>

record listenerTable =
  lt_byName :: "(string, Listener) gomap"
  lt_addresses :: "(string, string) gomap"
  lt_specs :: "(string, listenerSpec \<times> clientIPResolver) gomap"

definition compile_listener :: "ServerConfig \<Rightarrow> nat \<Rightarrow> Listener \<Rightarrow> listenerTable \<Rightarrow> listenerTable result" where
  "compile_listener server minTLS l t =
     (if l_name l = [] then Inl (Errorf ''listener name is required'' [])
      else if mhas (lt_byName t) (l_name l) then Inl (Errorf ''duplicate listener name %q'' [l_name l])
      else if l_address l = [] then Inl (Errorf ''listener %q has no address'' [l_name l])
      else if mhas (lt_addresses t) (l_address l) \<and> \<not> hasSuffix (l_address l) '':0''
      then Inl (Errorf ''listeners %q and %q use the same address %q''
                  [the (mget (lt_addresses t) (l_address l)), l_name l, l_address l])
      else rbind (wrap_err (Wrapf ''listener %q: %w'' [l_name l]) (newClientIPResolver (l_trustedProxies l))) (\<lambda>resolver.
        Inr \<lparr>lt_byName = mput (l_name l) l (lt_byName t),
             lt_addresses = mput (l_address l) (l_name l) (lt_addresses t),
             lt_specs = mput (l_name l)
               (\<lparr>sp_address = l_address l, sp_tls = l_tls l, sp_minTLS = (if l_tls l then minTLS else 0),
                 sp_server = server\<rparr>, resolver) (lt_specs t)\<rparr>))"

definition compile_listeners :: "ServerConfig \<Rightarrow> nat \<Rightarrow> Listener list \<Rightarrow> listenerTable result" where
  "compile_listeners server minTLS ls =
     rfold (compile_listener server minTLS) ls \<lparr>lt_byName = [], lt_addresses = [], lt_specs = []\<rparr>"

section \<open>Certificates of TLS hosts\<close>

definition requireCertificate :: "certificateStore \<Rightarrow> bool \<Rightarrow> string \<Rightarrow> string \<Rightarrow> unit result" where
  "requireCertificate certs hasACME host listener =
     (if covers (cs_current certs) host \<or> hasACME \<and> acmeEligible host \<or> covers (cs_stale certs) host then Inr ()
      else if \<not> hasACME
      then Inl (Errorf ''no certificate covers %q on TLS listener %q; add one or enable tls.acme'' [host, listener])
      else Inl (Errorf ''no certificate covers %q on TLS listener %q, and ACME HTTP-01 cannot issue wildcard or IP certificates''
                  [host, listener]))"

definition managedHosts :: "string list \<Rightarrow> certificateStore \<Rightarrow> bool \<Rightarrow> string list" where
  "managedHosts tlsHosts certs hasACME =
     (if hasACME then filter (\<lambda>h. acmeEligible h \<and> \<not> covers (cs_current certs) h) tlsHosts else [])"

definition acmeManagerFor ::
  "ACMEConfig option \<Rightarrow> ('l, 'w) options \<Rightarrow> 'l snapshot option \<Rightarrow> ('l, 'w) heap \<Rightarrow>
   ((nat \<times> ACMEConfig) option \<times> ('l, 'w) heap) result" where
  "acmeManagerFor config opts prev h =
     (case config of
        None \<Rightarrow> Inr (None, h)
      | Some c \<Rightarrow>
          (let want = (if acme_directory c = [] then c\<lparr>acme_directory := letsEncryptDirectory\<rparr> else c);
               new = rbind (newACMEManager (o_acme opts) want (o_dataDir opts)) (\<lambda>m.
                 Inr (Some (hp_nextManager h, am_config m),
                      h\<lparr>hp_managers := mput (hp_nextManager h) m (hp_managers h),
                        hp_nextManager := Suc (hp_nextManager h)\<rparr>))
           in case prev of
                None \<Rightarrow> new
              | Some p \<Rightarrow>
                  (case sn_acme p of
                     None \<Rightarrow> new
                   | Some (ref, c') \<Rightarrow> if c' = want then Inr (Some (ref, c'), h) else new)))"

section \<open>Routes\<close>

text \<open>
  \<open>compiling\<close> is the compiler's state while it works through the sites: the
  transports, the TLS hosts seen, and the host tables of the listeners.
\<close>

record 'l compiling =
  cg_transports :: transports
  cg_tlsHosts :: "string list"
  cg_tables :: "(string, 'l gateway siteEntry hostTable) gomap"

definition route_pattern :: "Route \<Rightarrow> string" where
  "route_pattern r =
     (let path = (if r_path r = [] then ''/'' else r_path r); method = toUpper (trimSpace (r_meth r))
      in if method \<noteq> [] then method @ '' '' @ path else path)"

definition route_label :: "Route \<Rightarrow> string" where
  "route_label r = (if r_name r = [] then route_pattern r else r_name r)"

definition compile_route ::
  "('l, 'w) options \<Rightarrow> 'l policies \<Rightarrow> Route \<Rightarrow> transports \<Rightarrow> ('l gateway handler \<times> transports) result" where
  "compile_route opts policies r ts =
     (let path = (if r_path r = [] then ''/'' else r_path r); label = Wrapf ''route %q: %w'' [route_label r] in
      if \<not> hasPrefix path ''/'' then Inl (Errorf ''route %q: path must start with /'' [route_label r])
      else rbind (wrap_err label (checkExtensions (o_handlers opts) (h_extensions (r_handler r)))) (\<lambda>_.
           rbind (wrap_err label (compiler_handler (o_env opts) (o_handlers opts) (r_handler r) ts)) (\<lambda>(handler, ts').
           rbind (wrap_err label (applyPolicies handler (r_policies r) policies)) (\<lambda>wrapped.
             Inr (withRoute (route_label r) wrapped, ts')))))"

definition site_routes :: "Site \<Rightarrow> Route list result" where
  "site_routes site =
     (let routes = s_routes site in
      if handler_defined (s_handler site) then
        (if routes \<noteq> [] then Inl (Errorf ''set either routes or a single handler, not both'' [])
         else Inr [\<lparr>r_name = [], r_meth = [], r_path = [], r_policies = [], r_handler = s_handler site\<rparr>])
      else if routes = [] then Inl (Errorf ''no routes'' []) else Inr routes)"

definition add_route ::
  "('l, 'w) options \<Rightarrow> 'l policies \<Rightarrow> Route \<Rightarrow> 'l gateway handler serveMux \<times> string list \<times> transports \<Rightarrow>
   ('l gateway handler serveMux \<times> string list \<times> transports) result" where
  "add_route opts policies r s =
     (let (mux, names, ts) = s in
      rbind (compile_route opts policies r ts) (\<lambda>(handler, ts').
        if route_label r \<in> set names then Inl (Errorf ''duplicate route name %q'' [route_label r])
        else rbind (wrap_err (Wrapf ''route %q: %w'' [route_label r]) (register mux (route_pattern r) handler))
               (\<lambda>mux'. Inr (mux', route_label r # names, ts'))))"

section \<open>Sites\<close>

definition hostDispatcher :: "'g siteEntry hostTable \<Rightarrow> 'g handler" where
  "hostDispatcher sites r x =
     (case hostTable_match sites (requestHost (r_host r)) of
        None \<Rightarrow> httpNotFound r x
      | Some site \<Rightarrow> se_handler site r x)"

definition redirectHost :: "string \<Rightarrow> string \<Rightarrow> string" where
  "redirectHost port host =
     (if port \<noteq> ''443'' then joinHostPort host port
      else if CHR '':'' \<in> set host then ''['' @ host @ '']'' else host)"

definition httpsRedirect :: "string \<Rightarrow> 'g handler" where
  "httpsRedirect port r x =
     (Returned, httpRedirect r (urlString ((r_url r)\<lparr>u_scheme := ''https'',
        u_host := redirectHost port (requestHost (r_host r))\<rparr>)) 308 x)"

definition site_hosts :: "Site \<Rightarrow> string list result" where
  "site_hosts site =
     (if s_hosts site = [] then Inl (Errorf ''at least one host is required'' [])
      else rmap (\<lambda>h. rbind (validateHostPattern (normalizeHost h)) (\<lambda>_. Inr (normalizeHost h))) (s_hosts site))"

definition served_listeners :: "Listener list \<Rightarrow> Site \<Rightarrow> string list" where
  "served_listeners listeners site = (if s_listeners site = [] then map l_name listeners else s_listeners site)"

text \<open>The port of the first TLS listener that serves the site, empty when there is none.\<close>

definition note_port :: "(string, Listener) gomap \<Rightarrow> string \<Rightarrow> string \<Rightarrow> string result" where
  "note_port byName name port =
     (case mget byName name of
        None \<Rightarrow> Inl (Errorf ''unknown listener %q'' [name])
      | Some l \<Rightarrow> Inr (if l_tls l \<and> port = []
                       then (case splitHostPort (l_address l) of Some (_, p) \<Rightarrow> p | None \<Rightarrow> []) else port))"

definition add_host :: "string \<Rightarrow> 'g siteEntry \<Rightarrow> string \<Rightarrow> 'g siteEntry hostTable \<Rightarrow> 'g siteEntry hostTable result" where
  "add_host listener entry host t =
     (case hostTable_get t host of
        Some other \<Rightarrow> Inl (Errorf ''host %q on listener %q is already served by site %q'' [host, listener, se_name other])
      | None \<Rightarrow> Inr (snd (hostTable_set host entry t)))"

definition is_tls :: "(string, Listener) gomap \<Rightarrow> string \<Rightarrow> bool" where
  "is_tls byName name = (case mget byName name of Some l \<Rightarrow> l_tls l | None \<Rightarrow> False)"

definition site_entry ::
  "(string, Listener) gomap \<Rightarrow> string \<Rightarrow> Site \<Rightarrow> 'g handler \<Rightarrow> string \<Rightarrow> 'g siteEntry" where
  "site_entry byName port site handler listener =
     \<lparr>se_name = site_ID site,
      se_handler = (if \<not> is_tls byName listener \<and> port \<noteq> [] \<and> \<not> s_allowHTTP site
                    then withSite (site_ID site) (withRoute ''https-redirect'' (httpsRedirect port)) else handler)\<rparr>"

definition serve_on ::
  "certificateStore \<Rightarrow> bool \<Rightarrow> (string, Listener) gomap \<Rightarrow> string list \<Rightarrow> (string \<Rightarrow> 'l gateway siteEntry) \<Rightarrow>
   string \<Rightarrow> 'l compiling \<Rightarrow> 'l compiling result" where
  "serve_on certs hasACME byName hosts entry listener c =
     rbind (if is_tls byName listener
            then rfold (\<lambda>h seen. rbind (requireCertificate certs hasACME h listener) (\<lambda>_. Inr (h # seen))) hosts (cg_tlsHosts c)
            else Inr (cg_tlsHosts c)) (\<lambda>seen.
     rbind (rfold (add_host listener (entry listener)) hosts
              (case mget (cg_tables c) listener of Some t \<Rightarrow> t | None \<Rightarrow> newHostTable)) (\<lambda>t.
       Inr (c\<lparr>cg_tlsHosts := seen, cg_tables := mput listener t (cg_tables c)\<rparr>)))"

definition compile_site ::
  "('l, 'w) options \<Rightarrow> 'l policies \<Rightarrow> certificateStore \<Rightarrow> bool \<Rightarrow> Listener list \<Rightarrow> (string, Listener) gomap \<Rightarrow>
   Site \<Rightarrow> 'l compiling \<Rightarrow> 'l compiling result" where
  "compile_site opts policies certs hasACME listeners byName site c =
     rbind (site_hosts site) (\<lambda>hosts.
     rbind (checkExtensions (o_handlers opts) (h_extensions (s_handler site))) (\<lambda>_.
     rbind (site_routes site) (\<lambda>routes.
     rbind (rfold (add_route opts policies) routes ([], [], cg_transports c)) (\<lambda>(mux, names, ts).
     rbind (applyPolicies (mux_serve mux) (s_policies site) policies) (\<lambda>wrapped.
     rbind (rfold (note_port byName) (served_listeners listeners site) []) (\<lambda>port.
       rfold (serve_on certs hasACME byName hosts
                (site_entry byName port site (withSite (site_ID site) wrapped)))
         (served_listeners listeners site) (c\<lparr>cg_transports := ts\<rparr>)))))))"

text \<open>The loop over the sites: their identities must differ.\<close>

definition site_label :: "Site \<Rightarrow> nat \<Rightarrow> string" where
  "site_label site i = (if site_ID site = [] then ''#'' @ itoa_nat (Suc i) else site_ID site)"

definition compile_sites_step ::
  "('l, 'w) options \<Rightarrow> 'l policies \<Rightarrow> certificateStore \<Rightarrow> bool \<Rightarrow> Listener list \<Rightarrow> (string, Listener) gomap \<Rightarrow>
   nat \<times> Site \<Rightarrow> string list \<times> 'l compiling \<Rightarrow> (string list \<times> 'l compiling) result" where
  "compile_sites_step opts policies certs hasACME listeners byName is s =
     (let (i, site) = is; (ids, c) = s; sid = site_ID site in
      if sid \<noteq> [] \<and> sid \<in> set ids
      then Inl (Errorf ''duplicate site %q; give one of them a distinct name'' [sid])
      else rbind (wrap_err (Wrapf ''site %q: %w'' [site_label site i])
                    (compile_site opts policies certs hasACME listeners byName site c))
             (\<lambda>c'. Inr (sid # ids, c')))"

definition compile_sites ::
  "('l, 'w) options \<Rightarrow> 'l policies \<Rightarrow> certificateStore \<Rightarrow> bool \<Rightarrow> Listener list \<Rightarrow> (string, Listener) gomap \<Rightarrow>
   Site list \<Rightarrow> transports \<Rightarrow> 'l compiling result" where
  "compile_sites opts policies certs hasACME listeners byName sites ts =
     rbind (rfold (compile_sites_step opts policies certs hasACME listeners byName) (enumerate 0 sites)
              ([], \<lparr>cg_transports = ts, cg_tlsHosts = [],
                    cg_tables = map (\<lambda>l. (l_name l, newHostTable)) listeners\<rparr>))
       (\<lambda>(ids, c). Inr c)"

section \<open>The snapshot\<close>

definition compile_handler ::
  "('l, 'w) options \<Rightarrow> 'l policies \<Rightarrow> 'l compiling \<Rightarrow> (string, listenerSpec \<times> clientIPResolver) gomap \<Rightarrow>
   Listener \<Rightarrow> (string \<times> 'l gateway listenerRuntime) result" where
  "compile_handler opts policies c specs l =
     rbind (wrap_err (Wrapf ''listener %q: %w'' [l_name l])
        (applyPolicies (hostDispatcher (the (mget (cg_tables c) (l_name l)))) (l_policies l) policies)) (\<lambda>handler.
       Inr (l_name l, \<lparr>lr_spec = fst (the (mget specs (l_name l))), lr_handler = Chain handler (o_middleware opts),
                       lr_clientIP = snd (the (mget specs (l_name l)))\<rparr>))"

definition compile_listeners_of :: "Config \<Rightarrow> certificateStore \<Rightarrow> bool \<Rightarrow> Listener list" where
  "compile_listeners_of cfg certs hasACME =
     (if c_listeners cfg = [] then defaultListeners (\<not> certificateStore_empty certs \<or> hasACME) else c_listeners cfg)"

definition prev_transports :: "'l snapshot option \<Rightarrow> (transportKey, pool) gomap" where
  "prev_transports prev = (case prev of None \<Rightarrow> [] | Some p \<Rightarrow> sn_transports p)"

definition compile ::
  "Config \<Rightarrow> ('l, 'w) options \<Rightarrow> 'l snapshot option \<Rightarrow> ('l, 'w) heap \<Rightarrow> ('l snapshot \<times> ('l, 'w) heap) result" where
  "compile cfg opts prev h =
     (if c_version cfg \<noteq> 0 \<and> c_version cfg \<noteq> 1
      then Inl (Errorf ''unsupported config version %d'' [itoa (c_version cfg)])
      else
        rbind (withDefaults (c_server cfg)) (\<lambda>server.
        rbind (tlsVersion (minVersion (c_tls cfg))) (\<lambda>minTLS.
        rbind (loadCertificates (o_tls opts) (certificates (c_tls cfg))) (\<lambda>certs.
        rbind (compilePolicies (o_rates opts) (c_policies cfg)
                 (case prev of None \<Rightarrow> [] | Some p \<Rightarrow> sn_policies p) (hp_gateway h)) (\<lambda>(policies, gw).
        rbind (acmeManagerFor (acme (c_tls cfg)) opts prev h) (\<lambda>(manager, h1).
          let listeners = compile_listeners_of cfg certs (manager \<noteq> None) in
          rbind (compile_listeners server minTLS listeners) (\<lambda>lt.
          rbind (compile_sites opts policies certs (manager \<noteq> None) listeners (lt_byName lt) (c_sites cfg)
                   \<lparr>ts_now = [], ts_prev = prev_transports prev, ts_next = hp_pools h\<rparr>) (\<lambda>c.
            let tlsHosts = sortStrings (remdups (cg_tlsHosts c));
                managed = managedHosts tlsHosts certs (manager \<noteq> None)
            in if managed \<noteq> [] \<and> \<not> list_ex (\<lambda>l. \<not> l_tls l) listeners
               then Inl (Errorf ''tls.acme needs a plain HTTP listener to answer HTTP-01 challenges'' [])
               else rbind (rmap (compile_handler opts policies c (lt_specs lt)) listeners) (\<lambda>runtimes.
                 Inr (\<lparr>sn_config = cfg, sn_server = server, sn_listeners = runtimes, sn_certs = certs,
                       sn_minTLS = minTLS, sn_policies = policies, sn_transports = ts_now (cg_transports c),
                       sn_tlsHosts = tlsHosts, sn_acme = manager, sn_managedHosts = managed\<rparr>,
                      h1\<lparr>hp_gateway := gw, hp_pools := ts_next (cg_transports c)\<rparr>))))))))))"

section \<open>Which site serves a host\<close>

text \<open>The abstract view of the tables: the entry for a pattern on a listener.\<close>

definition view :: "'l compiling \<Rightarrow> string \<Rightarrow> string \<Rightarrow> 'l gateway siteEntry option" where
  "view c L p = (case mget (cg_tables c) L of None \<Rightarrow> None | Some t \<Rightarrow> hostTable_get t p)"

definition tables_ok :: "'l compiling \<Rightarrow> bool" where
  "tables_ok c \<longleftrightarrow> (\<forall>L t. mget (cg_tables c) L = Some t \<longrightarrow> wf_hostTable t)"

lemma add_hosts_Inr:
  "rfold (add_host L e) hosts t = Inr t' \<Longrightarrow> wf_hostTable t \<Longrightarrow>
   wf_hostTable t' \<and> (\<forall>p. hostTable_get t' p = (if p \<in> set hosts then Some e else hostTable_get t p)) \<and>
   (\<forall>p \<in> set hosts. hostTable_get t p = None)"
proof (induction hosts arbitrary: t)
  case (Cons h hosts)
  from Cons.prems(1) obtain t1 where t1: "add_host L e h t = Inr t1"
    and rest1: "rfold (add_host L e) hosts t1 = Inr t'"
    by (auto simp only: rfold.simps rbind_Inr_iff)
  from t1 have none: "hostTable_get t h = None" and "t1 = snd (hostTable_set h e t)"
    by (simp_all add: add_host_def split: option.splits)
  with rest1 have rest: "rfold (add_host L e) hosts (snd (hostTable_set h e t)) = Inr t'" by simp
  from Cons.IH [OF rest] Cons.prems(2) none show ?case by (auto simp: ht.get_put split: if_splits)
qed simp

lemma require_hosts:
  "rfold (\<lambda>h seen. rbind (requireCertificate certs a h L) (\<lambda>_. Inr (h # seen))) hosts seen = Inr seen' \<Longrightarrow>
   set seen' = set seen \<union> set hosts \<and> (\<forall>h \<in> set hosts. requireCertificate certs a h L = Inr ())"
  by (induction hosts arbitrary: seen) (auto simp: result_simps)

lemma serve_on_Inr:
  assumes "serve_on certs a byName hosts entry L c = Inr c'" and "tables_ok c"
  shows "tables_ok c'"
    and "view c' M p = (if M = L \<and> p \<in> set hosts then Some (entry L) else view c M p)"
    and "p \<in> set hosts \<Longrightarrow> view c L p = None"
    and "cg_transports c' = cg_transports c"
    and "set (cg_tlsHosts c') = set (cg_tlsHosts c) \<union> (if is_tls byName L then set hosts else {})"
    and "is_tls byName L \<Longrightarrow> h \<in> set hosts \<Longrightarrow> requireCertificate certs a h L = Inr ()"
proof -
  let ?t = "case mget (cg_tables c) L of Some t \<Rightarrow> t | None \<Rightarrow> newHostTable"
  obtain seen t where seen: "(if is_tls byName L
      then rfold (\<lambda>h seen. rbind (requireCertificate certs a h L) (\<lambda>_. Inr (h # seen))) hosts (cg_tlsHosts c)
      else Inr (cg_tlsHosts c)) = Inr seen"
    and t: "rfold (add_host L (entry L)) hosts ?t = Inr t"
    and c': "c' = c\<lparr>cg_tlsHosts := seen, cg_tables := mput L t (cg_tables c)\<rparr>"
    using assms(1) unfolding serve_on_def rbind_Inr_iff by blast
  have wf: "wf_hostTable ?t" using assms(2) by (auto simp: tables_ok_def split: option.split)
  have get: "hostTable_get ?t p = view c L p" for p by (simp add: view_def split: option.split)
  note th = add_hosts_Inr [OF t wf]
  show "tables_ok c'" using assms(2) th by (auto simp: c' tables_ok_def)
  show "view c' M p = (if M = L \<and> p \<in> set hosts then Some (entry L) else view c M p)"
  proof (cases "M = L")
    case True
    then have "view c' M p = hostTable_get t p" by (simp add: view_def c')
    then show ?thesis using True th get by simp
  qed (simp add: view_def c')
  show "p \<in> set hosts \<Longrightarrow> view c L p = None" using th get by simp
  show "cg_transports c' = cg_transports c" by (simp add: c')
  show "set (cg_tlsHosts c') = set (cg_tlsHosts c) \<union> (if is_tls byName L then set hosts else {})"
  proof (cases "is_tls byName L")
    case True
    with seen have "rfold (\<lambda>h seen. rbind (requireCertificate certs a h L) (\<lambda>_. Inr (h # seen))) hosts (cg_tlsHosts c) = Inr seen"
      by simp
    from require_hosts [OF this] True show ?thesis by (simp add: c')
  qed (use seen in \<open>simp add: c'\<close>)
  show "requireCertificate certs a h L = Inr ()" if "is_tls byName L" "h \<in> set hosts"
  proof -
    from that seen have "rfold (\<lambda>h seen. rbind (requireCertificate certs a h L) (\<lambda>_. Inr (h # seen))) hosts (cg_tlsHosts c) = Inr seen"
      by simp
    from require_hosts [OF this] that(2) show ?thesis by simp
  qed
qed

lemma serve_on_fold:
  assumes "rfold (serve_on certs a byName hosts entry) ls c = Inr c'" and "tables_ok c"
  shows "tables_ok c' \<and>
    (\<forall>M p. view c' M p = (if M \<in> set ls \<and> p \<in> set hosts then Some (entry M) else view c M p)) \<and>
    (\<forall>M \<in> set ls. \<forall>p \<in> set hosts. view c M p = None) \<and> cg_transports c' = cg_transports c \<and>
    set (cg_tlsHosts c') = set (cg_tlsHosts c) \<union> {h \<in> set hosts. \<exists>L \<in> set ls. is_tls byName L} \<and>
    (\<forall>L \<in> set ls. is_tls byName L \<longrightarrow> (\<forall>h \<in> set hosts. requireCertificate certs a h L = Inr ()))"
  using assms
proof (induction ls arbitrary: c)
  case (Cons L ls)
  from Cons.prems(1) obtain c1 where c1: "serve_on certs a byName hosts entry L c = Inr c1"
    and rest: "rfold (serve_on certs a byName hosts entry) ls c1 = Inr c'"
    by (auto simp: rbind_Inr_iff)
  note s = serve_on_Inr [OF c1 Cons.prems(2)]
  note ih = Cons.IH [OF rest s(1)]
  have "view c M p = None" if "M \<in> set ls" "p \<in> set hosts" for M p
    using ih that s(2) [of M p] s(3) [of p] by (metis option.distinct(1))
  moreover have "set (cg_tlsHosts c') = set (cg_tlsHosts c) \<union> {h \<in> set hosts. \<exists>M \<in> set (L # ls). is_tls byName M}"
    using ih s(5) by auto
  ultimately show ?case using ih s(2,3,4,6) by auto
qed simp

lemma rmap_hosts:
  "rmap (\<lambda>h. rbind (validateHostPattern (normalizeHost h)) (\<lambda>_. Inr (normalizeHost h))) hs = Inr hosts \<Longrightarrow>
   hosts = map normalizeHost hs \<and> (\<forall>h \<in> set hosts. validateHostPattern h = Inr ())"
  by (induction hs arbitrary: hosts) (auto simp: rbind_Inr_iff)

lemma site_hosts_Inr:
  "site_hosts site = Inr hosts \<Longrightarrow> hosts = map normalizeHost (s_hosts site) \<and> hosts \<noteq> [] \<and>
   (\<forall>h \<in> set hosts. validateHostPattern h = Inr ())"
  using rmap_hosts by (auto simp: site_hosts_def split: if_splits)

definition https_port :: "(string, Listener) gomap \<Rightarrow> Listener list \<Rightarrow> Site \<Rightarrow> string" where
  "https_port byName listeners site =
     (case rfold (note_port byName) (served_listeners listeners site) [] of Inr p \<Rightarrow> p | Inl _ \<Rightarrow> [])"

text \<open>
  The handler of a site: a mux with one entry per configured route, the route's
  pattern and compiled handler, inside the site's policies.
\<close>

definition compiled_routes ::
  "('l, 'w) options \<Rightarrow> 'l policies \<Rightarrow> Route list \<Rightarrow> 'l gateway handler serveMux \<Rightarrow> bool" where
  "compiled_routes opts policies routes mux \<longleftrightarrow> list_all2 (\<lambda>r (p, handler).
     parsePattern (route_pattern r) = Inr p \<and> (\<exists>ts ts'. compile_route opts policies r ts = Inr (handler, ts'))) routes mux"

definition site_handler ::
  "('l, 'w) options \<Rightarrow> 'l policies \<Rightarrow> Site \<Rightarrow> 'l gateway handler \<Rightarrow> bool" where
  "site_handler opts policies site handler \<longleftrightarrow> (\<exists>routes mux wrapped.
     site_routes site = Inr routes \<and> distinct (map route_label routes) \<and> mux_ok mux \<and>
     compiled_routes opts policies routes mux \<and>
     applyPolicies (mux_serve mux) (s_policies site) policies = Inr wrapped \<and>
     handler = withSite (site_ID site) wrapped)"

lemma add_route_Inr:
  assumes "add_route opts policies r (mux, names, ts) = Inr (mux', names', ts')" and "mux_ok mux"
  shows "mux_ok mux' \<and> names' = route_label r # names \<and> route_label r \<notin> set names \<and>
    (\<exists>p handler. parsePattern (route_pattern r) = Inr p \<and> compile_route opts policies r ts = Inr (handler, ts') \<and>
       mux' = mux @ [(p, handler)])"
proof -
  from assms(1) obtain handler where "register mux (route_pattern r) handler = Inr mux'"
    and "compile_route opts policies r ts = Inr (handler, ts')"
    and "names' = route_label r # names" and "route_label r \<notin> set names"
    by (auto simp: add_route_def Let_def rbind_Inr_iff wrap_err_Inr_iff split: if_splits prod.splits)
  with mux_ok_register [OF this(1) assms(2)] show ?thesis by blast
qed

lemma add_routes_Inr:
  assumes "rfold (add_route opts policies) rs (mux, names, ts) = Inr (mux', names', ts')" and "mux_ok mux"
  shows "mux_ok mux' \<and> distinct (map route_label rs) \<and> set (map route_label rs) \<inter> set names = {} \<and>
    (\<exists>new. mux' = mux @ new \<and> compiled_routes opts policies rs new)"
  using assms
proof (induction rs arbitrary: mux names ts)
  case (Cons r rs)
  from Cons.prems(1) obtain mux1 names1 ts1 where
    one: "add_route opts policies r (mux, names, ts) = Inr (mux1, names1, ts1)" and
    rest: "rfold (add_route opts policies) rs (mux1, names1, ts1) = Inr (mux', names', ts')"
    by (auto simp only: rfold.simps rbind_Inr_iff)
  from add_route_Inr [OF one Cons.prems(2)] obtain p handler where
    a: "mux_ok mux1" "names1 = route_label r # names" "route_label r \<notin> set names"
      "parsePattern (route_pattern r) = Inr p" "compile_route opts policies r ts = Inr (handler, ts1)"
      "mux1 = mux @ [(p, handler)]" by blast
  from Cons.IH [OF rest a(1)] obtain new where
    b: "mux' = mux1 @ new" "compiled_routes opts policies rs new"
      "mux_ok mux'" "distinct (map route_label rs)" "set (map route_label rs) \<inter> set names1 = {}" by blast
  have "mux' = mux @ ((p, handler) # new)" using a b by simp
  moreover have "compiled_routes opts policies (r # rs) ((p, handler) # new)"
    using a(4,5) b(2) by (auto simp: compiled_routes_def)
  ultimately show ?case using a(2,3) b(3-5) by auto
qed (simp add: compiled_routes_def)

text \<open>The places a site takes, and the entry it puts there.\<close>

definition places :: "Listener list \<Rightarrow> Site \<Rightarrow> (string \<times> string) set" where
  "places listeners site = set (served_listeners listeners site) \<times> (normalizeHost ` set (s_hosts site))"

lemma compile_site_Inr:
  assumes "compile_site opts policies certs a listeners byName site c = Inr c'" and "tables_ok c"
  shows "\<exists>handler. site_handler opts policies site handler \<and> tables_ok c' \<and>
    (\<forall>M p. view c' M p = (if (M, p) \<in> places listeners site
        then Some (site_entry byName (https_port byName listeners site) site handler M) else view c M p)) \<and>
    (\<forall>(M, p) \<in> places listeners site. view c M p = None) \<and>
    set (cg_tlsHosts c') = set (cg_tlsHosts c) \<union> {p. \<exists>M. (M, p) \<in> places listeners site \<and> is_tls byName M} \<and>
    (\<forall>(M, p) \<in> places listeners site. is_tls byName M \<longrightarrow> requireCertificate certs a p M = Inr ())"
proof -
  obtain hosts routes mux names ts wrapped port where
    hosts: "site_hosts site = Inr hosts" and
    routes: "site_routes site = Inr routes" "rfold (add_route opts policies) routes ([], [], cg_transports c) = Inr (mux, names, ts)" and
    wrapped: "applyPolicies (mux_serve mux) (s_policies site) policies = Inr wrapped" and
    port: "rfold (note_port byName) (served_listeners listeners site) [] = Inr port" and
    serve: "rfold (serve_on certs a byName hosts (site_entry byName port site (withSite (site_ID site) wrapped)))
        (served_listeners listeners site) (c\<lparr>cg_transports := ts\<rparr>) = Inr c'"
    using assms(1) unfolding compile_site_def rbind_Inr_iff by (auto simp: rbind_Inr_iff split: prod.splits)
  have same: "view (c\<lparr>cg_transports := ts\<rparr>) M p = view c M p" for M p by (simp add: view_def)
  have "tables_ok (c\<lparr>cg_transports := ts\<rparr>)" using assms(2) by (simp add: tables_ok_def)
  note s = serve_on_fold [OF serve this]
  have h: "set hosts = normalizeHost ` set (s_hosts site)" using site_hosts_Inr [OF hosts] by simp
  have p: "https_port byName listeners site = port" by (simp add: https_port_def port)
  have "site_handler opts policies site (withSite (site_ID site) wrapped)"
    using add_routes_Inr [OF routes(2)] routes(1) wrapped unfolding site_handler_def by auto
  then show ?thesis
    using s by (intro exI [of _ "withSite (site_ID site) wrapped"]) (auto simp: same h p places_def)
qed

end
