(* ===== verification/Snapshot.thy ===== *)
theory Snapshot
  imports Compile
begin

text \<open>
  What a compiled snapshot promises: every host of every site is served on its
  listeners by that site and no other, TLS hosts have a certificate or are
  managed by ACME, and a recompilation keeps the state of what did not change.
  The lemmas follow the compiler's loops: over the hosts and listeners of a
  site (\<open>compile_site_Inr\<close> in \<open>Compile\<close>), over the sites, over the listeners.
\<close>

section \<open>The loop over the sites\<close>

text \<open>The entries that the sites of a list put at the places they take.\<close>

definition serves :: "('l, 'w) options \<Rightarrow> 'l policies \<Rightarrow> (string, Listener) gomap \<Rightarrow> Listener list \<Rightarrow> 'l compiling \<Rightarrow> Site \<Rightarrow> bool" where
  "serves opts policies byName listeners c site \<longleftrightarrow> (\<exists>handler. site_handler opts policies site handler \<and> (\<forall>(L, p) \<in> places listeners site.
     view c L p = Some (site_entry byName (https_port byName listeners site) site handler L)))"

lemma step_Inr:
  assumes "compile_sites_step opts policies certs a listeners byName (i, site) (ids, c) = Inr (ids', c')"
  shows "ids' = site_ID site # ids" "site_ID site = [] \<or> site_ID site \<notin> set ids"
    "compile_site opts policies certs a listeners byName site c = Inr c'"
  using assms by (auto simp: compile_sites_step_def Let_def rbind_Inr_iff wrap_err_Inr_iff split: if_splits)

lemma serves_preserved:
  assumes "serves opts policies byName listeners c site" and "\<And>L p e. view c L p = Some e \<Longrightarrow> view c' L p = Some e"
  shows "serves opts policies byName listeners c' site"
  using assms unfolding serves_def by blast

definition disjoint_places :: "Listener list \<Rightarrow> Site list \<Rightarrow> bool" where
  "disjoint_places listeners sites \<longleftrightarrow>
     (\<forall>i j. i < j \<longrightarrow> j < length sites \<longrightarrow> places listeners (sites ! i) \<inter> places listeners (sites ! j) = {})"

text \<open>What one run of the loop does, from any state of the compiler on.\<close>

definition sites_compiled ::
  "('l, 'w) options \<Rightarrow> 'l policies \<Rightarrow> certificateStore \<Rightarrow> bool \<Rightarrow> Listener list \<Rightarrow> (string, Listener) gomap \<Rightarrow> Site list \<Rightarrow>
   'l compiling \<Rightarrow> 'l compiling \<Rightarrow> bool" where
  "sites_compiled opts policies certs a listeners byName sites c c' \<longleftrightarrow>
     tables_ok c' \<and>
     (\<forall>site \<in> set sites. serves opts policies byName listeners c' site) \<and>
     (\<forall>L p e. view c L p = Some e \<longrightarrow> view c' L p = Some e) \<and>
     (\<forall>L p e. view c' L p = Some e \<longrightarrow> view c L p = Some e \<or> (\<exists>site \<in> set sites. (L, p) \<in> places listeners site)) \<and>
     (\<forall>site \<in> set sites. \<forall>(L, p) \<in> places listeners site. view c L p = None) \<and>
     disjoint_places listeners sites \<and>
     set (cg_tlsHosts c') = set (cg_tlsHosts c) \<union>
       {p. \<exists>site \<in> set sites. \<exists>L. (L, p) \<in> places listeners site \<and> is_tls byName L} \<and>
     (\<forall>site \<in> set sites. \<forall>(L, p) \<in> places listeners site. is_tls byName L \<longrightarrow> requireCertificate certs a p L = Inr ())"

lemma disjoint_places_Cons:
  assumes "disjoint_places listeners sites"
    and "\<And>s. s \<in> set sites \<Longrightarrow> places listeners site \<inter> places listeners s = {}"
  shows "disjoint_places listeners (site # sites)"
  unfolding disjoint_places_def
proof (intro allI impI)
  fix i j assume ij: "i < j" "j < length (site # sites)"
  then obtain j' where j: "j = Suc j'" "j' < length sites" by (cases j) auto
  show "places listeners ((site # sites) ! i) \<inter> places listeners ((site # sites) ! j) = {}"
  proof (cases i)
    case 0
    then show ?thesis using assms(2) [of "sites ! j'"] j by simp
  next
    case (Suc i')
    then show ?thesis using assms(1) ij j unfolding disjoint_places_def by auto
  qed
qed

lemma sites_compiledD:
  assumes "sites_compiled opts policies certs a listeners byName sites c c'"
  shows "tables_ok c'"
    and "site \<in> set sites \<Longrightarrow> serves opts policies byName listeners c' site"
    and "view c L p = Some e \<Longrightarrow> view c' L p = Some e"
    and "view c' L p = Some e \<Longrightarrow> view c L p = Some e \<or> (\<exists>site \<in> set sites. (L, p) \<in> places listeners site)"
    and "site \<in> set sites \<Longrightarrow> (L, p) \<in> places listeners site \<Longrightarrow> view c L p = None"
    and "disjoint_places listeners sites"
    and "set (cg_tlsHosts c') = set (cg_tlsHosts c) \<union>
       {p. \<exists>site \<in> set sites. \<exists>L. (L, p) \<in> places listeners site \<and> is_tls byName L}"
    and "site \<in> set sites \<Longrightarrow> (L, p) \<in> places listeners site \<Longrightarrow> is_tls byName L \<Longrightarrow> requireCertificate certs a p L = Inr ()"
  by (use assms in \<open>unfold sites_compiled_def, elim conjE, fast\<close>)+

lemmas sites_free = sites_compiledD(5)

lemma sites_compiled_Cons:
  assumes "compile_site opts policies certs a listeners byName site c = Inr c1" and "tables_ok c"
    and rest: "sites_compiled opts policies certs a listeners byName sites c1 c'"
  shows "sites_compiled opts policies certs a listeners byName (site # sites) c c'"
proof -
  from compile_site_Inr [OF assms(1,2)] obtain handler where
    handler: "site_handler opts policies site handler" and
    v: "\<And>M p. view c1 M p = (if (M, p) \<in> places listeners site
        then Some (site_entry byName (https_port byName listeners site) site handler M) else view c M p)" and
    free: "\<forall>(M, p) \<in> places listeners site. view c M p = None" and
    tls: "set (cg_tlsHosts c1) = set (cg_tlsHosts c) \<union> {p. \<exists>M. (M, p) \<in> places listeners site \<and> is_tls byName M}" and
    req: "\<forall>(M, p) \<in> places listeners site. is_tls byName M \<longrightarrow> requireCertificate certs a p M = Inr ()"
    by blast
  have here: "serves opts policies byName listeners c1 site"
    unfolding serves_def by (intro exI [of _ handler]) (auto simp: v handler)
  have more: "view c1 L p = Some e" if "view c L p = Some e" for L p e
  proof -
    have "(L, p) \<notin> places listeners site" using that free by auto
    then show ?thesis using that v by simp
  qed
  have apart: "places listeners site \<inter> places listeners s = {}" if "s \<in> set sites" for s
  proof (rule ccontr)
    assume "places listeners site \<inter> places listeners s \<noteq> {}"
    then obtain L p where "(L, p) \<in> places listeners site" "(L, p) \<in> places listeners s" by auto
    moreover from sites_free [OF rest that this(2)] have "view c1 L p = None" .
    ultimately show False by (simp add: v)
  qed
  have old: "view c L p = None" if "s \<in> set sites" "(L, p) \<in> places listeners s" for s L p
    using sites_free [OF rest that] more [of L p] by (cases "view c L p") auto
  show ?thesis
    unfolding sites_compiled_def
  proof (intro conjI)
    show "tables_ok c'" using rest by (simp add: sites_compiled_def)
    show "\<forall>s \<in> set (site # sites). serves opts policies byName listeners c' s"
      using serves_preserved [OF here sites_compiledD(3) [OF rest]] sites_compiledD(2) [OF rest] by simp
    show "\<forall>L p e. view c L p = Some e \<longrightarrow> view c' L p = Some e"
      using sites_compiledD(3) [OF rest] more by blast
    show "\<forall>L p e. view c' L p = Some e \<longrightarrow>
        view c L p = Some e \<or> (\<exists>s \<in> set (site # sites). (L, p) \<in> places listeners s)"
      using sites_compiledD(4) [OF rest] v by (metis list.set_intros)
    show "\<forall>s \<in> set (site # sites). \<forall>(L, p) \<in> places listeners s. view c L p = None"
      using old free by auto
    show "disjoint_places listeners (site # sites)"
      by (rule disjoint_places_Cons [OF sites_compiledD(6) [OF rest] apart])
    show "set (cg_tlsHosts c') = set (cg_tlsHosts c) \<union>
        {p. \<exists>s \<in> set (site # sites). \<exists>L. (L, p) \<in> places listeners s \<and> is_tls byName L}"
      using sites_compiledD(7) [OF rest] tls by auto
    show "\<forall>s \<in> set (site # sites). \<forall>(L, p) \<in> places listeners s.
        is_tls byName L \<longrightarrow> requireCertificate certs a p L = Inr ()"
      using sites_compiledD(8) [OF rest] req by auto
  qed
qed

lemma sites_fold:
  assumes "rfold (compile_sites_step opts policies certs a listeners byName) iss (ids, c) = Inr (ids', c')"
    and "tables_ok c" and "distinct (filter (\<lambda>x. x \<noteq> []) ids)"
  shows "sites_compiled opts policies certs a listeners byName (map snd iss) c c' \<and>
    distinct (filter (\<lambda>x. x \<noteq> []) ids') \<and> ids' = rev (map (site_ID \<circ> snd) iss) @ ids"
  using assms
proof (induction iss arbitrary: ids c)
  case Nil
  then show ?case by (simp add: sites_compiled_def disjoint_places_def)
next
  case (Cons x iss)
  obtain i site where x: "x = (i, site)" by fastforce
  from Cons.prems(1) obtain ids1 c1 where
    s1: "compile_sites_step opts policies certs a listeners byName (i, site) (ids, c) = Inr (ids1, c1)" and
    rest: "rfold (compile_sites_step opts policies certs a listeners byName) iss (ids1, c1) = Inr (ids', c')"
    by (auto simp only: x rfold.simps rbind_Inr_iff)
  note st = step_Inr [OF s1]
  have "tables_ok c1" using compile_site_Inr [OF st(3) Cons.prems(2)] by blast
  moreover have "distinct (filter (\<lambda>x. x \<noteq> []) ids1)" using st(1,2) Cons.prems(3) by auto
  ultimately have ih: "sites_compiled opts policies certs a listeners byName (map snd iss) c1 c'"
    "distinct (filter (\<lambda>x. x \<noteq> []) ids')" "ids' = rev (map (site_ID \<circ> snd) iss) @ ids1"
    using Cons.IH [OF rest] by blast+
  show ?case using sites_compiled_Cons [OF st(3) Cons.prems(2) ih(1)] ih(2,3) st(1) by (simp add: x)
qed

definition initial :: "Listener list \<Rightarrow> transports \<Rightarrow> 'l compiling" where
  "initial listeners ts = \<lparr>cg_transports = ts, cg_tlsHosts = [], cg_tables = map (\<lambda>l. (l_name l, newHostTable)) listeners\<rparr>"

lemma initial_tables: "mget (cg_tables (initial listeners ts)) L = Some t \<Longrightarrow> t = newHostTable"
  unfolding initial_def by (auto dest: map_of_SomeD)

lemma initial_ok [simp]: "tables_ok (initial listeners ts)" "view (initial listeners ts) L p = None"
  "cg_tlsHosts (initial listeners ts) = []"
proof -
  show "tables_ok (initial listeners ts)" unfolding tables_ok_def using initial_tables wf_newHostTable by metis
  show "view (initial listeners ts) L p = None"
    unfolding view_def by (auto split: option.split dest!: initial_tables)
qed (simp add: initial_def)

lemma compile_sites_Inr:
  assumes "compile_sites opts policies certs a listeners byName sites ts = Inr c"
  shows "sites_compiled opts policies certs a listeners byName sites (initial listeners ts) c"
    and "distinct (filter (\<lambda>x. x \<noteq> []) (map site_ID sites))"
proof -
  from assms obtain ids where
    "rfold (compile_sites_step opts policies certs a listeners byName) (enumerate 0 sites) ([], initial listeners ts) = Inr (ids, c)"
    by (auto simp: compile_sites_def initial_def rbind_Inr_iff)
  from sites_fold [OF this initial_ok(1)] have
    "sites_compiled opts policies certs a listeners byName (map snd (enumerate 0 sites)) (initial listeners ts) c"
    "distinct (filter (\<lambda>x. x \<noteq> []) (rev (map (site_ID \<circ> snd) (enumerate 0 sites))))"
    by (simp, fastforce)
  moreover have "map snd (enumerate 0 sites) = sites" by (simp add: enumerate_eq_zip)
  ultimately show "sites_compiled opts policies certs a listeners byName sites (initial listeners ts) c"
    "distinct (filter (\<lambda>x. x \<noteq> []) (map site_ID sites))"
    by (simp_all add: rev_filter [symmetric] flip: map_map)
qed

section \<open>The listeners\<close>

lemma compile_listener_Inr:
  assumes "compile_listener server minTLS l t = Inr t'"
  shows "l_name l \<noteq> []" "\<not> mhas (lt_byName t) (l_name l)" "l_address l \<noteq> []"
    and "mhas (lt_addresses t) (l_address l) \<Longrightarrow> hasSuffix (l_address l) '':0''"
    and "lt_byName t' = mput (l_name l) l (lt_byName t)"
    and "lt_addresses t' = mput (l_address l) (l_name l) (lt_addresses t)"
    and "\<exists>resolver. newClientIPResolver (l_trustedProxies l) = Inr resolver \<and>
      lt_specs t' = mput (l_name l) (\<lparr>sp_address = l_address l, sp_tls = l_tls l,
        sp_minTLS = (if l_tls l then minTLS else 0), sp_server = server\<rparr>, resolver) (lt_specs t)"
  using assms unfolding compile_listener_def by (auto simp: rbind_Inr_iff wrap_err_Inr_iff split: if_splits)

definition runtime_of :: "ServerConfig \<Rightarrow> nat \<Rightarrow> Listener \<Rightarrow> listenerSpec \<times> clientIPResolver \<Rightarrow> bool" where
  "runtime_of server minTLS l spec \<longleftrightarrow> newClientIPResolver (l_trustedProxies l) = Inr (snd spec) \<and>
     fst spec = \<lparr>sp_address = l_address l, sp_tls = l_tls l, sp_minTLS = (if l_tls l then minTLS else 0), sp_server = server\<rparr>"

definition listed :: "ServerConfig \<Rightarrow> nat \<Rightarrow> Listener list \<Rightarrow> listenerTable \<Rightarrow> bool" where
  "listed server minTLS ls t \<longleftrightarrow>
     distinct (map l_name ls) \<and> distinct (filter (\<lambda>a. \<not> hasSuffix a '':0'') (map l_address ls)) \<and>
     (\<forall>n. mhas (lt_byName t) n \<longleftrightarrow> n \<in> l_name ` set ls) \<and>
     (\<forall>a. mhas (lt_addresses t) a \<longleftrightarrow> a \<in> l_address ` set ls) \<and>
     (\<forall>l \<in> set ls. l_name l \<noteq> [] \<and> l_address l \<noteq> [] \<and> mget (lt_byName t) (l_name l) = Some l \<and>
        (\<exists>spec. mget (lt_specs t) (l_name l) = Some spec \<and> runtime_of server minTLS l spec))"

lemma listed_snoc:
  assumes "listed server minTLS ls t" and "compile_listener server minTLS l t = Inr t'"
  shows "listed server minTLS (ls @ [l]) t'"
proof -
  note c = compile_listener_Inr [OF assms(2)]
  have new: "l_name l \<notin> l_name ` set ls" using assms(1) c(2) by (simp add: listed_def)
  obtain resolver where r: "newClientIPResolver (l_trustedProxies l) = Inr resolver"
    "lt_specs t' = mput (l_name l) (\<lparr>sp_address = l_address l, sp_tls = l_tls l,
        sp_minTLS = (if l_tls l then minTLS else 0), sp_server = server\<rparr>, resolver) (lt_specs t)"
    using c(7) by blast
  have other: "l_name m \<noteq> l_name l" if "m \<in> set ls" for m using new that by (metis image_eqI)
  have "hasSuffix (l_address l) '':0'' \<or> l_address l \<notin> l_address ` set ls"
    using assms(1) c(4) unfolding listed_def by blast
  with assms(1) have addr: "distinct (filter (\<lambda>a. \<not> hasSuffix a '':0'') (map l_address (ls @ [l])))"
    by (auto simp: listed_def)
  have entries: "\<forall>m \<in> set (ls @ [l]). l_name m \<noteq> [] \<and> l_address m \<noteq> [] \<and> mget (lt_byName t') (l_name m) = Some m \<and>
        (\<exists>spec. mget (lt_specs t') (l_name m) = Some spec \<and> runtime_of server minTLS m spec)"
    using assms(1) c(1,3,5) r other by (auto simp: listed_def runtime_of_def)
  show ?thesis
    using assms(1) new addr entries c(5,6) by (auto simp: listed_def)
qed

lemma compile_listeners_fold:
  assumes "rfold (compile_listener server minTLS) ls t = Inr t'" and "listed server minTLS ls0 t"
  shows "listed server minTLS (ls0 @ ls) t'"
  using assms
proof (induction ls arbitrary: t ls0)
  case (Cons l ls)
  from Cons.prems(1) obtain t1 where "compile_listener server minTLS l t = Inr t1"
    and rest: "rfold (compile_listener server minTLS) ls t1 = Inr t'"
    by (auto simp only: rfold.simps rbind_Inr_iff)
  from Cons.IH [OF rest listed_snoc [OF Cons.prems(2) this(1)]] show ?case by simp
qed simp

lemma compile_listeners_Inr:
  "compile_listeners server minTLS ls = Inr t \<Longrightarrow> listed server minTLS ls t"
  using compile_listeners_fold [of server minTLS ls _ t "[]"]
  unfolding compile_listeners_def by (simp add: listed_def)

section \<open>The compiled snapshot\<close>

text \<open>The parts of a successful compilation.\<close>

definition snapshot_listeners :: "'l snapshot \<Rightarrow> Listener list" where
  "snapshot_listeners s = compile_listeners_of (sn_config s) (sn_certs s) (sn_acme s \<noteq> None)"

lemma compile_Inr:
  assumes "compile cfg opts prev h = Inr (s, h')"
  obtains gw h1 lt c where "sn_config s = cfg" and "withDefaults (c_server cfg) = Inr (sn_server s)"
    and "compilePolicies (o_rates opts) (c_policies cfg)
           (case prev of None \<Rightarrow> [] | Some p \<Rightarrow> sn_policies p) (hp_gateway h) = Inr (sn_policies s, gw)"
    and "acmeManagerFor (acme (c_tls cfg)) opts prev h = Inr (sn_acme s, h1)"
    and "compile_listeners (sn_server s) (sn_minTLS s) (snapshot_listeners s) = Inr lt"
    and "compile_sites opts (sn_policies s) (sn_certs s) (sn_acme s \<noteq> None) (snapshot_listeners s) (lt_byName lt)
           (c_sites cfg) \<lparr>ts_now = [], ts_prev = prev_transports prev, ts_next = hp_pools h\<rparr> = Inr c"
    and "sn_tlsHosts s = sortStrings (remdups (cg_tlsHosts c))"
    and "sn_managedHosts s = managedHosts (sn_tlsHosts s) (sn_certs s) (sn_acme s \<noteq> None)"
    and "sn_managedHosts s \<noteq> [] \<longrightarrow> (\<exists>l \<in> set (snapshot_listeners s). \<not> l_tls l)"
    and "rmap (compile_handler opts (sn_policies s) c (lt_specs lt)) (snapshot_listeners s) = Inr (sn_listeners s)"
    and "sn_transports s = ts_now (cg_transports c)"
    and "h' = h1\<lparr>hp_gateway := gw, hp_pools := ts_next (cg_transports c)\<rparr>"
proof -
  let ?ls = "\<lambda>certs manager. compile_listeners_of cfg certs (manager \<noteq> None)"
  from assms obtain server minTLS certs policies gw manager h1 lt c runtimes where
    parts: "withDefaults (c_server cfg) = Inr server"
      "compilePolicies (o_rates opts) (c_policies cfg)
        (case prev of None \<Rightarrow> [] | Some p \<Rightarrow> sn_policies p) (hp_gateway h) = Inr (policies, gw)"
      "acmeManagerFor (acme (c_tls cfg)) opts prev h = Inr (manager, h1)"
      "compile_listeners server minTLS (?ls certs manager) = Inr lt"
      "compile_sites opts policies certs (manager \<noteq> None) (?ls certs manager) (lt_byName lt)
         (c_sites cfg) \<lparr>ts_now = [], ts_prev = prev_transports prev, ts_next = hp_pools h\<rparr> = Inr c"
      "\<not> (managedHosts (sortStrings (remdups (cg_tlsHosts c))) certs (manager \<noteq> None) \<noteq> [] \<and>
          \<not> list_ex (\<lambda>l. \<not> l_tls l) (?ls certs manager))"
      "rmap (compile_handler opts policies c (lt_specs lt)) (?ls certs manager) = Inr runtimes"
    and s: "s = \<lparr>sn_config = cfg, sn_server = server, sn_listeners = runtimes, sn_certs = certs,
        sn_minTLS = minTLS, sn_policies = policies, sn_transports = ts_now (cg_transports c),
        sn_tlsHosts = sortStrings (remdups (cg_tlsHosts c)), sn_acme = manager,
        sn_managedHosts = managedHosts (sortStrings (remdups (cg_tlsHosts c))) certs (manager \<noteq> None)\<rparr>"
    and h': "h' = h1\<lparr>hp_gateway := gw, hp_pools := ts_next (cg_transports c)\<rparr>"
    unfolding compile_def Let_def rbind_Inr_iff split_paired_Ex prod.case if_Inl_Inr_iff sum.inject prod.inject by blast
  have ls: "snapshot_listeners s = ?ls certs manager" by (simp add: snapshot_listeners_def s)
  show ?thesis
    by (rule that [of gw h1 lt c]) (use parts in \<open>simp_all add: ls h' list_ex_iff, simp_all add: s, blast\<close>)
qed

text \<open>
  The specification of routing by host: the site that lists the first of the
  host's patterns some site of the listener lists.
\<close>

definition responsible :: "Listener list \<Rightarrow> Site list \<Rightarrow> string \<Rightarrow> string \<Rightarrow> Site option" where
  "responsible listeners sites L host =
     firstSome (\<lambda>p. find (\<lambda>site. (L, p) \<in> places listeners site) sites) (hostPatterns host)"

definition by_name :: "Listener list \<Rightarrow> (string, Listener) gomap" where
  "by_name ls = map (\<lambda>l. (l_name l, l)) ls"

lemma by_name_get:
  assumes "distinct (map l_name ls)"
  shows "mget (by_name ls) n = Some l \<longleftrightarrow> l \<in> set ls \<and> l_name l = n"
proof -
  have "distinct (map fst (by_name ls))" using assms by (simp add: by_name_def comp_def)
  from map_of_eq_Some_iff [OF this] show ?thesis by (auto simp: by_name_def)
qed

lemma listed_by_name:
  assumes "listed server minTLS ls t"
  shows "mget (lt_byName t) = mget (by_name ls)"
proof
  fix n
  from assms have d: "distinct (map l_name ls)" by (simp add: listed_def)
  show "mget (lt_byName t) n = mget (by_name ls) n"
  proof (cases "n \<in> l_name ` set ls")
    case True
    then obtain l where l: "l \<in> set ls" "l_name l = n" by blast
    with assms have "mget (lt_byName t) (l_name l) = Some l" unfolding listed_def by blast
    moreover from l have "mget (by_name ls) n = Some l" by (simp add: by_name_get [OF d])
    ultimately show ?thesis using l by simp
  next
    case False
    then have "\<not> mhas (lt_byName t) n" using assms by (simp add: listed_def)
    moreover have "mget (by_name ls) n = None" using False by_name_get [OF d] by (metis image_eqI option.exhaust)
    ultimately show ?thesis by (simp add: mhas_def)
  qed
qed

lemma same_lookup:
  assumes "mget m = mget m'"
  shows "https_port m = https_port m'" and "is_tls m = is_tls m'" and "site_entry m = site_entry m'"
proof -
  have n: "note_port m = note_port m'" and t: "is_tls m = is_tls m'"
    by (intro ext, simp add: note_port_def is_tls_def assms)+
  show "https_port m = https_port m'" by (intro ext) (simp add: https_port_def n)
  show "is_tls m = is_tls m'" by (rule t)
  show "site_entry m = site_entry m'" by (intro ext) (simp add: site_entry_def t)
qed

lemma is_tls_by_name: "distinct (map l_name ls) \<Longrightarrow> l \<in> set ls \<Longrightarrow> is_tls (by_name ls) (l_name l) = l_tls l"
  using by_name_get [of ls "l_name l" l] by (simp add: is_tls_def)

text \<open>What a site does on a listener: redirect to HTTPS, or run its own handler.\<close>

definition on_listener :: "Listener list \<Rightarrow> Listener \<Rightarrow> Site \<Rightarrow> 'g handler \<Rightarrow> 'g handler" where
  "on_listener ls l site handler =
     (let port = https_port (by_name ls) ls site in
      if \<not> l_tls l \<and> port \<noteq> [] \<and> \<not> s_allowHTTP site
      then withSite (site_ID site) (withRoute ''https-redirect'' (httpsRedirect port)) else handler)"

lemma firstSome_map_option:
  "(\<And>x. f x = map_option g (k x)) \<Longrightarrow> firstSome f xs = map_option g (firstSome k xs)"
  by (induction xs) (auto split: option.splits)

lemma tables_responsible:
  assumes "sites_compiled opts policies certs a ls byName sites (initial ls ts) c"
    and "\<forall>site \<in> set sites. \<forall>(L, p) \<in> places ls site. view c L p = Some (entry site L)"
  shows "firstSome (view c L) (hostPatterns host) =
    map_option (\<lambda>site. entry site L) (responsible ls sites L host)"
proof -
  have "view c L p = map_option (\<lambda>site. entry site L) (find (\<lambda>site. (L, p) \<in> places ls site) sites)" for p
  proof (cases "find (\<lambda>site. (L, p) \<in> places ls site) sites")
    case None
    then have "\<And>e. view c L p \<noteq> Some e"
      using sites_compiledD(4) [OF assms(1), of L p] by (auto simp: find_None_iff)
    then show ?thesis using None by (cases "view c L p") auto
  next
    case (Some site)
    then have "site \<in> set sites" "(L, p) \<in> places ls site" by (auto simp: find_Some_iff)
    then show ?thesis using assms(2) Some by auto
  qed
  then show ?thesis unfolding responsible_def by (rule firstSome_map_option)
qed

text \<open>Every listener keeps its table.\<close>

lemma serve_on_has: "serve_on certs a byName hosts entry L c = Inr c' \<Longrightarrow> mhas (cg_tables c) n \<Longrightarrow> mhas (cg_tables c') n"
  unfolding serve_on_def rbind_Inr_iff by auto

lemma compile_site_has:
  assumes "compile_site opts policies certs a ls byName site c = Inr c'" and "mhas (cg_tables c) n"
  shows "mhas (cg_tables c') n"
proof -
  obtain hosts entry ts where
    serve: "rfold (serve_on certs a byName hosts entry) (served_listeners ls site) (c\<lparr>cg_transports := ts\<rparr>) = Inr c'"
    using assms(1) unfolding compile_site_def rbind_Inr_iff by (auto simp: rbind_Inr_iff split: prod.splits)
  show ?thesis
    by (rule rfold_invariant [OF serve, where P = "\<lambda>c. mhas (cg_tables c) n"]) (use assms(2) serve_on_has in auto)
qed

lemma compile_sites_has:
  assumes "compile_sites opts policies certs a ls byName sites ts = Inr c" and "n \<in> l_name ` set ls"
  shows "mhas (cg_tables c) n"
proof -
  from assms(1) obtain ids where
    f: "rfold (compile_sites_step opts policies certs a ls byName) (enumerate 0 sites) ([], initial ls ts) = Inr (ids, c)"
    by (auto simp: compile_sites_def initial_def rbind_Inr_iff)
  have "mhas (cg_tables (snd (ids, c))) n"
  proof (rule rfold_invariant [OF f, where P = "\<lambda>s. mhas (cg_tables (snd s)) n"])
    show "mhas (cg_tables (snd ([] :: string list, initial ls ts))) n"
      using assms(2) by (auto simp: initial_def mhas_iff_keys)
  next
    fix x u v
    assume "mhas (cg_tables (snd u)) n" "compile_sites_step opts policies certs a ls byName x u = Inr v"
    then show "mhas (cg_tables (snd v)) n"
      using step_Inr(3) [of opts policies certs a ls byName "fst x" "snd x" "fst u" "snd u" "fst v" "snd v"] compile_site_has
      by auto
  qed
  then show ?thesis by simp
qed

lemma compile_handler_Inr:
  "compile_handler opts policies c specs l = Inr y \<Longrightarrow>
   \<exists>handler. applyPolicies (hostDispatcher (the (mget (cg_tables c) (l_name l)))) (l_policies l) policies = Inr handler \<and>
     y = (l_name l, \<lparr>lr_spec = fst (the (mget specs (l_name l))), lr_handler = Chain handler (o_middleware opts),
       lr_clientIP = snd (the (mget specs (l_name l)))\<rparr>)"
  by (auto simp: compile_handler_def rbind_Inr_iff wrap_err_Inr_iff)

lemma compile_handlers_keys:
  "rmap (compile_handler opts policies c specs) ls = Inr rts \<Longrightarrow> mkeys rts = map l_name ls"
proof (induction ls arbitrary: rts)
  case (Cons l ls)
  then show ?case unfolding rmap.simps rbind_Inr_iff sum.inject by (auto dest!: compile_handler_Inr)
qed simp

lemma compile_handlers:
  assumes "rmap (compile_handler opts policies c specs) ls = Inr rts" and "distinct (map l_name ls)" and "l \<in> set ls"
  shows "\<exists>handler. applyPolicies (hostDispatcher (the (mget (cg_tables c) (l_name l)))) (l_policies l) policies = Inr handler \<and>
    mget rts (l_name l) = Some \<lparr>lr_spec = fst (the (mget specs (l_name l))), lr_handler = Chain handler (o_middleware opts),
       lr_clientIP = snd (the (mget specs (l_name l)))\<rparr>"
  using assms
proof (induction ls arbitrary: rts)
  case (Cons k ls)
  from Cons.prems(1) obtain h rts' where
    h: "applyPolicies (hostDispatcher (the (mget (cg_tables c) (l_name k)))) (l_policies k) policies = Inr h" and
    rts: "rts = (l_name k, \<lparr>lr_spec = fst (the (mget specs (l_name k))), lr_handler = Chain h (o_middleware opts),
       lr_clientIP = snd (the (mget specs (l_name k)))\<rparr>) # rts'" and
    rest: "rmap (compile_handler opts policies c specs) ls = Inr rts'"
    unfolding rmap.simps rbind_Inr_iff sum.inject by (auto dest!: compile_handler_Inr)
  show ?case
  proof (cases "l = k")
    case True
    then show ?thesis using h rts by simp
  next
    case False
    then have l: "l \<in> set ls" using Cons.prems(3) by simp
    have "l_name l \<noteq> l_name k" using imageI [OF l, of l_name] Cons.prems(2) by (metis distinct.simps(2) list.map(2) list.set_map)
    with l have "l \<in> set ls" "l_name l \<noteq> l_name k" by blast+
    then show ?thesis using Cons.IH [OF rest] Cons.prems(2) rts by simp
  qed
qed simp

lemma compiled_listener:
  assumes "compile cfg opts prev h = Inr (s, h')" and "l \<in> set (snapshot_listeners s)"
  shows "\<exists>rt dispatch handler site_h.
    mget (sn_listeners s) (l_name l) = Some rt \<and>
    applyPolicies dispatch (l_policies l) (sn_policies s) = Inr handler \<and>
    lr_handler rt = Chain handler (o_middleware opts) \<and>
    (\<forall>site \<in> set (c_sites cfg). site_handler opts (sn_policies s) site (site_h site)) \<and>
    (\<forall>r x. dispatch r x =
       (case responsible (snapshot_listeners s) (c_sites cfg) (l_name l) (requestHost (r_host r)) of
          None \<Rightarrow> httpNotFound r x
        | Some site \<Rightarrow> on_listener (snapshot_listeners s) l site (site_h site) r x))"
proof -
  let ?ls = "snapshot_listeners s"
  from compile_Inr [OF assms(1)] obtain gw h1 lt c where
    lt: "compile_listeners (sn_server s) (sn_minTLS s) ?ls = Inr lt" and
    c: "compile_sites opts (sn_policies s) (sn_certs s) (sn_acme s \<noteq> None) ?ls (lt_byName lt)
       (c_sites cfg) \<lparr>ts_now = [], ts_prev = prev_transports prev, ts_next = hp_pools h\<rparr> = Inr c" and
    rts: "rmap (compile_handler opts (sn_policies s) c (lt_specs lt)) ?ls = Inr (sn_listeners s)" .
  note listed = compile_listeners_Inr [OF lt]
  then have d: "distinct (map l_name ?ls)" by (simp add: listed_def)
  note look = same_lookup [OF listed_by_name [OF listed]]
  note sc = compile_sites_Inr(1) [OF c]
  have "\<exists>f. \<forall>site \<in> set (c_sites cfg). site_handler opts (sn_policies s) site (f site) \<and> (\<forall>(L, p) \<in> places ?ls site.
      view c L p = Some (site_entry (lt_byName lt) (https_port (lt_byName lt) ?ls site) site (f site) L))"
    by (rule bchoice) (use sites_compiledD(2) [OF sc] in \<open>simp add: serves_def\<close>)
  then obtain site_h where
    sh: "\<forall>site \<in> set (c_sites cfg). site_handler opts (sn_policies s) site (site_h site)" and
    ent: "\<forall>site \<in> set (c_sites cfg). \<forall>(L, p) \<in> places ?ls site.
      view c L p = Some (site_entry (lt_byName lt) (https_port (lt_byName lt) ?ls site) site (site_h site) L)" by blast
  obtain handler where ha: "applyPolicies (hostDispatcher (the (mget (cg_tables c) (l_name l)))) (l_policies l) (sn_policies s) = Inr handler"
    and rt: "mget (sn_listeners s) (l_name l) = Some \<lparr>lr_spec = fst (the (mget (lt_specs lt) (l_name l))),
       lr_handler = Chain handler (o_middleware opts), lr_clientIP = snd (the (mget (lt_specs lt) (l_name l)))\<rparr>"
    using compile_handlers [OF rts d assms(2)] by blast
  obtain t where t: "mget (cg_tables c) (l_name l) = Some t"
    using compile_sites_has [OF c] assms(2) by (fastforce simp: mhas_def)
  have "wf_hostTable t" using sites_compiledD(1) [OF sc] t by (simp add: tables_ok_def)
  note m = hostTable_match_spec [OF this]
  have match: "hostTable_match t host =
      map_option (\<lambda>site. site_entry (by_name ?ls) (https_port (by_name ?ls) ?ls site) site (site_h site) (l_name l))
        (responsible ?ls (c_sites cfg) (l_name l) host)" for host
  proof -
    have "view c (l_name l) = hostTable_get t" by (intro ext) (simp add: view_def t)
    then show ?thesis using tables_responsible [OF sc ent, of "l_name l" host] by (simp add: m look)
  qed
  have "hostDispatcher t r x = (case responsible ?ls (c_sites cfg) (l_name l) (requestHost (r_host r)) of
      None \<Rightarrow> httpNotFound r x | Some site \<Rightarrow> on_listener ?ls l site (site_h site) r x)" for r x
    using is_tls_by_name [OF d assms(2)]
    by (auto simp: hostDispatcher_def match on_listener_def site_entry_def Let_def split: option.split)
  then show ?thesis using ha rt sh t by (intro exI [of _ site_h] exI) auto
qed

text \<open>C4: a compiled snapshot routes by host as specified: on every listener, a
  request goes to the site responsible for its host, the site that lists the most
  specific of the host's patterns any site of the listener lists, and gets a 404
  when there is none. That site's handler is its mux, with one entry per configured route, inside its policies, or on
  a plain listener the redirect to HTTPS when the site is also served over TLS
  and does not allow plain HTTP; listener policies and the gateway's middleware run around it.\<close>

theorem compile_dispatch:
  assumes "compile cfg opts prev h = Inr (s, h')" and "l \<in> set (snapshot_listeners s)"
  shows "\<exists>rt dispatch handler site_h.
    mget (sn_listeners s) (l_name l) = Some rt \<and>
    applyPolicies dispatch (l_policies l) (sn_policies s) = Inr handler \<and>
    lr_handler rt = Chain handler (o_middleware opts) \<and>
    (\<forall>site \<in> set (c_sites cfg). site_handler opts (sn_policies s) site (site_h site)) \<and>
    (\<forall>r x. dispatch r x =
       (case responsible (snapshot_listeners s) (c_sites cfg) (l_name l) (requestHost (r_host r)) of
          None \<Rightarrow> httpNotFound r x
        | Some site \<Rightarrow> on_listener (snapshot_listeners s) l site (site_h site) r x))"
  by (rule compiled_listener [OF assms])

lemma compile_keys: "compile cfg opts prev h = Inr (s, h') \<Longrightarrow> mkeys (sn_listeners s) = map l_name (snapshot_listeners s)"
  by (erule compile_Inr) (rule compile_handlers_keys)

lemma compile_listener_keys: "compile cfg opts prev h = Inr (s, h') \<Longrightarrow> distinct (mkeys (sn_listeners s))"
  by (erule compile_Inr) (use compile_handlers_keys compile_listeners_Inr in \<open>fastforce simp: listed_def\<close>)

text \<open>A site with one fixed response on a plain and a TLS listener.\<close>

definition sample_site :: Site where
  "sample_site = \<lparr>s_name = [], s_hosts = [''A.test''], s_listeners = [], s_allowHTTP = False, s_policies = [],
     s_routes = [], s_handler = no_handler\<lparr>h_respond := Some \<lparr>rs_status = 200, rs_headers = [], rs_body = ''hi''\<rparr>\<rparr>\<rparr>"

definition sample_listeners :: "Listener list" where
  "sample_listeners = defaultListeners True"

definition sample_config :: Config where
  "sample_config = empty_config\<lparr>c_listeners := sample_listeners, c_sites := [sample_site]\<rparr>"

definition sample_options :: "(rat \<times> int \<times> rat \<times> int option, int) options" where
  "sample_options = \<lparr>o_env = \<lparr>e_open = sample_os False, e_stat = (\<lambda>_. Inr True),
       e_content = (\<lambda>f r x. (Returned, x)), e_listing = (\<lambda>f r x. (Returned, x)), e_roundTrip = (\<lambda>pl r g. (Inl DeadlineExceeded, g))\<rparr>,
     o_handlers = [], o_middleware = [], o_dataDir = ''/data'', o_tls = sample_tls,
     o_acme = \<lparr>ae_readFile = (\<lambda>_. Inl ErrNotExist), ae_hasCertificates = (\<lambda>_. False), ae_newClient = (\<lambda>_ _. Inr 0),
       ae_importKey = (\<lambda>_. Inr), ae_files = []\<rparr>,
     o_rates = bucket_ops, o_http01 = None\<rparr>"

definition sample_heap :: "(rat \<times> int \<times> rat \<times> int option, int) heap" where
  "sample_heap = \<lparr>hp_gateway = empty_gateway, hp_pools = 0, hp_managers = [], hp_nextManager = 0\<rparr>"


lemma sample_handler: "\<exists>hd. compiler_handler env reg (s_handler sample_site) ts = Inr (hd, ts)"
  by (simp add: compiler_handler_def sample_site_def no_handler_def handler_count_def respondHandler_def)

definition sample_store :: certificateStore where
  "sample_store = (case loadCertificates sample_tls [] of Inr s \<Rightarrow> s | Inl _ \<Rightarrow> \<lparr>cs_current = newHostTable, cs_stale = newHostTable\<rparr>)"

lemma sample_parts:
  "loadCertificates sample_tls [] = Inr sample_store"
  "requireCertificate sample_store False ''a.test'' ''https'' = Inr ()"
  "site_hosts sample_site = Inr [''a.test'']"
  "site_ID sample_site = ''a.test''"
  "parsePattern ''/'' = Inr \<lparr>pt_method = [], pt_segs = [Multi []]\<rparr>"
  "note_port (by_name sample_listeners) ''http'' [] = Inr []"
  "note_port (by_name sample_listeners) ''https'' [] = Inr ''443''"
  by code_simp+

lemma sample_listed:
  "\<exists>lt. compile_listeners server minTLS sample_listeners = Inr lt \<and> lt_byName lt = by_name sample_listeners"
  by (simp add: compile_listeners_def compile_listener_def sample_listeners_def defaultListeners_def
      newClientIPResolver_def hasSuffix_def by_name_def mhas_def)

lemma sample_route:
  "\<exists>hd. compile_route sample_options ps \<lparr>r_name = [], r_meth = [], r_path = [], r_policies = [], r_handler = s_handler sample_site\<rparr> ts
    = Inr (hd, ts)"
proof -
  obtain hd where "compiler_handler (o_env sample_options) (o_handlers sample_options) (s_handler sample_site) ts = Inr (hd, ts)"
    using sample_handler by blast
  moreover have "h_extensions (s_handler sample_site) = []" by (simp add: sample_site_def no_handler_def)
  ultimately show ?thesis
    by (simp add: compile_route_def Let_def checkExtensions_def sortStrings_def applyPolicies_def hasPrefix_def)
qed

lemma sample_site_compiled:
  assumes "tables_ok c" and "mget (cg_tables c) ''http'' = Some newHostTable" and "mget (cg_tables c) ''https'' = Some newHostTable"
  shows "\<exists>c'. compile_site sample_options ps sample_store False sample_listeners (by_name sample_listeners) sample_site c = Inr c' \<and>
     cg_tlsHosts c' = ''a.test'' # cg_tlsHosts c"
proof -
  obtain hd where "compile_route sample_options ps \<lparr>r_name = [], r_meth = [], r_path = [], r_policies = [], r_handler = s_handler sample_site\<rparr>
      (cg_transports c) = Inr (hd, cg_transports c)"
    using sample_route by blast
  moreover have "site_routes sample_site = Inr [\<lparr>r_name = [], r_meth = [], r_path = [], r_policies = [], r_handler = s_handler sample_site\<rparr>]"
    by (simp add: site_routes_def sample_site_def no_handler_def handler_defined_def)
  moreover have "h_extensions (s_handler sample_site) = []" "s_policies sample_site = []"
    by (simp_all add: sample_site_def no_handler_def)
  moreover have "served_listeners sample_listeners sample_site = [''http'', ''https'']"
    by (simp add: served_listeners_def sample_site_def sample_listeners_def defaultListeners_def)
  moreover have "is_tls (by_name sample_listeners) ''https''" "\<not> is_tls (by_name sample_listeners) ''http''" by code_simp+
  ultimately show ?thesis using assms
    by (simp add: compile_site_def sample_parts checkExtensions_def sortStrings_def add_route_def route_label_def route_pattern_def
        register_def mux_register_def toUpper_def trimSpace_def trimWhile_def applyPolicies_def, simp add: serve_on_def add_host_def sample_parts)
qed

lemma sample_recompiles: "isOk (compile sample_config sample_options prev h)"
proof -
  let ?ts = "\<lparr>ts_now = [], ts_prev = prev_transports prev, ts_next = hp_pools h\<rparr>"
  obtain server where server: "withDefaults (c_server sample_config) = Inr server"
    by (simp add: withDefaults_Inr_iff sample_config_def empty_config_def)
  obtain lt where lt: "compile_listeners server 0x0303 sample_listeners = Inr lt" "lt_byName lt = by_name sample_listeners"
    using sample_listed by blast
  have start: "mget (cg_tables (initial sample_listeners ?ts)) ''http'' = Some newHostTable"
     "mget (cg_tables (initial sample_listeners ?ts)) ''https'' = Some newHostTable"
    by (simp_all add: initial_def sample_listeners_def defaultListeners_def)
  obtain c where "compile_site sample_options [] sample_store False sample_listeners (by_name sample_listeners) sample_site
      (initial sample_listeners ?ts) = Inr c" and t: "cg_tlsHosts c = [''a.test'']"
    using sample_site_compiled [OF initial_ok(1) start] by auto
  then have c: "compile_sites sample_options [] sample_store False sample_listeners (by_name sample_listeners) [sample_site] ?ts = Inr c"
    by (simp add: compile_sites_def compile_sites_step_def Let_def initial_def)
  have v: "tlsVersion [] = Inr 0x0303" by code_simp
  have l: "l_name l \<in> {''http'', ''https''}" "l_policies l = []" if "l \<in> set sample_listeners" for l
    using that by (auto simp: sample_listeners_def defaultListeners_def)
  have "rmap (compile_handler sample_options [] c (lt_specs lt)) sample_listeners =
    Inr (map (\<lambda>l. (l_name l, \<lparr>lr_spec = fst (the (mget (lt_specs lt) (l_name l))),
      lr_handler = Chain (hostDispatcher (the (mget (cg_tables c) (l_name l)))) (o_middleware sample_options),
      lr_clientIP = snd (the (mget (lt_specs lt) (l_name l)))\<rparr>)) sample_listeners)"
    by (rule rmap_Inr_map) (simp add: compile_handler_def applyPolicies_def l)
  moreover have "compilePolicies (o_rates sample_options) [] ps (hp_gateway h) = Inr ([], hp_gateway h)" for ps
    by (simp add: compilePolicies_def)
  moreover have "o_tls sample_options = sample_tls" "c_version sample_config = 0"
    "c_tls sample_config = \<lparr>minVersion = [], certificates = [], acme = None\<rparr>"
    "c_policies sample_config = []" "c_sites sample_config = [sample_site]" "c_listeners sample_config = sample_listeners"
    by (simp_all add: sample_options_def sample_config_def empty_config_def)
  moreover have "sample_listeners \<noteq> []" by (simp add: sample_listeners_def defaultListeners_def)
  ultimately show ?thesis
    using server lt c t v
    by (simp add: compile_def sample_parts Let_def acmeManagerFor_def compile_listeners_of_def managedHosts_def)
qed

lemmas sample_compiles = sample_recompiles [of None sample_heap]

theorem compile_dispatch_witness:
  "case compile sample_config sample_options None sample_heap of
     Inl _ \<Rightarrow> False
   | Inr (s, h') \<Rightarrow> (\<exists>rt dispatch handler site_h.
       mget (sn_listeners s) ''http'' = Some rt \<and> applyPolicies dispatch [] (sn_policies s) = Inr handler \<and>
       lr_handler rt = Chain handler [] \<and>
       (\<forall>r x. dispatch r x =
         (case responsible sample_listeners [sample_site] ''http'' (requestHost (r_host r)) of
            None \<Rightarrow> httpNotFound r x
          | Some site \<Rightarrow> on_listener sample_listeners (hd sample_listeners) site (site_h site) r x)))"
proof -
  from sample_compiles obtain s h' where c: "compile sample_config sample_options None sample_heap = Inr (s, h')"
    by (auto simp: isOk_iff)
  from c have "sn_config s = sample_config" by (rule compile_Inr)
  then have ls: "snapshot_listeners s = sample_listeners"
    by (simp add: snapshot_listeners_def compile_listeners_of_def sample_config_def sample_listeners_def defaultListeners_def)
  have "hd sample_listeners \<in> set (snapshot_listeners s)"
    unfolding ls by (simp add: sample_listeners_def defaultListeners_def)
  from compile_dispatch [OF c this] show ?thesis
    unfolding c ls by (simp add: sample_listeners_def defaultListeners_def sample_config_def sample_options_def) blast
qed

section \<open>Well-formed snapshots\<close>

lemma set_sortStrings [simp]: "set (sortStrings ss) = set ss"
proof -
  have "set (takeWhile P acc @ s # dropWhile P acc) = insert s (set acc)" for P and s :: string and acc
    by (metis Un_insert_right list.set(2) set_append takeWhile_dropWhile_id)
  then show ?thesis unfolding sortStrings_def by (induction ss) (simp_all del: set_append)
qed

text \<open>C27: a configuration that compiles has no conflicts: no two sites claim the same
  host on a listener, sites that have an identity differ in it, listeners have
  distinct names and, but for port 0, distinct addresses; the snapshot has exactly
  one runtime per listener, with the address, TLS setting and server limits
  (defaults applied) of its configuration.\<close>

theorem compile_wellformed:
  assumes "compile cfg opts prev h = Inr (s, h')"
  shows "disjoint_places (snapshot_listeners s) (c_sites cfg) \<and>
    distinct (filter (\<lambda>i. i \<noteq> []) (map site_ID (c_sites cfg))) \<and>
    distinct (map l_name (snapshot_listeners s)) \<and>
    distinct (filter (\<lambda>a. \<not> hasSuffix a '':0'') (map l_address (snapshot_listeners s))) \<and>
    withDefaults (c_server cfg) = Inr (sn_server s) \<and>
    mkeys (sn_listeners s) = map l_name (snapshot_listeners s) \<and>
    (\<forall>l \<in> set (snapshot_listeners s). \<exists>rt. mget (sn_listeners s) (l_name l) = Some rt \<and>
       runtime_of (sn_server s) (sn_minTLS s) l (lr_spec rt, lr_clientIP rt))"
proof -
  let ?ls = "snapshot_listeners s"
  from compile_Inr [OF assms] obtain gw h1 lt c where
    server: "withDefaults (c_server cfg) = Inr (sn_server s)" and
    lt: "compile_listeners (sn_server s) (sn_minTLS s) ?ls = Inr lt" and
    c: "compile_sites opts (sn_policies s) (sn_certs s) (sn_acme s \<noteq> None) ?ls (lt_byName lt)
       (c_sites cfg) \<lparr>ts_now = [], ts_prev = prev_transports prev, ts_next = hp_pools h\<rparr> = Inr c" and
    rts: "rmap (compile_handler opts (sn_policies s) c (lt_specs lt)) ?ls = Inr (sn_listeners s)" .
  note listed = compile_listeners_Inr [OF lt]
  then have d: "distinct (map l_name ?ls)" by (simp add: listed_def)
  have "mkeys (sn_listeners s) = map l_name ?ls" by (rule compile_handlers_keys [OF rts])
  moreover have "\<forall>l \<in> set ?ls. \<exists>rt. mget (sn_listeners s) (l_name l) = Some rt \<and>
      runtime_of (sn_server s) (sn_minTLS s) l (lr_spec rt, lr_clientIP rt)"
  proof
    fix l assume l: "l \<in> set ?ls"
    then obtain spec where "mget (lt_specs lt) (l_name l) = Some spec" "runtime_of (sn_server s) (sn_minTLS s) l spec"
      using listed unfolding listed_def by blast
    then show "\<exists>rt. mget (sn_listeners s) (l_name l) = Some rt \<and>
        runtime_of (sn_server s) (sn_minTLS s) l (lr_spec rt, lr_clientIP rt)"
      using compile_handlers [OF rts d l] by auto
  qed
  moreover have "distinct (filter (\<lambda>a. \<not> hasSuffix a '':0'') (map l_address ?ls))" using listed by (simp add: listed_def)
  ultimately show ?thesis
    using sites_compiledD(6) [OF compile_sites_Inr(1) [OF c]] compile_sites_Inr(2) [OF c] server d by (intro conjI)
qed

theorem compile_wellformed_witness:
  "case compile sample_config sample_options None sample_heap of
     Inl _ \<Rightarrow> False | Inr (s, h') \<Rightarrow> mkeys (sn_listeners s) = [''http'', ''https'']"
proof -
  from sample_compiles obtain s h' where c: "compile sample_config sample_options None sample_heap = Inr (s, h')"
    by (auto simp: isOk_iff)
  from c have "sn_config s = sample_config" by (rule compile_Inr)
  then have "snapshot_listeners s = sample_listeners"
    by (simp add: snapshot_listeners_def compile_listeners_of_def sample_config_def sample_listeners_def defaultListeners_def)
  then show ?thesis
    using compile_wellformed [OF c] by (simp add: c sample_listeners_def defaultListeners_def)
qed



section \<open>The redirect to HTTPS\<close>

lemma splitHostPort_bracketed:
  assumes "CHR ''['' \<notin> set h" "CHR '']'' \<notin> set h" "CHR '':'' \<in> set h"
  shows "splitHostPort (''['' @ h @ '']'') = None"
proof -
  have "lastIndexChar CHR '':'' (''['' @ h @ '']'') \<noteq> None"
    using assms(3) by (auto simp: lastIndexChar_def indexChar_None_iff)
  moreover have "indexChar CHR '']'' (''['' @ h @ '']'') = Some (Suc (length h))"
    using indexChar_append [of "CHR '']''" "CHR ''['' # h" "[]"] assms(2) by simp
  ultimately show ?thesis by (auto simp: splitHostPort_def hasPrefix_def Let_def split: option.split)
qed

text \<open>The redirect to HTTPS leads to the same host: sent to any port, standard or
  not, the host of the redirect's target (an IPv6 address in brackets) is read back by
  \<open>requestHost\<close> as the host of the redirected request, so that the TLS listener gives it to the same site.\<close>

theorem httpsRedirect_same_host:
  assumes "normalizeHost host = host" and "CHR ''['' \<notin> set host" and "CHR '']'' \<notin> set host"
    and "CHR '':'' \<notin> set port" and "CHR ''['' \<notin> set port" and "CHR '']'' \<notin> set port"
  shows "requestHost (redirectHost port host) = host"
proof (cases "port = ''443''")
  case False
  then have "splitHostPort (redirectHost port host) = Some (host, port)"
    using splitHostPort_join assms by (simp add: redirectHost_def)
  then show ?thesis using assms(1-3) by (simp add: requestHost_def trimChars_none)
next
  case True
  show ?thesis
  proof (cases "CHR '':'' \<in> set host")
    case c: True
    have "trimChars (''['' @ host @ '']'') ''[]'' = host"
    proof -
      have "dropWhile (\<lambda>c. c \<in> set ''[]'') (host @ '']'') = host @ '']''"
        using assms(2,3) c by (cases host) auto
      moreover have "dropWhile (\<lambda>c. c \<in> set ''[]'') (rev host) = rev host"
        using assms(2,3) by (cases "rev host") (auto simp: rev_eq_Cons_iff)
      ultimately show ?thesis by (simp add: trimChars_def trimWhile_def)
    qed
    then show ?thesis
      using splitHostPort_bracketed [OF assms(2,3) c] assms(1-3) True c
      by (simp add: requestHost_def redirectHost_def trimChars_none)
  next
    case c: False
    then have "indexChar CHR '':'' (rev host) = None" by (simp add: indexChar_None_iff)
    then have "splitHostPort host = None" by (simp add: splitHostPort_def lastIndexChar_def)
    then show ?thesis using True c assms(1-3) by (simp add: requestHost_def redirectHost_def trimChars_none)
  qed
qed

theorem httpsRedirect_same_host_witness: "requestHost (redirectHost ''8443'' ''::1'') = ''::1''"
  by (rule httpsRedirect_same_host) code_simp+

section \<open>Recompilation\<close>

lemma compile_state:
  assumes "compile cfg opts prev h = Inr (s, h')"
  shows "\<exists>h1. compilePolicies (o_rates opts) (c_policies cfg)
      (case prev of None \<Rightarrow> [] | Some p \<Rightarrow> sn_policies p) (hp_gateway h) = Inr (sn_policies s, hp_gateway h') \<and>
    acmeManagerFor (acme (c_tls cfg)) opts prev h = Inr (sn_acme s, h1) \<and> hp_managers h' = hp_managers h1"
  by (rule compile_Inr [OF assms]) auto

text \<open>C28: recompiling keeps the state of what did not change: a policy with the same
  definition keeps its middleware, and with it its buckets and slots; the ACME
  manager of an equal ACME configuration (its default directory filled in) is kept
  with its certificates and retry times; no limiter or slot counter already there is altered.\<close>

theorem recompile_keeps_state:
  assumes "compile cfg opts (Some p) h = Inr (s, h')" and "policies_ok (sn_policies p)"
  shows "(\<forall>policy \<in> set (c_policies cfg). \<forall>old. mget (sn_policies p) (p_name policy) = Some old \<and> cp_definition old = policy \<longrightarrow>
        mget (sn_policies s) (p_name policy) = Some old) \<and>
    (\<forall>c ref. acme (c_tls cfg) = Some c \<and>
        sn_acme p = Some (ref, if acme_directory c = [] then c\<lparr>acme_directory := letsEncryptDirectory\<rparr> else c) \<longrightarrow>
        sn_acme s = sn_acme p \<and> hp_managers h' = hp_managers h) \<and>
    gateway_extends (hp_gateway h) (hp_gateway h') \<and> policies_ok (sn_policies s)"
proof -
  from compile_state [OF assms(1)] obtain h1 where
    pol: "compilePolicies (o_rates opts) (c_policies cfg) (sn_policies p) (hp_gateway h) = Inr (sn_policies s, hp_gateway h')" and
    mgr: "acmeManagerFor (acme (c_tls cfg)) opts (Some p) h = Inr (sn_acme s, h1)" and
    h': "hp_managers h' = hp_managers h1" by auto
  have ps: "mget (sn_policies s) (p_name policy) = Some old"
    if "policy \<in> set (c_policies cfg)" "mget (sn_policies p) (p_name policy) = Some old" "cp_definition old = policy" for policy old
    using compilePolicies_Inr [OF assms(2) pol] that by auto
  have mg: "sn_acme s = sn_acme p \<and> hp_managers h' = hp_managers h"
    if "acme (c_tls cfg) = Some c"
      "sn_acme p = Some (ref, if acme_directory c = [] then c\<lparr>acme_directory := letsEncryptDirectory\<rparr> else c)" for c ref
    using mgr that by (auto simp: acmeManagerFor_def Let_def h')
  have "gateway_extends (hp_gateway h) (hp_gateway h') \<and> policies_ok (sn_policies s)"
    using compilePolicies_Inr [OF assms(2) pol] by simp
  with ps mg show ?thesis by blast
qed

theorem recompile_keeps_state_witness:
  "case compile sample_config sample_options None sample_heap of
     Inl _ \<Rightarrow> False
   | Inr (s, h) \<Rightarrow> (case compile sample_config sample_options (Some s) h of
       Inl _ \<Rightarrow> False | Inr (s', h') \<Rightarrow> gateway_extends (hp_gateway h) (hp_gateway h') \<and> policies_ok (sn_policies s'))"
proof -
  from sample_compiles obtain s h where c: "compile sample_config sample_options None sample_heap = Inr (s, h)"
    by (auto simp: isOk_iff)
  from compile_state [OF c]
  have "compilePolicies (o_rates sample_options) (c_policies sample_config) [] (hp_gateway sample_heap) = Inr (sn_policies s, hp_gateway h)"
    by auto
  then have "sn_policies s = []" by (simp add: compilePolicies_def sample_config_def empty_config_def)
  then have ok: "policies_ok (sn_policies s)" by simp
  from sample_recompiles obtain s' h' where r: "compile sample_config sample_options (Some s) h = Inr (s', h')"
    by (force simp: isOk_iff)
  show ?thesis using recompile_keeps_state [OF r ok] by (simp add: c r)
qed

end
