(* ===== verification/Honest.thy ===== *)
theory Honest
  imports Snapshot
begin

text \<open>
  Every handler of a compiled snapshot answers through the response tracker
  only: it is an \<open>honest_handler\<close>, so the tracker's status and size are those of
  the response. The proof follows the way handlers are built: the built-in
  handlers, policies, the mux, sites and listeners. Extension handlers and
  custom middleware are assumed to be honest (\<open>honest_options\<close>).
\<close>

named_theorems honest_intros \<open>handlers and middleware that answer through the tracker\<close>

definition honest_middleware :: "'g middleware \<Rightarrow> bool" where
  "honest_middleware m \<longleftrightarrow> (\<forall>h. honest_handler h \<longrightarrow> honest_handler (m h))"

lemma honestI: "(\<And>r x. exchange_ok x \<Longrightarrow> exchange_ok (snd (h r x))) \<Longrightarrow> honest_handler h"
  by (simp add: honest_handler_def)

lemma honestD: "honest_handler h \<Longrightarrow> exchange_ok x \<Longrightarrow> exchange_ok (snd (h r x))"
  by (simp add: honest_handler_def)

lemma honest_Chain: "honest_handler h \<Longrightarrow> \<forall>m \<in> set ms. honest_middleware m \<Longrightarrow> honest_handler (Chain h ms)"
  by (induction ms) (auto simp: honest_middleware_def)

section \<open>Built-in handlers\<close>

lemma stripPrefix_honest [honest_intros]: "honest_handler h \<Longrightarrow> honest_handler (stripPrefix p h)"
  by (rule honestI) (auto simp: stripPrefix_def Let_def exchange_ok_httpError httpNotFound_def honestD)

lemma localRedirect_ok: "exchange_ok x \<Longrightarrow> exchange_ok (localRedirect r p x)"
  by (simp add: localRedirect_def exchange_ok_writeHeader)

lemma fsErrorPage_ok: "exchange_ok x \<Longrightarrow> exchange_ok (fsErrorPage e x)"
  by (cases e) (simp_all add: fsErrorPage_def exchange_ok_httpError)

lemma serveFile_honest:
  assumes "\<And>f. honest_handler (content f)" and "\<And>f. honest_handler (listing f)"
  shows "honest_handler (serveFile content listing fs name)"
  using honestD [OF assms(1)] honestD [OF assms(2)]
  by (intro honestI) (auto simp: serveFile_def Let_def localRedirect_ok fsErrorPage_ok exchange_ok_httpError split: sum.split)

lemma fileServer_honest:
  assumes "\<And>f. honest_handler (content f)" and "\<And>f. honest_handler (listing f)"
  shows "honest_handler (fileServer content listing fs)"
  by (rule honestI) (simp add: fileServer_def Let_def honestD [OF serveFile_honest [OF assms]])

text \<open>What a custom handler or middleware, and the standard library's file writers, owe the server.\<close>

definition honest_env :: "'g env \<Rightarrow> bool" where
  "honest_env env \<longleftrightarrow> (\<forall>f. honest_handler (e_content env f) \<and> honest_handler (e_listing env f))"

definition honest_registry :: "'g registry \<Rightarrow> bool" where
  "honest_registry reg \<longleftrightarrow> (\<forall>name factory v h. mget reg name = Some factory \<and> factory v = Inr h \<longrightarrow> honest_handler h)"

definition honest_options :: "('l, 'w) options \<Rightarrow> bool" where
  "honest_options opts \<longleftrightarrow> honest_env (o_env opts) \<and> honest_registry (o_handlers opts) \<and>
     (\<forall>m \<in> set (o_middleware opts). honest_middleware m)"

lemma filesHandler_honest: "honest_env env \<Longrightarrow> filesHandler env config = Inr h \<Longrightarrow> honest_handler h"
  by (auto simp: filesHandler_def Let_def rbind_Inr_iff wrap_err_Inr_iff honest_env_def
      intro!: fileServer_honest stripPrefix_honest split: if_splits)

lemma compiler_proxy_honest: "compiler_proxy env config ts = Inr (h, ts') \<Longrightarrow> honest_handler h"
  by (auto simp: compiler_proxy_def Let_def rbind_Inr_iff case_prod_beta honest_proxy.honest_handler_axioms)

lemma compiler_handler_honest:
  assumes "honest_env env" and "honest_registry reg" and "compiler_handler env reg hnd ts = Inr (h, ts')"
  shows "honest_handler h"
  using assms(3) filesHandler_honest [OF assms(1)] assms(2)
  by (auto simp: compiler_handler_def rbind_Inr_iff wrap_err_Inr_iff honest_registry_def
      intro: compiler_proxy_honest redirect_honest respond_honest split: if_splits option.splits list.splits)

section \<open>Policies\<close>

lemma timeout_honest: "honest_middleware (timeoutMiddleware d)"
  by (auto simp: honest_middleware_def timeoutMiddleware_def intro!: honestI dest: honestD)

lemma bodyLimit_honest: "honest_middleware (bodyLimitMiddleware p n)"
  by (auto simp: honest_middleware_def bodyLimitMiddleware_def intro!: honestI exchange_ok_reject dest: honestD)

lemma exchange_ok_gateway [simp]: "exchange_ok (on_gateway f x) = exchange_ok x"
  by (simp add: exchange_ok_def on_gateway_def)

lemma concurrency_honest: "honest_middleware (concurrencyMiddleware p n ref)"
  unfolding honest_middleware_def
proof (intro allI impI honestI)
  fix h :: "'a gateway handler" and r and x :: "'a gateway exchange"
  assume h: "honest_handler h" and x: "exchange_ok x"
  show "exchange_ok (snd (concurrencyMiddleware p n ref h r x))"
    using honestD [OF h, of "x\<lparr>x_shared := g\<rparr>" for g] x
    by (auto simp: concurrencyMiddleware_def Let_def exchange_ok_reject case_prod_beta split: option.split)
qed

lemma rate_honest: "honest_middleware (rateMiddleware ops ref)"
  unfolding honest_middleware_def
proof (intro allI impI honestI)
  fix h :: "'a gateway handler" and r and x :: "'a gateway exchange"
  assume h: "honest_handler h" and x: "exchange_ok x"
  have "exchange_ok (snd (h r (on_gateway f x)))" for f using honestD [OF h, of "on_gateway f x"] x by simp
  then show "exchange_ok (snd (rateMiddleware ops ref h r x))"
    using x by (auto simp: rateMiddleware_def Let_def exchange_ok_reject case_prod_beta split: option.split)
qed

definition honest_policies :: "'l policies \<Rightarrow> bool" where
  "honest_policies ps \<longleftrightarrow> (\<forall>n p. mget ps n = Some p \<longrightarrow> (\<forall>m \<in> set (cp_middleware p). honest_middleware m))"

lemma compile_parts_honest:
  "compileRequest policy = Inr m1 \<Longrightarrow> m \<in> set m1 \<Longrightarrow> honest_middleware m"
  "compileRateLimit ops policy gw = Inr (m2, gw1) \<Longrightarrow> m \<in> set m2 \<Longrightarrow> honest_middleware m"
  "compileConcurrency policy gw = Inr (m3, gw1) \<Longrightarrow> m \<in> set m3 \<Longrightarrow> honest_middleware m"
  by (auto simp: compileRequest_def compileRateLimit_def compileConcurrency_def rbind_Inr_iff
      timeout_honest bodyLimit_honest concurrency_honest rate_honest split: option.splits if_splits)

lemma compilePolicy_honest:
  assumes "compilePolicy ops policy gw = Inr (p, gw')" and "m \<in> set (cp_middleware p)"
  shows "honest_middleware m"
  using compilePolicy_parts [OF assms(1)] assms(2) compile_parts_honest by fastforce

lemma compilePolicies_honest:
  assumes "compilePolicies ops input prev gw = Inr (ps, gw')" and "honest_policies prev"
  shows "honest_policies ps"
proof -
  have "honest_policies (fst (ps, gw'))"
  proof (rule rfold_invariant [OF assms(1) [unfolded compilePolicies_def], where P = "\<lambda>s. honest_policies (fst s)"])
    fix policy and u v :: "'a policies \<times> 'a gateway"
    assume u: "honest_policies (fst u)" and "compilePolicies_step ops prev policy u = Inr v"
    then have "\<exists>p gw1. fst v = mput (p_name policy) p (fst u) \<and>
        (mget prev (p_name policy) = Some p \<or> compilePolicy ops policy (snd u) = Inr (p, gw1))"
      by (auto simp: compilePolicies_step_def Let_def rbind_Inr_iff wrap_err_Inr_iff
          split: prod.splits if_splits option.splits; blast)
    then obtain p gw1 where p: "fst v = mput (p_name policy) p (fst u)"
      "mget prev (p_name policy) = Some p \<or> compilePolicy ops policy (snd u) = Inr (p, gw1)" by blast
    then have "\<forall>m \<in> set (cp_middleware p). honest_middleware m"
      using assms(2) compilePolicy_honest by (auto simp: honest_policies_def)
    then show "honest_policies (fst v)" using u p(1) by (auto simp: honest_policies_def)
  qed (simp add: honest_policies_def)
  then show ?thesis by simp
qed

lemma wrap_honest: "\<forall>m \<in> set (cp_middleware p). honest_middleware m \<Longrightarrow> honest_middleware (wrap p)"
  unfolding honest_middleware_def [of "wrap p"]
proof (intro allI impI honestI)
  fix h :: "'a handler" and r and x :: "'a exchange"
  assume ms: "\<forall>m \<in> set (cp_middleware p). honest_middleware m" and h: "honest_handler h" and x: "exchange_ok x"
  have "exchange_ok (x\<lparr>x_state := s\<rparr>)" for s using x by (simp add: exchange_ok_def)
  then show "exchange_ok (snd (wrap p h r x))"
    using honestD [OF h x] honestD [OF honest_Chain [OF h ms]] x
    by (auto simp: wrap_def Let_def split: option.split prod.split)
qed

lemma applyPolicies_honest:
  assumes "applyPolicies h names ps = Inr h'" and "honest_handler h" and "honest_policies ps"
  shows "honest_handler h'"
proof -
  from applyPolicies_Inr assms(1)
  have "h' = Chain h (map (\<lambda>n. wrap (the (mget ps n))) names)" "\<forall>n \<in> set names. mget ps n \<noteq> None" by blast+
  moreover from this(2) have "\<forall>m \<in> set (map (\<lambda>n. wrap (the (mget ps n))) names). honest_middleware m"
    using assms(3) by (fastforce simp: honest_policies_def intro!: wrap_honest)
  ultimately show ?thesis using honest_Chain [OF assms(2)] by simp
qed

section \<open>Sites and listeners\<close>

lemma withSite_honest: "honest_handler h \<Longrightarrow> honest_handler (withSite n h)"
  by (rule honestI) (rule honest_handler.honest_site)

lemma withRoute_honest: "honest_handler h \<Longrightarrow> honest_handler (withRoute n h)"
  by (rule honestI) (rule honest_handler.honest_route)

lemma tree_match_in:
  assumes "tree_match mux m path = Some (p, h)"
  shows "(p, h) \<in> set mux"
proof -
  from tree_match_nodes [OF assms] obtain n where "matchPath (methodNode n mux) (pathSegs path) = Some (p, h)" .
  from matchPath_best [OF this] show ?thesis by (auto simp: methodNode_def)
qed

lemma findHandler_in:
  assumes "findHandler mux r = Serve (p, h)"
  shows "(p, h) \<in> set mux"
proof -
  have "\<exists>m path. tree_match mux m path = Some (p, h)"
    using assms by (auto simp: findHandler_def matchOrRedirect_def Let_def split: option.splits if_splits prod.splits)
  then show ?thesis by (elim exE) (rule tree_match_in)
qed

lemma mux_serve_honest:
  assumes "\<forall>(p, h) \<in> set mux. honest_handler h"
  shows "honest_handler (mux_serve mux)"
proof (rule honestI)
  fix r and x :: "'a exchange" assume x: "exchange_ok x"
  show "exchange_ok (snd (mux_serve mux r x))"
  proof (cases "findHandler mux r")
    case (Serve e)
    obtain p h where e: "e = (p, h)" by fastforce
    have "honest_handler h" using assms findHandler_in [OF Serve [unfolded e]] by blast
    then show ?thesis using Serve e x by (simp add: mux_serve_def exchange_ok_writeHeader honestD)
  qed (use x in \<open>simp_all add: mux_serve_def exchange_ok_writeHeader exchange_ok_httpRedirect exchange_ok_httpError httpNotFound_def\<close>)
qed

lemma compile_route_honest:
  assumes "compile_route opts policies r ts = Inr (h, ts')" and "honest_options opts" and "honest_policies policies"
  shows "honest_handler h"
proof -
  from assms(1) obtain hnd wrapped where
    hnd: "compiler_handler (o_env opts) (o_handlers opts) (r_handler r) ts = Inr (hnd, ts')" and
    w: "applyPolicies hnd (r_policies r) policies = Inr wrapped" and h: "h = withRoute (route_label r) wrapped"
    by (auto simp: compile_route_def Let_def rbind_Inr_iff wrap_err_Inr_iff split: if_splits prod.splits)
  have "honest_handler hnd" using compiler_handler_honest [OF _ _ hnd] assms(2) by (simp add: honest_options_def)
  from applyPolicies_honest [OF w this assms(3)] show ?thesis by (simp add: h withRoute_honest)
qed

lemma site_handler_honest:
  assumes "site_handler opts policies site h" and "honest_options opts" and "honest_policies policies"
  shows "honest_handler h"
proof -
  from assms(1) obtain routes mux wrapped where
    mux: "compiled_routes opts policies routes mux" and
    w: "applyPolicies (mux_serve mux) (s_policies site) policies = Inr wrapped" and h: "h = withSite (site_ID site) wrapped"
    unfolding site_handler_def by blast
  have "honest_handler hnd" if "(p, hnd) \<in> set mux" for p hnd
    using mux that compile_route_honest assms(2,3)
    by (fastforce simp: compiled_routes_def list_all2_conv_all_nth in_set_conv_nth)
  then have "honest_handler (mux_serve mux)" by (intro mux_serve_honest) auto
  from applyPolicies_honest [OF w this assms(3)] show ?thesis by (simp add: h withSite_honest)
qed

lemma httpsRedirect_honest: "honest_handler (httpsRedirect port)"
  by (rule honestI) (simp add: httpsRedirect_def exchange_ok_httpRedirect)

lemma on_listener_honest: "honest_handler h \<Longrightarrow> honest_handler (on_listener ls l site h)"
  by (simp add: on_listener_def Let_def withSite_honest withRoute_honest httpsRedirect_honest)

lemma responsible_in: "responsible ls sites L host = Some site \<Longrightarrow> site \<in> set sites"
  unfolding responsible_def by (drule firstSome_Some) (auto simp: find_Some_iff)

definition honest_snapshot :: "'l snapshot \<Rightarrow> bool" where
  "honest_snapshot s \<longleftrightarrow> honest_policies (sn_policies s) \<and>
     (\<forall>name rt. mget (sn_listeners s) name = Some rt \<longrightarrow> honest_handler (lr_handler rt))"

lemma compile_honest:
  assumes "compile cfg opts prev h = Inr (s, h')" and "honest_options opts"
    and "\<And>p. prev = Some p \<Longrightarrow> honest_policies (sn_policies p)"
  shows "honest_snapshot s"
proof -
  have "honest_policies (case prev of None \<Rightarrow> [] | Some p \<Rightarrow> sn_policies p)"
    using assms(3) by (cases prev) (simp_all add: honest_policies_def)
  with compile_state [OF assms(1)] have ps: "honest_policies (sn_policies s)" using compilePolicies_honest by blast
  have "honest_handler (lr_handler rt)" if rt: "mget (sn_listeners s) name = Some rt" for name rt
  proof -
    have "name \<in> set (mkeys (sn_listeners s))" using rt by (metis mhas_def mhas_iff_keys option.distinct(1))
    then obtain l where l: "l \<in> set (snapshot_listeners s)" "l_name l = name"
      using compile_keys [OF assms(1)] by auto
    from compiled_listener [OF assms(1) l(1)] rt l(2) obtain dispatch handler site_h where
      ap: "applyPolicies dispatch (l_policies l) (sn_policies s) = Inr handler" and
      ch: "lr_handler rt = Chain handler (o_middleware opts)" and
      sh: "\<forall>site \<in> set (c_sites cfg). site_handler opts (sn_policies s) site (site_h site)" and
      di: "\<And>r x. dispatch r x =
       (case responsible (snapshot_listeners s) (c_sites cfg) (l_name l) (requestHost (r_host r)) of
          None \<Rightarrow> httpNotFound r x
        | Some site \<Rightarrow> on_listener (snapshot_listeners s) l site (site_h site) r x)"
      by auto
    have "honest_handler dispatch"
    proof (rule honestI)
      fix r and x :: "'a gateway exchange" assume x: "exchange_ok x"
      have "honest_handler (on_listener (snapshot_listeners s) l site (site_h site))" if "site \<in> set (c_sites cfg)" for site
        using on_listener_honest site_handler_honest [OF _ assms(2) ps] sh that by blast
      then have "exchange_ok (snd (on_listener (snapshot_listeners s) l site (site_h site) r x))"
        if "site \<in> set (c_sites cfg)" for site using honestD that x by blast
      then show "exchange_ok (snd (dispatch r x))"
        using responsible_in honestD [OF notFound.honest_handler_axioms x] by (auto simp: di split: option.split)
    qed
    from honest_Chain [OF applyPolicies_honest [OF ap this ps]] assms(2) show ?thesis
      by (simp add: ch honest_options_def)
  qed
  then show ?thesis using ps by (simp add: honest_snapshot_def)
qed

end
