(* ===== verification/Serve.thy ===== *)
theory Serve
  imports Observability Honest
begin

text \<open>
  \<open>serve.go\<close> and \<open>serveACMEChallenge\<close> of \<open>acme.go\<close>: the entry point of every
  request on a listener. \<open>serving\<close> is the server's state a request touches: the
  metrics, the gateway's limiters and slots, and the records the observers
  have got. A panic of the handler is its outcome; the deferred function is
  \<open>finish\<close>. Log messages are not modelled.
\<close>

section \<open>HTTP-01 challenges\<close>

definition acmeChallengePrefix :: string where
  "acmeChallengePrefix = ''/.well-known/acme-challenge/''"

definition challenge_token :: "request \<Rightarrow> string option" where
  "challenge_token r =
     (if r_tls r \<or> r_method r \<noteq> ''GET'' \<and> r_method r \<noteq> ''HEAD'' then None
      else if \<not> hasPrefix (u_path (r_url r)) acmeChallengePrefix then None
      else let token = drop (length acmeChallengePrefix) (u_path (r_url r))
           in if token = [] \<or> CHR ''/'' \<in> set token then None else Some token)"

definition serveACMEChallenge ::
  "'w acmeManager option \<Rightarrow> (string \<Rightarrow> string \<Rightarrow> string option) option \<Rightarrow> request \<Rightarrow> 'g exchange \<Rightarrow> bool \<times> 'g exchange" where
  "serveACMEChallenge manager http01 r x =
     (case challenge_token r of
        None \<Rightarrow> (False, x)
      | Some token \<Rightarrow>
          (let own = (case manager of None \<Rightarrow> None | Some m \<Rightarrow> acme_challenge m token);
               found = (case own of Some k \<Rightarrow> Some k
                  | None \<Rightarrow> (case http01 of None \<Rightarrow> None | Some store \<Rightarrow> store (requestHost (r_host r)) token))
           in case found of
                None \<Rightarrow> (False, x)
              | Some k \<Rightarrow>
                  (let y = setHeader ''Cache-Control'' ''no-store'' (setHeader ''Content-Type'' ''text/plain''
                             (on_state (\<lambda>s. s\<lparr>st_route := ''acme-http-01''\<rparr>) x))
                   in (True, if r_method r \<noteq> ''HEAD'' then writeBody k y else y))))"

section \<open>The entry point\<close>

record 'l serving =
  sv_metrics :: metrics
  sv_gateway :: "'l gateway"
  sv_observed :: "RequestRecord list"

text \<open>\<open>http.Error\<close> on the connection's own writer, outside the tracker.\<close>

definition raw_error :: "string \<Rightarrow> int \<Rightarrow> tracker \<Rightarrow> tracker" where
  "raw_error message code w =
     snd (under_write (message @ [CHR 0x0A]) (under_writeHeader code (w\<lparr>rw_header :=
       headerSet ''X-Content-Type-Options'' ''nosniff''
         (headerSet ''Content-Type'' ''text/plain; charset=utf-8'' (headerDel ''Content-Length'' (rw_header w)))\<rparr>)))"

definition request_record :: "request \<Rightarrow> int \<Rightarrow> bool \<Rightarrow> 'g exchange \<Rightarrow> RequestRecord" where
  "request_record r began panicked x =
     (let s = the (x_state x); t = x_tracker x in
      \<lparr>rr_time = began, rr_duration = x_now x - began, rr_requestID = st_id s, rr_listener = st_listener s,
       rr_site = st_site s, rr_route = st_route s,
       rr_clientIP = (case st_clientIP s of None \<Rightarrow> [] | Some a \<Rightarrow> addrString a),
       rr_method = r_method r, rr_host = r_host r, rr_path = u_path (r_url r),
       rr_status = (if t_status t = 0 then 200 else t_status t), rr_bytes = t_bytes t,
       rr_rejectedBy = st_rejectedBy s, rr_panicked = panicked\<rparr>)"

text \<open>Observers get every record; a panicking observer keeps neither the others nor the request from going on.\<close>

definition record_request :: "RequestRecord \<Rightarrow> 'l serving \<Rightarrow> 'l serving" where
  "record_request rec s = s\<lparr>sv_metrics := observe rec (sv_metrics s), sv_observed := sv_observed s @ [rec]\<rparr>"

definition gauge :: "int \<Rightarrow> 'l serving \<Rightarrow> 'l serving" where
  "gauge d s = s\<lparr>sv_metrics := (sv_metrics s)\<lparr>mt_active := mt_active (sv_metrics s) + d\<rparr>\<rparr>"

definition finish ::
  "request \<Rightarrow> int \<Rightarrow> outcome \<Rightarrow> 'l gateway exchange \<Rightarrow> 'l serving \<Rightarrow> outcome \<times> tracker \<times> 'l serving" where
  "finish r began out x s =
     (let started = t_status (x_tracker x) \<noteq> 0;
          incomplete = (out = Panicked AbortHandler \<or> out \<noteq> Returned \<and> started);
          y = (case out of
                 Panicked (PanicValue _) \<Rightarrow> if started then x else httpError ''internal server error'' 500 x
               | _ \<Rightarrow> x);
          s' = record_request (request_record r began (out \<noteq> Returned) y) (gauge (-1) (s\<lparr>sv_gateway := x_shared y\<rparr>))
      in (if incomplete then Panicked AbortHandler else Returned, x_tracker y, s'))"

definition ServeHTTP ::
  "('l, 'w) options \<Rightarrow> 'l snapshot \<Rightarrow> 'w acmeManager option \<Rightarrow> string \<Rightarrow> string \<Rightarrow> request \<Rightarrow> tracker \<Rightarrow> int \<Rightarrow>
   'l serving \<Rightarrow> outcome \<times> tracker \<times> 'l serving" where
  "ServeHTTP opts snap manager name random r w now s =
     (case mget (sn_listeners snap) name of
        None \<Rightarrow> (Returned, raw_error ''listener removed'' 503
                   (w\<lparr>rw_header := headerSet ''Connection'' ''close'' (rw_header w)\<rparr>), s)
      | Some listener \<Rightarrow>
          (let (ip, trusted) = resolve (lr_clientIP listener) r;
               rid = requestID random r trusted;
               r' = r\<lparr>r_header := headerSet ''X-Request-ID'' rid (r_header r)\<rparr>;
               state = \<lparr>st_id = rid, st_listener = name, st_site = [], st_route = [], st_clientIP = ip,
                        st_trustedPeer = trusted, st_rejectedBy = [], st_applied = []\<rparr>;
               x = \<lparr>x_tracker = w\<lparr>rw_header := headerSet ''X-Request-ID'' rid (rw_header w), t_status := 0, t_bytes := 0\<rparr>,
                    x_state = Some state, x_now = now, x_shared = sv_gateway s\<rparr>;
               s1 = gauge 1 s;
               (answered, x1) = serveACMEChallenge manager (o_http01 opts) r' x;
               (out, x2) = (if answered then (Returned, x1) else lr_handler listener r' x1)
           in finish r' now out x2 s1))"

section \<open>Every request is accounted for\<close>

lemma observe_gauge [simp]:
  "mt_active (observe rec m) = mt_active m" "mt_routes (observe rec (m\<lparr>mt_active := a\<rparr>)) = mt_routes (observe rec m)"
  by (simp_all add: observe_def Let_def)

text \<open>The response of a request whose handler ended in an outcome.\<close>

definition finished :: "outcome \<Rightarrow> 'g exchange \<Rightarrow> 'g exchange" where
  "finished out x = (case out of
     Panicked (PanicValue _) \<Rightarrow> if t_status (x_tracker x) \<noteq> 0 then x else httpError ''internal server error'' 500 x
   | _ \<Rightarrow> x)"

lemma finished_Returned [simp]: "finished Returned x = x"
  by (simp add: finished_def)

lemma finish_parts:
  assumes "finish r began out x s = (o', t, s')"
  shows "t = x_tracker (finished out x)"
    and "s' = record_request (request_record r began (out \<noteq> Returned) (finished out x)) (gauge (-1) (s\<lparr>sv_gateway := x_shared (finished out x)\<rparr>))"
    and "o' = (if out = Panicked AbortHandler \<or> out \<noteq> Returned \<and> t_status (x_tracker x) \<noteq> 0
      then Panicked AbortHandler else Returned)"
  using assms by (simp_all add: finish_def Let_def finished_def)

lemma record_fields [simp]:
  "rr_status (request_record r began p x) = (if t_status (x_tracker x) = 0 then 200 else t_status (x_tracker x))"
  "rr_bytes (request_record r began p x) = t_bytes (x_tracker x)" "rr_panicked (request_record r began p x) = p"
  by (simp_all add: request_record_def Let_def)

lemma finish_accounts:
  assumes "finish r began out x (gauge 1 s) = (o', t, s')"
  shows "mt_active (sv_metrics s') = mt_active (sv_metrics s) \<and>
   (\<exists>rec. sv_observed s' = sv_observed s @ [rec] \<and> mt_routes (sv_metrics s') = mt_routes (observe rec (sv_metrics s)) \<and>
      rr_status rec = (if t_status t = 0 then 200 else t_status t) \<and> rr_bytes rec = t_bytes t \<and>
      rr_panicked rec = (out \<noteq> Returned))"
  unfolding finish_parts(1,2) [OF assms]
  by (intro conjI exI [of _ "request_record r began (out \<noteq> Returned) (finished out x)"])
    (simp_all add: record_request_def gauge_def)

lemma ServeHTTP_known:
  assumes "ServeHTTP opts snap manager name random r w now s = (out, t, s')"
    and "mget (sn_listeners snap) name = Some listener"
  obtains r' x o2 x2 where "finish r' now o2 x2 (gauge 1 s) = (out, t, s')"
    and "(o2, x2) = (case serveACMEChallenge manager (o_http01 opts) r' x of (answered, x1) \<Rightarrow>
           if answered then (Returned, x1) else lr_handler listener r' x1)"
    and "x_shared x = sv_gateway s" and "t_status (x_tracker x) = 0" and "t_bytes (x_tracker x) = 0"
    and "rw_codes (x_tracker x) = rw_codes w" and "rw_body (x_tracker x) = rw_body w" and "rw_room (x_tracker x) = rw_room w"
    and "challenge_token r' = challenge_token r" and "r_method r' = r_method r" and "r_host r' = r_host r"
proof -
  obtain ip trusted where ip: "resolve (lr_clientIP listener) r = (ip, trusted)" by fastforce
  let ?rid = "requestID random r trusted"
  let ?r = "r\<lparr>r_header := headerSet ''X-Request-ID'' ?rid (r_header r)\<rparr>"
  let ?x = "\<lparr>x_tracker = w\<lparr>rw_header := headerSet ''X-Request-ID'' ?rid (rw_header w), t_status := 0, t_bytes := 0\<rparr>,
     x_state = Some \<lparr>st_id = ?rid, st_listener = name, st_site = [], st_route = [], st_clientIP = ip,
       st_trustedPeer = trusted, st_rejectedBy = [], st_applied = []\<rparr>, x_now = now, x_shared = sv_gateway s\<rparr>"
  obtain answered x1 where c: "serveACMEChallenge manager (o_http01 opts) ?r ?x = (answered, x1)" by fastforce
  obtain o2 x2 where h: "(if answered then (Returned, x1) else lr_handler listener ?r x1) = (o2, x2)" by fastforce
  show ?thesis
    by (rule that [of ?r o2 x2 ?x])
      (use assms ip c h in \<open>simp_all add: ServeHTTP_def Let_def challenge_token_def\<close>)
qed


text \<open>A snapshot with one listener and a given handler, for the examples.\<close>

definition sample_snapshot :: "string \<Rightarrow> (rat \<times> int \<times> rat \<times> int option) gateway handler \<Rightarrow> (rat \<times> int \<times> rat \<times> int option) snapshot" where
  "sample_snapshot name h =
     \<lparr>sn_config = empty_config, sn_server = c_server empty_config,
      sn_listeners = [(name, \<lparr>lr_spec = \<lparr>sp_address = '':80'', sp_tls = False, sp_minTLS = 0, sp_server = c_server empty_config\<rparr>,
        lr_handler = h, lr_clientIP = \<lparr>trusted = []\<rparr>\<rparr>)],
      sn_certs = sample_store, sn_minTLS = 0, sn_policies = [], sn_transports = [], sn_tlsHosts = [], sn_acme = None,
      sn_managedHosts = []\<rparr>"

definition sample_serving :: "(rat \<times> int \<times> rat \<times> int option) serving" where
  "sample_serving = \<lparr>sv_metrics = newMetrics, sv_gateway = empty_gateway, sv_observed = []\<rparr>"




section \<open>Records tell what the client got\<close>

lemma serveACMEChallenge_ok: "exchange_ok x \<Longrightarrow> exchange_ok (snd (serveACMEChallenge m hs r x))"
  by (auto simp: serveACMEChallenge_def Let_def exchange_ok_writeBody split: option.split)

text \<open>C36: the record of a request tells what the client got: under any compiled configuration
  whose extensions answer through the response writer they are given, the recorded
  status is the one final status sent on the connection (200 when the handler sent none, as
  the connection then does), and the recorded size is the number of body bytes it accepted.\<close>

theorem records_truthful:
  assumes "compile cfg opts prev h = Inr (snap, h')" and "honest_options opts"
    and "\<And>p. prev = Some p \<Longrightarrow> honest_policies (sn_policies p)"
    and "ServeHTTP opts snap manager name random r w now s = (out, t, s')"
    and "mget (sn_listeners snap) name = Some listener" and "rw_codes w = []" and "rw_body w = []"
  shows "\<exists>rec. sv_observed s' = sv_observed s @ [rec] \<and> rr_bytes rec = int (length (rw_body t)) \<and>
    rr_status rec = (case filter final_code (rw_codes t) of [] \<Rightarrow> 200 | c # _ \<Rightarrow> c) \<and>
    length (filter final_code (rw_codes t)) \<le> 1"
proof -
  obtain r' x o2 x2 where
    f: "finish r' now o2 x2 (gauge 1 s) = (out, t, s')" and
    h: "(o2, x2) = (case serveACMEChallenge manager (o_http01 opts) r' x of (answered, x1) \<Rightarrow>
           if answered then (Returned, x1) else lr_handler listener r' x1)" and
    x: "t_status (x_tracker x) = 0" "t_bytes (x_tracker x) = 0" "rw_codes (x_tracker x) = rw_codes w"
      "rw_body (x_tracker x) = rw_body w" by (rule ServeHTTP_known [OF assms(4,5)]) blast
  have hn: "honest_handler (lr_handler listener)"
    using compile_honest [OF assms(1-3)] assms(5) by (simp add: honest_snapshot_def)
  have "exchange_ok x" using x assms(6,7) by (simp add: exchange_ok_def tracker_ok_def)
  then have "exchange_ok (snd (serveACMEChallenge manager (o_http01 opts) r' x))" by (rule serveACMEChallenge_ok)
  moreover obtain answered x1 where c: "serveACMEChallenge manager (o_http01 opts) r' x = (answered, x1)" by fastforce
  ultimately have x1: "exchange_ok x1" by simp
  have "exchange_ok x2"
  proof (cases answered)
    case False
    then have "lr_handler listener r' x1 = (o2, x2)" using h c by simp
    then show ?thesis using honestD [OF hn x1, of r'] by simp
  qed (use h c x1 in simp)
  then have "exchange_ok (finished o2 x2)" by (simp add: finished_def exchange_ok_httpError split: outcome.split panic.split)
  then have "tracker_ok t" by (simp add: finish_parts(1) [OF f] exchange_ok_def)
  then show ?thesis using finish_accounts [OF f] by (auto simp: tracker_ok_def split: if_splits)
qed

lemma sample_options_honest: "honest_options sample_options"
  by (simp add: honest_options_def honest_env_def honest_registry_def honest_handler_def sample_options_def)

theorem records_truthful_witness:
  "case compile sample_config sample_options None sample_heap of
     Inl _ \<Rightarrow> False
   | Inr (snap, h') \<Rightarrow> (\<forall>t out s'. ServeHTTP sample_options snap None ''http'' ''id'' (get_request ''a.test'' ''/'' ''10.0.0.1:9'' [])
        (newTracker 100) 0 sample_serving = (out, t, s') \<longrightarrow>
        (\<exists>rec. sv_observed s' = [rec] \<and> rr_bytes rec = int (length (rw_body t))))"
proof -
  from sample_compiles obtain snap h' where c: "compile sample_config sample_options None sample_heap = Inr (snap, h')"
    by (auto simp: isOk_iff)
  from c have "sn_config snap = sample_config" by (rule compile_Inr)
  then have ls: "snapshot_listeners snap = sample_listeners"
    by (simp add: snapshot_listeners_def compile_listeners_of_def sample_config_def sample_listeners_def defaultListeners_def)
  have "''http'' \<in> set (mkeys (sn_listeners snap))"
    unfolding compile_keys [OF c] ls by (simp add: sample_listeners_def defaultListeners_def)
  then obtain l where l: "mget (sn_listeners snap) ''http'' = Some l" using mhas_iff_keys mhas_def by (metis option.exhaust)
  have "\<exists>rec. sv_observed s' = [rec] \<and> rr_bytes rec = int (length (rw_body t))"
    if "ServeHTTP sample_options snap None ''http'' ''id'' (get_request ''a.test'' ''/'' ''10.0.0.1:9'' [])
        (newTracker 100) 0 sample_serving = (out, t, s')" for t out s'
    using records_truthful [OF c sample_options_honest _ that l] by (auto simp: newTracker_def sample_serving_def)
  then show ?thesis unfolding c by simp
qed

section \<open>Challenges of the CA\<close>

text \<open>A challenge of the ACME manager is answered on every plain listener before any site,
  policy or middleware runs: a GET for a token it has published returns its key authorization
  with status 200, whatever the host, and leaves limiters and slots alone; a HEAD gets no body.\<close>

theorem challenge_answered:
  assumes "ServeHTTP opts snap (Some m) name random r w now s = (out, t, s')"
    and "mget (sn_listeners snap) name = Some listener" and "challenge_token r = Some token"
    and "acme_challenge m token = Some key" and "rw_codes w = []" and "rw_body w = []" and "length key \<le> rw_room w"
  shows "out = Returned \<and> rw_body t = (if r_method r = ''HEAD'' then [] else key) \<and>
    rw_codes t = (if r_method r = ''HEAD'' then [] else [200]) \<and> sv_gateway s' = sv_gateway s"
proof -
  obtain r' x o2 x2 where
    f: "finish r' now o2 x2 (gauge 1 s) = (out, t, s')" and
    h: "(o2, x2) = (case serveACMEChallenge (Some m) (o_http01 opts) r' x of (answered, x1) \<Rightarrow>
           if answered then (Returned, x1) else lr_handler listener r' x1)" and
    x: "x_shared x = sv_gateway s" "t_status (x_tracker x) = 0" "rw_codes (x_tracker x) = rw_codes w"
      "rw_body (x_tracker x) = rw_body w" "rw_room (x_tracker x) = rw_room w" and
    r: "challenge_token r' = challenge_token r" "r_method r' = r_method r"
    by (rule ServeHTTP_known [OF assms(1,2)]) blast
  let ?y = "setHeader ''Cache-Control'' ''no-store'' (setHeader ''Content-Type'' ''text/plain''
     (on_state (\<lambda>s. s\<lparr>st_route := ''acme-http-01''\<rparr>) x))"
  have "serveACMEChallenge (Some m) (o_http01 opts) r' x = (True, if r_method r \<noteq> ''HEAD'' then writeBody key ?y else ?y)"
    by (simp add: serveACMEChallenge_def r assms(3,4))
  then have o2: "o2 = Returned" "x2 = (if r_method r \<noteq> ''HEAD'' then writeBody key ?y else ?y)" using h by simp_all
  have "sv_gateway s' = x_shared x2"
    by (simp add: finish_parts(2) [OF f] o2(1) record_request_def gauge_def)
  also have "\<dots> = sv_gateway s" by (simp add: o2(2) writeBody_def setHeader_def x(1))
  finally show ?thesis
    using finish_parts(1,3) [OF f] x(2-5) assms(5-7) o2
    by (simp add: setHeader_def writeBody_def on_tracker_def tracker_Write_def under_write_def under_start_def
        under_writeHeader_def bodyAllowed_def Let_def)
qed

theorem challenge_answered_witness:
  "case ServeHTTP sample_options (sample_snapshot ''http'' httpNotFound) (Some (sample_manager\<lparr>am_tokens := [(''tok'', ''tok.key'')]\<rparr>))
     ''http'' ''id'' (get_request ''a.test'' ''/.well-known/acme-challenge/tok'' ''10.0.0.1:9'' []) (newTracker 100) 0 sample_serving of
     (out, t, s') \<Rightarrow> rw_body t = ''tok.key''"
proof (rule prod_cases3)
  let ?m = "sample_manager\<lparr>am_tokens := [(''tok'', ''tok.key'')]\<rparr>"
  let ?s = "sample_snapshot ''http'' httpNotFound"
  let ?r = "get_request ''a.test'' ''/.well-known/acme-challenge/tok'' ''10.0.0.1:9'' []"
  fix out t s'
  assume a: "ServeHTTP sample_options ?s (Some ?m) ''http'' ''id'' ?r (newTracker 100) 0 sample_serving = (out, t, s')"
  have l: "mget (sn_listeners ?s) ''http'' = Some (snd (hd (sn_listeners ?s)))" by (simp add: sample_snapshot_def)
  have c: "challenge_token ?r = Some ''tok''" by code_simp
  have "rw_body t = ''tok.key''"
    using challenge_answered [OF a l c, of "''tok.key''"] by (simp add: acme_challenge_def newTracker_def)
  then show "case ServeHTTP sample_options ?s (Some ?m) ''http'' ''id'' ?r (newTracker 100) 0 sample_serving of
     (out, t, s') \<Rightarrow> rw_body t = ''tok.key''" by (simp add: a)
qed

end
