(* ===== verification/Events.thy ===== *)
theory Events
  imports Go_Strings
begin

text \<open>
  \<open>events.go\<close>: the ring buffer of recent events and the log handler that fills
  it. The buffer is a record with the source's fields; its abstract view
  \<open>eventLog_list\<close> is the list of events, oldest first. The locale \<open>bounded_log\<close>
  is the contract the server's \<open>Events\<close> relies on: a log that keeps the last
  \<open>cap\<close> entries. The handler underneath (\<open>slog.Handler\<close>) is a parameter.
\<close>

definition maxEvents :: nat where
  "maxEvents = 256"

record Event =
  ev_time :: int
  ev_level :: string
  ev_message :: string
  ev_attrs :: "(string, string) gomap"

record eventLog =
  el_events :: "Event list"
  el_next :: nat

definition newEventLog :: eventLog where
  "newEventLog = \<lparr>el_events = [], el_next = 0\<rparr>"

definition eventLog_add :: "Event \<Rightarrow> eventLog \<Rightarrow> eventLog" where
  "eventLog_add e l =
     (if length (el_events l) < maxEvents then l\<lparr>el_events := el_events l @ [e]\<rparr>
      else l\<lparr>el_events := (el_events l)[el_next l := e], el_next := (el_next l + 1) mod maxEvents\<rparr>)"

definition eventLog_list :: "eventLog \<Rightarrow> Event list" where
  "eventLog_list l = drop (el_next l) (el_events l) @ take (el_next l) (el_events l)"

section \<open>The log handler\<close>

text \<open>
  A record's level is an integer: Info is 0. \<open>Level.String\<close> names a level by the
  highest named level at or below it, with the distance.
\<close>

record logRecord =
  lg_time :: int
  lg_level :: int
  lg_message :: string
  lg_attrs :: "(string \<times> string) list"

record ('h, 'w) slogOps =
  so_enabled :: "'h \<Rightarrow> int \<Rightarrow> bool"
  so_handle :: "'h \<Rightarrow> logRecord \<Rightarrow> 'w \<Rightarrow> unit result \<times> 'w"
  so_withAttrs :: "'h \<Rightarrow> (string \<times> string) list \<Rightarrow> 'h"
  so_withGroup :: "'h \<Rightarrow> string \<Rightarrow> 'h"

definition level_text :: "string \<Rightarrow> int \<Rightarrow> string" where
  "level_text base d = (if d = 0 then base else if 0 < d then base @ ''+'' @ itoa d else base @ itoa d)"

definition levelString :: "int \<Rightarrow> string" where
  "levelString l =
     (if l < 0 then level_text ''DEBUG'' (l + 4) else if l < 4 then level_text ''INFO'' l
      else if l < 8 then level_text ''WARN'' (l - 4) else level_text ''ERROR'' (l - 8))"

record 'h eventHandler =
  eh_next :: 'h
  eh_attrs :: "(string \<times> string) list"

definition eventHandler_Enabled :: "('h, 'w) slogOps \<Rightarrow> 'h eventHandler \<Rightarrow> int \<Rightarrow> bool" where
  "eventHandler_Enabled ops h level = (0 \<le> level \<or> so_enabled ops (eh_next h) level)"

definition event_of :: "'h eventHandler \<Rightarrow> logRecord \<Rightarrow> Event" where
  "event_of h r =
     \<lparr>ev_time = lg_time r, ev_level = levelString (lg_level r), ev_message = lg_message r,
      ev_attrs = foldl (\<lambda>m (k, v). mput k v m) [] (eh_attrs h @ lg_attrs r)\<rparr>"

definition eventHandler_Handle ::
  "('h, 'w) slogOps \<Rightarrow> 'h eventHandler \<Rightarrow> logRecord \<Rightarrow> eventLog \<times> 'w \<Rightarrow> unit result \<times> (eventLog \<times> 'w)" where
  "eventHandler_Handle ops h r s =
     (let (log, w) = s;
          log' = (if 0 \<le> lg_level r then eventLog_add (event_of h r) log else log)
      in if so_enabled ops (eh_next h) (lg_level r)
         then (case so_handle ops (eh_next h) r w of (e, w') \<Rightarrow> (e, (log', w')))
         else (Inr (), (log', w)))"

definition eventHandler_WithAttrs :: "('h, 'w) slogOps \<Rightarrow> 'h eventHandler \<Rightarrow> (string \<times> string) list \<Rightarrow> 'h eventHandler" where
  "eventHandler_WithAttrs ops h attrs = \<lparr>eh_next = so_withAttrs ops (eh_next h) attrs, eh_attrs = eh_attrs h @ attrs\<rparr>"

definition eventHandler_WithGroup :: "('h, 'w) slogOps \<Rightarrow> 'h eventHandler \<Rightarrow> string \<Rightarrow> 'h eventHandler" where
  "eventHandler_WithGroup ops h name = h\<lparr>eh_next := so_withGroup ops (eh_next h) name\<rparr>"

section \<open>The contract of a bounded log\<close>

definition last_n :: "nat \<Rightarrow> 'a list \<Rightarrow> 'a list" where
  "last_n n xs = drop (length xs - n) xs"

lemma length_last_n: "length (last_n n xs) = min n (length xs)"
  by (simp add: last_n_def)

lemma last_n_snoc: "0 < n \<Longrightarrow> last_n n (last_n n xs @ [x]) = last_n n (xs @ [x])"
  by (cases "length xs < n") (auto simp: last_n_def Suc_diff_le)

locale bounded_log =
  fixes init :: "'s"
    and add :: "'e \<Rightarrow> 's \<Rightarrow> 's"
    and entries :: "'s \<Rightarrow> 'e list"
    and ok :: "'s \<Rightarrow> bool"
    and cap :: nat
  assumes ok_init: "ok init"
    and ok_add: "ok s \<Longrightarrow> ok (add e s)"
    and entries_init: "entries init = []"
    and entries_add: "ok s \<Longrightarrow> entries (add e s) = last_n cap (entries s @ [e])"
    and cap_pos: "0 < cap"
begin

lemma ok_fold: "ok s \<Longrightarrow> ok (fold add es s)"
  by (induction es arbitrary: s) (auto simp: ok_add)

lemma entries_fold_from: "ok s \<Longrightarrow> es \<noteq> [] \<Longrightarrow> entries (fold add es s) = last_n cap (entries s @ es)"
proof (induction es rule: rev_induct)
  case (snoc e es)
  have step: "entries (fold add (es @ [e]) s) = last_n cap (entries (fold add es s) @ [e])"
    using entries_add [OF ok_fold [OF snoc.prems(1)]] by simp
  show ?case
  proof (cases "es = []")
    case False
    then have "entries (fold add es s) = last_n cap (entries s @ es)" using snoc by blast
    then show ?thesis using step last_n_snoc [OF cap_pos, of "entries s @ es" e] by simp
  qed (use step in simp)
qed simp

text \<open>After any sequence of additions the log holds the last \<open>cap\<close> of them, oldest first.\<close>

lemma entries_fold: "entries (fold add es init) = last_n cap es"
proof (cases "es = []")
  case False
  then show ?thesis using entries_fold_from [OF ok_init False] by (simp add: entries_init)
qed (simp add: entries_init last_n_def)

end

section \<open>The ring buffer meets the contract\<close>

definition eventLog_ok :: "eventLog \<Rightarrow> bool" where
  "eventLog_ok l \<longleftrightarrow> length (el_events l) \<le> maxEvents \<and> el_next l < maxEvents \<and>
     (length (el_events l) < maxEvents \<longrightarrow> el_next l = 0)"

lemma eventLog_list_add:
  assumes "eventLog_ok l"
  shows "eventLog_list (eventLog_add e l) = last_n maxEvents (eventLog_list l @ [e])"
proof (cases "length (el_events l) < maxEvents")
  case True
  then show ?thesis using assms by (simp add: eventLog_ok_def eventLog_add_def eventLog_list_def last_n_def)
next
  case False
  with assms have len: "length (el_events l) = maxEvents" and n: "el_next l < maxEvents" by (auto simp: eventLog_ok_def)
  define a b where "a = take (el_next l) (el_events l)" and "b = drop (el_next l) (el_events l)"
  then have "b \<noteq> []" using len n by simp
  then obtain x c where b: "b = x # c" by (auto simp: neq_Nil_conv)
  have ev: "el_events l = a @ x # c" and la: "length a = el_next l" using a_def b_def b len n by (auto simp: append_take_drop_id)
  have upd: "(el_events l)[el_next l := e] = a @ e # c" by (simp add: ev flip: la)
  have "last_n maxEvents (eventLog_list l @ [e]) = c @ a @ [e]"
  proof -
    have "maxEvents = Suc (length a + length c)" using len by (simp add: ev)
    then have "length (x # c @ a @ [e]) - maxEvents = 1" by simp
    then show ?thesis by (simp add: eventLog_list_def last_n_def ev flip: la)
  qed
  moreover have "eventLog_list (eventLog_add e l) = c @ a @ [e]"
  proof (cases "Suc (el_next l) = maxEvents")
    case True
    moreover have "length (el_events l) = length a + Suc (length c)" by (simp add: ev)
    ultimately have "length c = 0" using len la by linarith
    then have "c = []" by simp
    then show ?thesis using False True by (simp add: eventLog_add_def eventLog_list_def upd)
  next
    case other: False
    then have "(el_next l + 1) mod maxEvents = Suc (length a)" using n la by simp
    then show ?thesis using False by (simp add: eventLog_add_def eventLog_list_def upd)
  qed
  ultimately show ?thesis by simp
qed

interpretation events: bounded_log newEventLog eventLog_add eventLog_list eventLog_ok maxEvents
proof
  show "eventLog_ok newEventLog" by (simp add: eventLog_ok_def newEventLog_def maxEvents_def)
  show "eventLog_ok l \<Longrightarrow> eventLog_ok (eventLog_add e l)" for l e
    by (auto simp: eventLog_ok_def eventLog_add_def maxEvents_def)
  show "eventLog_list newEventLog = []" by (simp add: eventLog_list_def newEventLog_def)
qed (simp_all add: eventLog_list_add, simp add: maxEvents_def)

text \<open>Handling log records one after the other.\<close>

definition handle_all :: "('h, 'w) slogOps \<Rightarrow> 'h eventHandler \<Rightarrow> logRecord list \<Rightarrow> eventLog \<times> 'w \<Rightarrow> eventLog \<times> 'w" where
  "handle_all ops h rs s = fold (\<lambda>r s. snd (eventHandler_Handle ops h r s)) rs s"

lemma handle_all_log:
  "fst (handle_all ops h rs s) = fold eventLog_add (map (event_of h) (filter (\<lambda>r. 0 \<le> lg_level r) rs)) (fst s)"
proof (induction rs arbitrary: s)
  case (Cons r rs)
  have "fst (snd (eventHandler_Handle ops h r s)) =
      (if 0 \<le> lg_level r then eventLog_add (event_of h r) (fst s) else fst s)"
    by (auto simp: eventHandler_Handle_def Let_def split: prod.split)
  then show ?case using Cons.IH [of "snd (eventHandler_Handle ops h r s)"] by (simp add: handle_all_def)
qed (simp add: handle_all_def)

text \<open>C37: \<open>Events\<close> reports the most recent 256 log records at Info and above, oldest
  first, whatever records below Info come between them, whatever the configured
  handler does, and however often the ring buffer wraps around.\<close>

theorem events_last_256:
  "eventLog_list (fst (handle_all ops h rs (newEventLog, w))) =
     last_n 256 (map (event_of h) (filter (\<lambda>r. 0 \<le> lg_level r) rs))"
  using events.entries_fold by (simp add: handle_all_log maxEvents_def)

end
