(* ===== verification/Server.thy ===== *)
theory Server
  imports Serve Events
begin

text \<open>
  \<open>server.go\<close>: the server's lifecycle. The state \<open>server\<close> is what the mutex
  guards, with the objects it refers to: the active snapshot, the heap of
  shared objects, the running listeners, which ACME manager's loop runs and
  whether the certificate refresher does. The operating system's side is
  \<open>srv_listening\<close>, the sockets that accept connections; whether binding an
  address succeeds, and to which address, is the parameter \<open>net\<close>, asked anew
  for each attempt. Options are an argument of each operation, because what
  they read (files, certificate sources, the clock) changes between operations.
  Every operation runs under the mutex, so it is one step.
\<close>

section \<open>State\<close>

record runningListener =
  rn_spec :: listenerSpec
  rn_sock :: nat
  rn_addr :: string
  rn_closing :: bool
  rn_failure :: "gerror option"

record ('l, 'w) server =
  srv_current :: "'l snapshot"
  srv_heap :: "('l, 'w) heap"
  srv_running :: "(string, runningListener) gomap"
  srv_started :: bool
  srv_issuerOf :: "nat option"
  srv_refresher :: bool
  srv_listening :: "nat list"
  srv_nextSock :: nat
  srv_draining :: "runningListener list"
  srv_idleClosed :: "pool list"

type_synonym net = "nat \<Rightarrow> string \<Rightarrow> string result"

definition ErrAlreadyRunning :: gerror where
  "ErrAlreadyRunning = Errorf ''yabber: server is already running'' []"

definition ListenerError :: "string \<Rightarrow> gerror \<Rightarrow> gerror" where
  "ListenerError listener e = Wrapf ''listener %q: %v'' [listener] e"

section \<open>Listeners\<close>

definition bound :: "'l snapshot \<Rightarrow> (string, 'l gateway listenerRuntime) gomap" where
  "bound snap = (if c_disabled (sn_config snap) then [] else sn_listeners snap)"

definition close_socket :: "nat \<Rightarrow> ('l, 'w) server \<Rightarrow> ('l, 'w) server" where
  "close_socket sock s = s\<lparr>srv_listening := removeAll sock (srv_listening s)\<rparr>"

definition listen :: "net \<Rightarrow> string \<Rightarrow> listenerSpec \<Rightarrow> (('l, 'w) server, runningListener) action" where
  "listen net name spec s =
     (let sock = srv_nextSock s; s1 = s\<lparr>srv_nextSock := Suc sock\<rparr> in
      case net sock (sp_address spec) of
        Inl e \<Rightarrow> (Inl (ListenerError name e), s1)
      | Inr addr \<Rightarrow>
          (Inr \<lparr>rn_spec = spec, rn_sock = sock, rn_addr = addr, rn_closing = False, rn_failure = None\<rparr>,
           s1\<lparr>srv_listening := sock # srv_listening s\<rparr>))"

definition stopAccepting :: "string \<Rightarrow> ('l, 'w) server \<Rightarrow> ('l, 'w) server" where
  "stopAccepting name s =
     (case mget (srv_running s) name of
        None \<Rightarrow> s
      | Some r \<Rightarrow> close_socket (rn_sock r) (s\<lparr>srv_running := mput name (r\<lparr>rn_closing := True\<rparr>) (srv_running s)\<rparr>))"

text \<open>Closing the listeners that were started before one failed to bind.\<close>

definition close_all :: "(string \<times> runningListener) list \<Rightarrow> ('l, 'w) server \<Rightarrow> ('l, 'w) server" where
  "close_all rs s = foldl (\<lambda>s (_, r). close_socket (rn_sock r) s) s rs"

text \<open>\<open>Shutdown\<close> of a replaced listener runs in the background; it closes the socket.\<close>

definition drain :: "runningListener \<Rightarrow> ('l, 'w) server \<Rightarrow> ('l, 'w) server" where
  "drain r s = (close_socket (rn_sock r) s)\<lparr>srv_draining := srv_draining s @ [r\<lparr>rn_closing := True\<rparr>]\<rparr>"

text \<open>The goroutine of a listener ends with an error: it is kept unless the listener was closed on purpose.\<close>

definition serve_fails :: "string \<Rightarrow> gerror \<Rightarrow> ('l, 'w) server \<Rightarrow> ('l, 'w) server" where
  "serve_fails name e s =
     (case mget (srv_running s) name of
        None \<Rightarrow> s
      | Some r \<Rightarrow>
          if rn_closing r then close_socket (rn_sock r) s
          else close_socket (rn_sock r)
            (s\<lparr>srv_running := mput name (r\<lparr>rn_failure := Some (ListenerError name e)\<rparr>) (srv_running s)\<rparr>))"

fun listen_all ::
  "net \<Rightarrow> (string \<Rightarrow> 'l gateway listenerRuntime \<Rightarrow> bool) \<Rightarrow> (string, 'l gateway listenerRuntime) gomap \<Rightarrow>
   (string, runningListener) gomap \<Rightarrow> (('l, 'w) server, (string, runningListener) gomap) action" where
  "listen_all net keep [] opened s = (Inr opened, s)"
| "listen_all net keep ((name, l) # ls) opened s =
     (if keep name l then listen_all net keep ls opened s
      else case listen net name (lr_spec l) s of
        (Inl e, s1) \<Rightarrow> (Inl e, close_all opened s1)
      | (Inr r, s1) \<Rightarrow> listen_all net keep ls (opened @ [(name, r)]) s1)"

section \<open>Committing a snapshot\<close>

definition syncIssuerLocked :: "('l, 'w) server \<Rightarrow> ('l, 'w) server" where
  "syncIssuerLocked s =
     (let want = (if srv_started s then map_option fst (sn_acme (srv_current s)) else None)
      in if srv_issuerOf s = want then s else s\<lparr>srv_issuerOf := want\<rparr>)"

definition closeUnusedTransports :: "'l snapshot \<Rightarrow> 'l snapshot \<Rightarrow> ('l, 'w) server \<Rightarrow> ('l, 'w) server" where
  "closeUnusedTransports prev nxt s = s\<lparr>srv_idleClosed := srv_idleClosed s @
     map snd (filter (\<lambda>(k, p). mget (sn_transports nxt) k \<noteq> Some p) (sn_transports prev))\<rparr>"

definition assign_hosts :: "'w acme_ops \<Rightarrow> 'l snapshot \<Rightarrow> bool \<Rightarrow> ('l, 'w) heap \<Rightarrow> ('l, 'w) heap" where
  "assign_hosts ops snap reload h =
     (case sn_acme snap of
        None \<Rightarrow> h
      | Some (ref, _) \<Rightarrow>
          (case mget (hp_managers h) ref of
             None \<Rightarrow> h
           | Some m \<Rightarrow> h\<lparr>hp_managers := mput ref (setHosts ops (sn_managedHosts snap) reload m) (hp_managers h)\<rparr>))"

definition commitLocked ::
  "'w acme_ops \<Rightarrow> 'l snapshot option \<Rightarrow> 'l snapshot \<Rightarrow> bool \<Rightarrow> ('l, 'w) server \<Rightarrow> ('l, 'w) server" where
  "commitLocked ops prev nxt reload s =
     (let s1 = syncIssuerLocked (s\<lparr>srv_heap := assign_hosts ops nxt reload (srv_heap s), srv_current := nxt\<rparr>)
      in case prev of None \<Rightarrow> s1 | Some p \<Rightarrow> closeUnusedTransports p nxt s1)"

definition New :: "'w acme_ops \<Rightarrow> ('l, 'w) options \<Rightarrow> Config \<Rightarrow> ('l, 'w) heap \<Rightarrow> ('l, 'w) server result" where
  "New ops opts config h =
     rbind (compile config opts None h) (\<lambda>(snap, h').
       Inr (commitLocked ops None snap True
         \<lparr>srv_current = snap, srv_heap = h', srv_running = [], srv_started = False, srv_issuerOf = None,
          srv_refresher = False, srv_listening = [], srv_nextSock = 0, srv_draining = [], srv_idleClosed = []\<rparr>))"

definition Validate :: "('l, 'w) options \<Rightarrow> Config \<Rightarrow> ('l, 'w) heap \<Rightarrow> unit result" where
  "Validate opts config h = rbind (compile config opts None h) (\<lambda>_. Inr ())"

section \<open>Applying a configuration\<close>

definition stale_listeners :: "'l snapshot \<Rightarrow> ('l, 'w) server \<Rightarrow> string list" where
  "stale_listeners nxt s =
     mkeys (filter (\<lambda>(name, r). case mget (bound nxt) name of None \<Rightarrow> True | Some l \<Rightarrow> lr_spec l \<noteq> rn_spec r) (srv_running s))"

definition unchanged_listener :: "('l, 'w) server \<Rightarrow> string \<Rightarrow> 'l gateway listenerRuntime \<Rightarrow> bool" where
  "unchanged_listener s name l = (case mget (srv_running s) name of None \<Rightarrow> False | Some r \<Rightarrow> rn_spec r = lr_spec l)"

text \<open>The errors of restoring stopped listeners, and the state after it.\<close>

fun rebindLocked :: "net \<Rightarrow> string list \<Rightarrow> ('l, 'w) server \<Rightarrow> gerror list \<times> ('l, 'w) server" where
  "rebindLocked net [] s = ([], s)"
| "rebindLocked net (name # names) s =
     (case mget (srv_running s) name of
        None \<Rightarrow> rebindLocked net names s
      | Some old \<Rightarrow>
          (case listen net name (rn_spec old) s of
             (Inl e, s1) \<Rightarrow>
               (let s2 = drain old s1;
                    (es, s3) = rebindLocked net names (s2\<lparr>srv_running := mdel name (srv_running s2)\<rparr>)
                in (Wrapf ''restore previous listener: %w'' [] e # es, s3))
           | (Inr r, s1) \<Rightarrow>
               (let s2 = drain old s1
                in rebindLocked net names (s2\<lparr>srv_running := mput name r (srv_running s2)\<rparr>))))"

definition retire :: "string \<Rightarrow> ('l, 'w) server \<Rightarrow> ('l, 'w) server" where
  "retire name s =
     (case mget (srv_running s) name of
        None \<Rightarrow> s
      | Some r \<Rightarrow> (drain r s)\<lparr>srv_running := mdel name (srv_running s)\<rparr>)"

definition adopt :: "(string, runningListener) gomap \<Rightarrow> ('l, 'w) server \<Rightarrow> ('l, 'w) server" where
  "adopt opened s = s\<lparr>srv_running := foldl (\<lambda>m (n, r). mput n r m) (srv_running s) opened\<rparr>"

definition applyLocked ::
  "'w acme_ops \<Rightarrow> net \<Rightarrow> ('l, 'w) options \<Rightarrow> Config \<Rightarrow> (('l, 'w) server, unit) action" where
  "applyLocked ops net opts config s =
     (let previous = srv_current s in
      case compile config opts (Some previous) (srv_heap s) of
        Inl e \<Rightarrow> (Inl e, s)
      | Inr (nxt, h) \<Rightarrow>
          if \<not> srv_started s then (Inr (), commitLocked ops (Some previous) nxt True (s\<lparr>srv_heap := h\<rparr>))
          else
            (let stale = stale_listeners nxt s; s1 = fold stopAccepting stale s in
             case listen_all net (unchanged_listener s) (bound nxt) [] s1 of
               (Inl e, s2) \<Rightarrow> (let (es, s3) = rebindLocked net stale s2 in (Inl (JoinErr (e # es)), s3))
             | (Inr opened, s2) \<Rightarrow>
                 (Inr (), adopt opened (fold retire stale
                    (commitLocked ops (Some previous) nxt True (s2\<lparr>srv_heap := h\<rparr>))))))"

definition Apply :: "'w acme_ops \<Rightarrow> net \<Rightarrow> ('l, 'w) options \<Rightarrow> Config \<Rightarrow> (('l, 'w) server, unit) action" where
  "Apply ops net opts config = applyLocked ops net opts config"

definition Update ::
  "'w acme_ops \<Rightarrow> net \<Rightarrow> ('l, 'w) options \<Rightarrow> (Config \<Rightarrow> Config result) \<Rightarrow> (('l, 'w) server, unit) action" where
  "Update ops net opts modify s =
     (case modify (sn_config (srv_current s)) of
        Inl e \<Rightarrow> (Inl e, s)
      | Inr config \<Rightarrow> applyLocked ops net opts config s)"

section \<open>Certificates\<close>

definition refreshCertificatesLocked :: "'w acme_ops \<Rightarrow> tls_env \<Rightarrow> (('l, 'w) server, unit) action" where
  "refreshCertificatesLocked ops tls s =
     (let current = srv_current s in
      case loadCertificates tls (certificates (c_tls (sn_config current))) of
        Inl e \<Rightarrow> (Inl e, s)
      | Inr certs \<Rightarrow> (Inr (), commitLocked ops None
          (current\<lparr>sn_certs := certs, sn_managedHosts := managedHosts (sn_tlsHosts current) certs (sn_acme current \<noteq> None)\<rparr>)
          False s))"

text \<open>One tick of the refresher's timer, after which an error is only logged.\<close>

definition refresh_tick :: "'w acme_ops \<Rightarrow> tls_env \<Rightarrow> ('l, 'w) server \<Rightarrow> ('l, 'w) server" where
  "refresh_tick ops tls s = (if srv_refresher s then snd (refreshCertificatesLocked ops tls s) else s)"

definition manager_of :: "('l, 'w) server \<Rightarrow> 'w acmeManager option" where
  "manager_of s = (case sn_acme (srv_current s) of None \<Rightarrow> None | Some (ref, _) \<Rightarrow> mget (hp_managers (srv_heap s)) ref)"

definition server_certificate :: "string \<Rightarrow> ('l, 'w) server \<Rightarrow> certificate result" where
  "server_certificate serverName s =
     (let snap = srv_current s; host = requestHost serverName in
      case hostTable_match (cs_current (sn_certs snap)) host of
        Some c \<Rightarrow> Inr c
      | None \<Rightarrow>
          (case (case manager_of s of None \<Rightarrow> None | Some m \<Rightarrow> acme_certificate m host) of
             Some c \<Rightarrow> Inr c
           | None \<Rightarrow>
               (case hostTable_match (cs_stale (sn_certs snap)) host of
                  Some c \<Rightarrow> Inr c
                | None \<Rightarrow> Inl (Errorf ''no certificate for %q'' [serverName]))))"

text \<open>A managed host without a certificate has Go's zero time, 62135596800 seconds before 1970.\<close>

definition status_le :: "CertificateStatus \<Rightarrow> CertificateStatus \<Rightarrow> bool" where
  "status_le a b =
     (let unix = (\<lambda>c. case st_notAfter c of None \<Rightarrow> -62135596800 | Some t \<Rightarrow> t div 1000000000)
      in if hd (st_names a) \<noteq> hd (st_names b) then string_le (hd (st_names a)) (hd (st_names b)) else unix a \<le> unix b)"

definition Certificates :: "('l, 'w) server \<Rightarrow> CertificateStatus list" where
  "Certificates s = sort_by status_le (staticCertificateStatuses (sn_certs (srv_current s)) @
     (case manager_of s of None \<Rightarrow> [] | Some m \<Rightarrow> acme_statuses m))"

section \<open>Starting and stopping\<close>

definition Start :: "net \<Rightarrow> (('l, 'w) server, unit) action" where
  "Start net s =
     (if srv_started s then (Inl ErrAlreadyRunning, s)
      else case listen_all net (\<lambda>_ _. False) (bound (srv_current s)) [] s of
        (Inl e, s1) \<Rightarrow> (Inl e, s1)
      | (Inr opened, s1) \<Rightarrow>
          (Inr (), (syncIssuerLocked (s1\<lparr>srv_running := opened, srv_started := True\<rparr>))\<lparr>srv_refresher := True\<rparr>))"

text \<open>
  \<open>shut\<close> says which listener's \<open>Shutdown\<close> exceeds the deadline and is closed by force,
  \<open>drained\<close> whether waiting for the replaced listeners does; those go on draining
  in the background until their own deadline.
\<close>

definition Shutdown :: "(string \<Rightarrow> gerror option) \<Rightarrow> gerror option \<Rightarrow> (('l, 'w) server, unit) action" where
  "Shutdown shut drained s =
     (let running = srv_running s;
          s1 = (syncIssuerLocked (s\<lparr>srv_running := [], srv_started := False\<rparr>))\<lparr>srv_refresher := False\<rparr>;
          s2 = close_all running s1;
          errs = List.map_filter (\<lambda>(n, _). map_option (ListenerError n) (shut n)) running @
                 (case drained of None \<Rightarrow> [] | Some e \<Rightarrow> [Wrapf ''draining replaced listeners: %w'' [] e]);
          s3 = s2\<lparr>srv_draining := (if drained = None then [] else srv_draining s2), srv_idleClosed := srv_idleClosed s2 @ map snd (sn_transports (srv_current s2))\<rparr>
      in (if errs = [] then Inr () else Inl (JoinErr errs), s3))"

section \<open>Observing\<close>

record ListenerStatus =
  ls_name :: string
  ls_address :: string
  ls_tls :: bool
  ls_running :: bool
  ls_error :: "gerror option"

record Status =
  sta_running :: bool
  sta_enabled :: bool
  sta_listeners :: "ListenerStatus list"

definition listener_status :: "('l, 'w) server \<Rightarrow> string \<times> 'l gateway listenerRuntime \<Rightarrow> ListenerStatus" where
  "listener_status s nl =
     (let (name, l) = nl;
          item = \<lparr>ls_name = name, ls_address = sp_address (lr_spec l), ls_tls = sp_tls (lr_spec l),
                  ls_running = False, ls_error = None\<rparr>
      in case mget (srv_running s) name of
           None \<Rightarrow> item
         | Some r \<Rightarrow> item\<lparr>ls_address := rn_addr r, ls_running := (rn_failure r = None), ls_error := rn_failure r\<rparr>)"

definition server_status :: "('l, 'w) server \<Rightarrow> Status" where
  "server_status s = \<lparr>sta_running = srv_started s, sta_enabled = \<not> c_disabled (sn_config (srv_current s)),
     sta_listeners = sort_by (\<lambda>a b. string_le (ls_name a) (ls_name b))
       (map (listener_status s) (sn_listeners (srv_current s)))\<rparr>"

definition Healthy :: "('l, 'w) server \<Rightarrow> bool" where
  "Healthy s =
     (let st = server_status s
      in sta_running st \<and> (sta_enabled st \<longrightarrow> list_all ls_running (sta_listeners st)))"

definition server_Handler :: "string \<Rightarrow> ('l, 'w) server \<Rightarrow> string result" where
  "server_Handler listener s =
     (if mhas (sn_listeners (srv_current s)) listener then Inr listener
      else Inl (Errorf ''unknown listener %q'' [listener]))"

definition server_Metrics :: "metrics \<Rightarrow> ('l, 'w) server \<Rightarrow> MetricsSnapshot" where
  "server_Metrics m s = (metrics_snapshot m)\<lparr>ms_certificates := Certificates s\<rparr>"

end
