(* ===== verification/Lifecycle.thy ===== *)
theory Lifecycle
  imports Server
begin

text \<open>
  Invariants of the server's lifecycle. \<open>sock_inv S s\<close> relates the sockets that
  accept connections to a set \<open>S\<close> of named listeners: no two share a socket, and
  exactly the live ones' sockets accept. Every helper of \<open>applyLocked\<close> moves
  listeners in or out of \<open>S\<close>; the operations then keep \<open>server_ok\<close>.
\<close>

section \<open>Sockets\<close>

definition live :: "runningListener \<Rightarrow> bool" where
  "live r \<longleftrightarrow> \<not> rn_closing r \<and> rn_failure r = None"

definition graph :: "('k, 'v) gomap \<Rightarrow> ('k \<times> 'v) set" where
  "graph m = {(k, v). mget m k = Some v}"

lemma graph_iff [simp]: "(k, v) \<in> graph m \<longleftrightarrow> mget m k = Some v"
  by (simp add: graph_def)

lemma graph_Nil [simp]: "graph [] = {}"
  by (auto simp: graph_def)

lemma graph_mput: "mget m k = Some old \<Longrightarrow> graph (mput k v m) = insert (k, v) (graph m - {(k, old)})"
  by (auto simp: graph_def split: if_splits)

lemma graph_mdel: "mget m k = Some old \<Longrightarrow> graph (mdel k m) = graph m - {(k, old)}"
  by (auto simp: graph_def split: if_splits)

definition sock :: "string \<times> runningListener \<Rightarrow> nat" where
  "sock p = rn_sock (snd p)"

lemma sock_pair [simp]: "sock (n, r) = rn_sock r"
  by (simp add: sock_def)

definition sock_inv :: "(string \<times> runningListener) set \<Rightarrow> ('l, 'w) server \<Rightarrow> bool" where
  "sock_inv S s \<longleftrightarrow> inj_on sock S \<and> (\<forall>p \<in> S. sock p < srv_nextSock s) \<and>
     set (srv_listening s) = sock ` {p \<in> S. live (snd p)}"

text \<open>What the helpers leave alone.\<close>

definition held :: "('l, 'w) server \<Rightarrow> 'l snapshot \<times> bool \<times> nat option \<times> bool" where
  "held s = (srv_current s, srv_started s, srv_issuerOf s, srv_refresher s)"

lemma close_socket_fields [simp]:
  "srv_running (close_socket k s) = srv_running s" "srv_nextSock (close_socket k s) = srv_nextSock s"
  "held (close_socket k s) = held s" "srv_heap (close_socket k s) = srv_heap s"
  "set (srv_listening (close_socket k s)) = set (srv_listening s) - {k}"
  by (simp_all add: close_socket_def held_def)

lemma drain_fields [simp]:
  "srv_running (drain r s) = srv_running s" "held (drain r s) = held s" "srv_heap (drain r s) = srv_heap s"
  "srv_nextSock (drain r s) = srv_nextSock s" "srv_listening (drain r s) = srv_listening (close_socket (rn_sock r) s)"
  by (simp_all add: drain_def held_def close_socket_def)

lemma sock_inv_running [simp]: "sock_inv S (s\<lparr>srv_running := m\<rparr>) = sock_inv S s"
  by (simp add: sock_inv_def)

lemma sock_inv_heap [simp]: "sock_inv S (s\<lparr>srv_heap := h\<rparr>) = sock_inv S s"
  by (simp add: sock_inv_def)

lemma sock_inv_drain [simp]: "sock_inv S (drain r s) = sock_inv S (close_socket (rn_sock r) s)"
  by (simp add: sock_inv_def)

lemma held_running [simp]: "held (s\<lparr>srv_running := m\<rparr>) = held s"
  by (simp add: held_def)

lemma sock_inv_close:
  assumes "sock_inv S s" and "(n, r) \<in> S"
  shows "sock_inv (S - {(n, r)}) (close_socket (rn_sock r) s)"
proof -
  have "p = (n, r)" if "p \<in> S" "sock p = rn_sock r" for p
    using assms that unfolding sock_inv_def inj_on_def by (metis sock_pair)
  then have "sock ` {p \<in> S. live (snd p)} - {rn_sock r} = sock ` {p \<in> S - {(n, r)}. live (snd p)}"
    by fastforce
  moreover have "inj_on sock (S - {(n, r)})" by (rule inj_on_subset [of sock S]) (use assms(1) in \<open>auto simp: sock_inv_def\<close>)
  ultimately show ?thesis using assms(1) by (simp add: sock_inv_def)
qed

lemma sock_inv_insert_dead:
  assumes "sock_inv S s" and "\<not> live r" and "rn_sock r < srv_nextSock s" and "\<forall>p \<in> S. sock p \<noteq> rn_sock r"
  shows "sock_inv (insert (n, r) S) s"
proof -
  have "{p \<in> insert (n, r) S. live (snd p)} = {p \<in> S. live (snd p)}" using assms(2) by auto
  then show ?thesis using assms unfolding sock_inv_def by (auto simp: inj_on_def)
qed

text \<open>Marking a listener as closing or failed, with its socket closed.\<close>

lemma sock_inv_mark:
  assumes "sock_inv S s" and "(n, r) \<in> S" and "rn_sock r' = rn_sock r" and "\<not> live r'"
  shows "sock_inv (insert (n, r') (S - {(n, r)})) (close_socket (rn_sock r) s)"
proof (rule sock_inv_insert_dead [OF sock_inv_close [OF assms(1,2)] assms(4)])
  show "rn_sock r' < srv_nextSock (close_socket (rn_sock r) s)"
    using assms unfolding sock_inv_def by (metis close_socket_fields(2) sock_pair)
  show "\<forall>p \<in> S - {(n, r)}. sock p \<noteq> rn_sock r'"
    using assms unfolding sock_inv_def inj_on_def by (metis DiffE assms(2) insertI1 sock_pair)
qed

lemma listen_Inr:
  assumes "listen net name spec s = (Inr r, s')" and "sock_inv S s"
  shows "sock_inv (insert (name, r) S) s'" and "live r" and "rn_spec r = spec" and "(n, r) \<notin> S"
    and "srv_running s' = srv_running s" and "held s' = held s" and "srv_heap s' = srv_heap s"
proof -
  have r: "rn_sock r = srv_nextSock s" "live r" "rn_spec r = spec" "srv_running s' = srv_running s"
    "srv_nextSock s' = Suc (srv_nextSock s)" "srv_listening s' = srv_nextSock s # srv_listening s"
    "held s' = held s" "srv_heap s' = srv_heap s"
    using assms(1) by (auto simp: listen_def Let_def live_def held_def split: sum.splits)
  have new: "\<forall>p \<in> S. sock p < srv_nextSock s" using assms(2) by (simp add: sock_inv_def)
  show "sock_inv (insert (name, r) S) s'"
    unfolding sock_inv_def
  proof (intro conjI)
    show "inj_on sock (insert (name, r) S)"
      using assms(2) new r(1) unfolding sock_inv_def inj_on_def by fastforce
    show "\<forall>p \<in> insert (name, r) S. sock p < srv_nextSock s'" using new r(1,5) by fastforce
    have "{p \<in> insert (name, r) S. live (snd p)} = insert (name, r) {p \<in> S. live (snd p)}" using r(2) by auto
    then show "set (srv_listening s') = sock ` {p \<in> insert (name, r) S. live (snd p)}"
      using assms(2) r(1,6) unfolding sock_inv_def by simp
  qed
  show "(n, r) \<notin> S" using new r(1) by fastforce
qed (use assms(1) in \<open>auto simp: listen_def Let_def live_def held_def split: sum.splits\<close>)

lemma listen_Inl:
  assumes "listen net name spec s = (Inl e, s')"
  shows "sock_inv S s \<Longrightarrow> sock_inv S s'" and "srv_running s' = srv_running s" and "held s' = held s"
    and "srv_heap s' = srv_heap s"
proof -
  have s': "s' = s\<lparr>srv_nextSock := Suc (srv_nextSock s)\<rparr>"
    using assms by (simp add: listen_def Let_def split: sum.splits)
  show "sock_inv S s \<Longrightarrow> sock_inv S s'" unfolding s' sock_inv_def by (simp, meson less_SucI)
qed (use assms in \<open>auto simp: listen_def Let_def held_def split: sum.splits\<close>)

lemma close_all_inv:
  "sock_inv (S \<union> set rs) s \<Longrightarrow> S \<inter> set rs = {} \<Longrightarrow> distinct rs \<Longrightarrow>
   sock_inv S (close_all rs s) \<and> srv_running (close_all rs s) = srv_running s \<and>
   held (close_all rs s) = held s \<and> srv_heap (close_all rs s) = srv_heap s"
proof (induction rs arbitrary: s)
  case (Cons p rs)
  obtain n r where p: "p = (n, r)" by fastforce
  have "sock_inv (S \<union> set (p # rs) - {(n, r)}) (close_socket (rn_sock r) s)"
    by (rule sock_inv_close [OF Cons.prems(1)]) (simp add: p)
  moreover have "S \<union> set (p # rs) - {(n, r)} = S \<union> set rs" using Cons.prems(2,3) p by auto
  ultimately have "sock_inv (S \<union> set rs) (close_socket (rn_sock r) s)" by simp
  from Cons.IH [OF this] Cons.prems(2,3) show ?case by (simp add: close_all_def p)
qed (simp add: close_all_def)

text \<open>Binding the listeners of a snapshot, for \<open>Start\<close> and \<open>Apply\<close>.\<close>

definition opens :: "(string, 'g listenerRuntime) gomap \<Rightarrow> (string, runningListener) gomap \<Rightarrow> bool" where
  "opens ls opened \<longleftrightarrow> list_all2 (\<lambda>(n, l) (m, r). n = m \<and> rn_spec r = lr_spec l \<and> live r) ls opened"

lemma listen_all_outcome:
  assumes "sock_inv (S \<union> set opened) s" and "S \<inter> set opened = {}" and "distinct opened"
  shows "(case listen_all net keep ls opened s of
      (Inl e, s') \<Rightarrow> sock_inv S s' \<and> srv_running s' = srv_running s \<and> held s' = held s \<and> srv_heap s' = srv_heap s
    | (Inr opened', s') \<Rightarrow> \<exists>new. opened' = opened @ new \<and> opens (filter (\<lambda>(n, l). \<not> keep n l) ls) new \<and>
        sock_inv (S \<union> set opened') s' \<and> S \<inter> set opened' = {} \<and>
        srv_running s' = srv_running s \<and> held s' = held s \<and> srv_heap s' = srv_heap s)"
  using assms
proof (induction ls arbitrary: opened s)
  case Nil
  then show ?case by (simp add: opens_def)
next
  case (Cons nl ls)
  obtain n l where nl: "nl = (n, l)" by fastforce
  show ?case
  proof (cases "keep n l")
    case True
    then have same: "filter (\<lambda>(n, l). \<not> keep n l) (nl # ls) = filter (\<lambda>(n, l). \<not> keep n l) ls"
      "listen_all net keep (nl # ls) opened s = listen_all net keep ls opened s" by (simp_all add: nl)
    show ?thesis unfolding same by (rule Cons.IH [OF Cons.prems])
  next
    case keep: False
    obtain res s1 where li: "listen net n (lr_spec l) s = (res, s1)" by fastforce
    show ?thesis
    proof (cases res)
      case (Inl e)
      note q = listen_Inl [OF li [unfolded Inl]]
      from close_all_inv [OF q(1) [OF Cons.prems(1)] Cons.prems(2,3)] q(2-4) show ?thesis
        by (simp add: nl keep li Inl)
    next
      case (Inr r)
      note q = listen_Inr [OF li [unfolded Inr] Cons.prems(1)]
      have "sock_inv (S \<union> set (opened @ [(n, r)])) s1" using q(1) by simp
      moreover have "S \<inter> set (opened @ [(n, r)]) = {}" "distinct (opened @ [(n, r)])"
        using q(4) Cons.prems(2,3) by auto
      ultimately have ih: "case listen_all net keep ls (opened @ [(n, r)]) s1 of
          (Inl e, s') \<Rightarrow> sock_inv S s' \<and> srv_running s' = srv_running s1 \<and> held s' = held s1 \<and> srv_heap s' = srv_heap s1
        | (Inr opened', s') \<Rightarrow> \<exists>new. opened' = (opened @ [(n, r)]) @ new \<and> opens (filter (\<lambda>(n, l). \<not> keep n l) ls) new \<and>
            sock_inv (S \<union> set opened') s' \<and> S \<inter> set opened' = {} \<and>
            srv_running s' = srv_running s1 \<and> held s' = held s1 \<and> srv_heap s' = srv_heap s1"
        by (rule Cons.IH)
      show ?thesis
      proof (cases "listen_all net keep ls (opened @ [(n, r)]) s1")
        case (Pair res' s')
        show ?thesis
        proof (cases res')
          case (Inl e)
          then show ?thesis using ih q(5-7) by (simp add: nl keep li Inr Pair)
        next
          case out: (Inr opened')
          with ih Pair obtain new where new: "opened' = (opened @ [(n, r)]) @ new"
            "opens (filter (\<lambda>(n, l). \<not> keep n l) ls) new" "sock_inv (S \<union> set opened') s'" "S \<inter> set opened' = {}"
            "srv_running s' = srv_running s1" "held s' = held s1" "srv_heap s' = srv_heap s1" by auto
          have "opens (filter (\<lambda>(n, l). \<not> keep n l) (nl # ls)) ((n, r) # new)"
            using new(2) q(2,3) keep by (simp add: opens_def nl)
          moreover have "opened' = opened @ ((n, r) # new)" using new(1) by simp
          ultimately show ?thesis using new(3-7) q(5-7) by (auto simp: nl keep li Inr Pair out simp del: filter.simps)
        qed
      qed
    qed
  qed
qed

lemma opens_keys: "opens ls opened \<Longrightarrow> mkeys opened = mkeys ls"
  unfolding opens_def by (induction rule: list_all2_induct) auto

lemma opens_get:
  assumes "opens ls opened"
  shows "case mget opened n of None \<Rightarrow> mget ls n = None
    | Some r \<Rightarrow> live r \<and> (\<exists>l. mget ls n = Some l \<and> lr_spec l = rn_spec r)"
  using assms unfolding opens_def
proof (induction rule: list_all2_induct)
  case (Cons x xs y ys)
  then show ?case by (cases x; cases y) (auto split: option.splits)
qed simp

section \<open>Stopping, restoring and retiring listeners\<close>

lemma stopAccepting_all:
  assumes "sock_inv (graph (srv_running s)) s" and "distinct (mkeys (srv_running s))"
    and "distinct names" and "\<forall>n \<in> set names. mget (srv_running s) n \<noteq> None"
  shows "let s' = fold stopAccepting names s in
    sock_inv (graph (srv_running s')) s' \<and> distinct (mkeys (srv_running s')) \<and> held s' = held s \<and> srv_heap s' = srv_heap s \<and>
    (\<forall>n. mget (srv_running s') n = (if n \<in> set names then map_option (\<lambda>r. r\<lparr>rn_closing := True\<rparr>) (mget (srv_running s) n)
       else mget (srv_running s) n))"
  using assms
proof (induction names arbitrary: s)
  case (Cons n names)
  then obtain r where r: "mget (srv_running s) n = Some r" by auto
  let ?s1 = "stopAccepting n s"
  have run: "srv_running ?s1 = mput n (r\<lparr>rn_closing := True\<rparr>) (srv_running s)" "held ?s1 = held s" "srv_heap ?s1 = srv_heap s"
    by (simp_all add: stopAccepting_def r)
  have "sock_inv (insert (n, r\<lparr>rn_closing := True\<rparr>) (graph (srv_running s) - {(n, r)})) (close_socket (rn_sock r) s)"
    by (rule sock_inv_mark [OF Cons.prems(1)]) (simp_all add: r live_def)
  then have inv: "sock_inv (graph (srv_running ?s1)) ?s1"
    unfolding run graph_mput [OF r] by (simp add: stopAccepting_def r close_socket_def sock_inv_def)
  have "distinct (mkeys (srv_running ?s1))" using Cons.prems(2) by (simp add: run)
  moreover have "distinct names" "\<forall>m \<in> set names. mget (srv_running ?s1) m \<noteq> None"
    using Cons.prems(3,4) by (auto simp: run)
  ultimately have ih: "let s' = fold stopAccepting names ?s1 in
    sock_inv (graph (srv_running s')) s' \<and> distinct (mkeys (srv_running s')) \<and> held s' = held ?s1 \<and> srv_heap s' = srv_heap ?s1 \<and>
    (\<forall>m. mget (srv_running s') m = (if m \<in> set names then map_option (\<lambda>r. r\<lparr>rn_closing := True\<rparr>) (mget (srv_running ?s1) m)
       else mget (srv_running ?s1) m))"
    by (rule Cons.IH [OF inv])
  have "n \<notin> set names" using Cons.prems(3) by simp
  with ih show ?case using r by (simp add: Let_def run)
qed simp

text \<open>Restoring stopped listeners: each is live again with its old specification, or gone with an error.\<close>

lemma rebind_outcome:
  assumes "rebindLocked net names s = (es, s')" and "sock_inv (graph (srv_running s)) s"
    and "distinct (mkeys (srv_running s))" and "distinct names" and "\<forall>n \<in> set names. mget (srv_running s) n \<noteq> None"
  shows "sock_inv (graph (srv_running s')) s' \<and> distinct (mkeys (srv_running s')) \<and> held s' = held s \<and> srv_heap s' = srv_heap s \<and>
    (\<forall>n. n \<notin> set names \<longrightarrow> mget (srv_running s') n = mget (srv_running s) n) \<and>
    (\<forall>n \<in> set names. case mget (srv_running s') n of None \<Rightarrow> es \<noteq> []
       | Some r \<Rightarrow> live r \<and> rn_spec r = rn_spec (the (mget (srv_running s) n)))"
  using assms
proof (induction names arbitrary: s es)
  case (Cons n names)
  then obtain old where old: "mget (srv_running s) n = Some old" by auto
  have nn: "n \<notin> set names" "distinct names" using Cons.prems(4) by auto
  obtain res s1 where li: "listen net n (rn_spec old) s = (res, s1)" by fastforce
  show ?case
  proof (cases res)
    case (Inl e)
    note q = listen_Inl [OF li [unfolded Inl]]
    define s2 where "s2 = (drain old s1)\<lparr>srv_running := mdel n (srv_running s)\<rparr>"
    have run: "srv_running s2 = mdel n (srv_running s)" "held s2 = held s" "srv_heap s2 = srv_heap s"
      using q(2-4) by (simp_all add: s2_def)
    have inv: "sock_inv (graph (srv_running s2)) s2"
      using sock_inv_close [OF q(1) [OF Cons.prems(2)], of n old] old by (simp add: graph_mdel run(1)) (simp add: s2_def)
    obtain es' where rest: "rebindLocked net names s2 = (es', s')" and es: "es = Wrapf ''restore previous listener: %w'' [] e # es'"
      using Cons.prems(1) by (auto simp: old li Inl q(2) s2_def split: prod.splits)
    have d: "distinct (mkeys (srv_running s2))" and "\<forall>m \<in> set names. mget (srv_running s2) m \<noteq> None"
      using Cons.prems(3,5) nn by (auto simp: run(1))
    note ih = Cons.IH [OF rest inv d nn(2) this(2), unfolded run]
    have "case mget (srv_running s') m of None \<Rightarrow> es \<noteq> []
       | Some r \<Rightarrow> live r \<and> rn_spec r = rn_spec (the (mget (srv_running s) m))" if "m \<in> set (n # names)" for m
    proof (cases "m = n")
      case True
      then show ?thesis using ih nn(1) by (simp add: es)
    next
      case False
      then have "m \<in> set names" using that by simp
      with ih have "case mget (srv_running s') m of None \<Rightarrow> es' \<noteq> []
         | Some r \<Rightarrow> live r \<and> rn_spec r = rn_spec (the (mget (mdel n (srv_running s)) m))" by blast
      then show ?thesis using False by (simp add: es split: option.splits)
    qed
    then show ?thesis using ih by simp
  next
    case (Inr r)
    note q = listen_Inr [OF li [unfolded Inr] Cons.prems(2)]
    define s2 where "s2 = (drain old s1)\<lparr>srv_running := mput n r (srv_running s)\<rparr>"
    have run: "srv_running s2 = mput n r (srv_running s)" "held s2 = held s" "srv_heap s2 = srv_heap s"
      using q(5-7) by (simp_all add: s2_def)
    have "(n, r) \<noteq> (n, old)" using q(4) [of n] old by auto
    then have g: "graph (srv_running s2) = insert (n, r) (graph (srv_running s)) - {(n, old)}"
      by (auto simp: run(1) graph_mput [OF old])
    have inv: "sock_inv (graph (srv_running s2)) s2"
      unfolding g using sock_inv_close [OF q(1), of n old] old by (simp add: s2_def)
    have rest: "rebindLocked net names s2 = (es, s')"
      using Cons.prems(1) by (simp add: old li Inr q(5) s2_def)
    have d: "distinct (mkeys (srv_running s2))" and "\<forall>m \<in> set names. mget (srv_running s2) m \<noteq> None"
      using Cons.prems(3,5) nn by (auto simp: run(1))
    note ih = Cons.IH [OF rest inv d nn(2) this(2), unfolded run]
    have "case mget (srv_running s') m of None \<Rightarrow> es \<noteq> []
       | Some r \<Rightarrow> live r \<and> rn_spec r = rn_spec (the (mget (srv_running s) m))" if "m \<in> set (n # names)" for m
    proof (cases "m = n")
      case True
      then have "mget (srv_running s') m = Some r" using ih nn(1) by simp
      then show ?thesis using True q(2,3) old by simp
    next
      case False
      then have "m \<in> set names" using that by simp
      with ih have "case mget (srv_running s') m of None \<Rightarrow> es \<noteq> []
         | Some r' \<Rightarrow> live r' \<and> rn_spec r' = rn_spec (the (mget (mput n r (srv_running s)) m))" by blast
      then show ?thesis using False by (simp split: option.splits)
    qed
    then show ?thesis using ih by simp
  qed
qed simp

text \<open>Retiring listeners, next to a set of listeners about to be adopted.\<close>

lemma retire_all:
  assumes "sock_inv (graph (srv_running s) \<union> E) s" and "graph (srv_running s) \<inter> E = {}"
    and "distinct (mkeys (srv_running s))"
  shows "let s' = fold retire names s in
    sock_inv (graph (srv_running s') \<union> E) s' \<and> graph (srv_running s') \<inter> E = {} \<and> distinct (mkeys (srv_running s')) \<and>
    held s' = held s \<and> srv_heap s' = srv_heap s \<and>
    (\<forall>n. mget (srv_running s') n = (if n \<in> set names then None else mget (srv_running s) n))"
  using assms
proof (induction names arbitrary: s)
  case (Cons n names)
  let ?s1 = "retire n s"
  have one: "sock_inv (graph (srv_running ?s1) \<union> E) ?s1 \<and> graph (srv_running ?s1) \<inter> E = {} \<and>
      distinct (mkeys (srv_running ?s1)) \<and> held ?s1 = held s \<and> srv_heap ?s1 = srv_heap s \<and>
      (\<forall>m. mget (srv_running ?s1) m = (if m = n then None else mget (srv_running s) m))"
  proof (cases "mget (srv_running s) n")
    case (Some r)
    have run: "srv_running ?s1 = mdel n (srv_running s)" by (simp add: retire_def Some)
    have "(n, r) \<notin> E" using Cons.prems(2) Some by (metis IntI empty_iff graph_iff)
    then have "graph (srv_running s) \<union> E - {(n, r)} = graph (mdel n (srv_running s)) \<union> E"
      using Some by (auto simp: graph_mdel)
    then have "sock_inv (graph (mdel n (srv_running s)) \<union> E) (close_socket (rn_sock r) s)"
      using sock_inv_close [OF Cons.prems(1), of n r] Some by simp
    then have "sock_inv (graph (srv_running ?s1) \<union> E) ?s1" unfolding run by (simp add: retire_def Some)
    moreover have "graph (mdel n (srv_running s)) \<inter> E = {}" using Cons.prems(2) by (auto simp: graph_mdel [OF Some])
    ultimately show ?thesis using Cons.prems(3) unfolding run by (simp add: retire_def Some)
  qed (use Cons.prems in \<open>auto simp: retire_def\<close>)
  then have "let s' = fold retire names ?s1 in
    sock_inv (graph (srv_running s') \<union> E) s' \<and> graph (srv_running s') \<inter> E = {} \<and> distinct (mkeys (srv_running s')) \<and>
    held s' = held ?s1 \<and> srv_heap s' = srv_heap ?s1 \<and>
    (\<forall>m. mget (srv_running s') m = (if m \<in> set names then None else mget (srv_running ?s1) m))"
    by (intro Cons.IH) simp_all
  with one show ?case by (simp add: Let_def)
qed simp

lemma adopt_get:
  assumes "distinct (mkeys opened)"
  shows "mget (srv_running (adopt opened s)) n = (case mget opened n of Some r \<Rightarrow> Some r | None \<Rightarrow> mget (srv_running s) n)"
proof -
  have "mget (foldl (\<lambda>m (n, r). mput n r m) m opened) n = (case mget opened n of Some r \<Rightarrow> Some r | None \<Rightarrow> mget m n)" for m
    using assms
  proof (induction opened arbitrary: m)
    case (Cons x opened)
    obtain k r where x: "x = (k, r)" by fastforce
    have "k \<notin> set (mkeys opened)" using Cons.prems x by simp
    then have "mget opened k = None" by (simp add: map_of_eq_None_iff)
    then show ?case using Cons by (auto simp: x split: option.split)
  qed simp
  then show ?thesis by (simp add: adopt_def)
qed

lemma adopt_distinct: "distinct (mkeys (srv_running s)) \<Longrightarrow> distinct (mkeys (srv_running (adopt opened s)))"
proof -
  have "distinct (mkeys m) \<Longrightarrow> distinct (mkeys (foldl (\<lambda>m (n, r). mput n r m) m opened))" for m :: "(string, runningListener) gomap"
    by (induction opened arbitrary: m) auto
  then show "distinct (mkeys (srv_running s)) \<Longrightarrow> distinct (mkeys (srv_running (adopt opened s)))" by (simp add: adopt_def)
qed

section \<open>The server's invariant\<close>

definition server_ok :: "('l, 'w) server \<Rightarrow> bool" where
  "server_ok s \<longleftrightarrow>
     distinct (mkeys (srv_running s)) \<and> distinct (mkeys (sn_listeners (srv_current s))) \<and>
     sock_inv (graph (srv_running s)) s \<and>
     (\<forall>n r. mget (srv_running s) n = Some r \<longrightarrow>
        \<not> rn_closing r \<and> (\<exists>l. mget (bound (srv_current s)) n = Some l \<and> lr_spec l = rn_spec r)) \<and>
     (if srv_started s then srv_issuerOf s = map_option fst (sn_acme (srv_current s)) \<and> srv_refresher s
      else srv_running s = [] \<and> srv_issuerOf s = None \<and> \<not> srv_refresher s)"

lemma server_okD:
  assumes "server_ok s"
  shows "distinct (mkeys (srv_running s))" "distinct (mkeys (sn_listeners (srv_current s)))"
    "sock_inv (graph (srv_running s)) s"
    "mget (srv_running s) n = Some r \<Longrightarrow> \<not> rn_closing r"
    "mget (srv_running s) n = Some r \<Longrightarrow> \<exists>l. mget (bound (srv_current s)) n = Some l \<and> lr_spec l = rn_spec r"
    "srv_started s \<Longrightarrow> srv_issuerOf s = map_option fst (sn_acme (srv_current s)) \<and> srv_refresher s"
    "\<not> srv_started s \<Longrightarrow> srv_running s = [] \<and> srv_issuerOf s = None \<and> \<not> srv_refresher s"
  using assms unfolding server_ok_def by (simp_all split: if_splits)

lemma commit_fields [simp]:
  "srv_running (commitLocked ops prev nxt reload s) = srv_running s"
  "srv_current (commitLocked ops prev nxt reload s) = nxt"
  "srv_started (commitLocked ops prev nxt reload s) = srv_started s"
  "srv_refresher (commitLocked ops prev nxt reload s) = srv_refresher s"
  "srv_issuerOf (commitLocked ops prev nxt reload s) = (if srv_started s then map_option fst (sn_acme nxt) else None)"
  "sock_inv S (commitLocked ops prev nxt reload s) = sock_inv S s"
  by (auto simp: commitLocked_def Let_def syncIssuerLocked_def closeUnusedTransports_def sock_inv_def split: option.split)

lemma bound_distinct: "distinct (mkeys (sn_listeners snap)) \<Longrightarrow> distinct (mkeys (bound snap))"
  by (simp add: bound_def)

section \<open>Applying a configuration\<close>

lemma mget_none: "(\<And>k. mget m k = None) \<Longrightarrow> m = []"
proof (cases m)
  case (Cons p l)
  moreover assume "\<And>k. mget m k = None"
  ultimately show ?thesis by (metis map_of_eq_None_iff list.set_intros(1) image_eqI)
qed simp

lemma mget_filter:
  "distinct (mkeys m) \<Longrightarrow> mget (filter (\<lambda>(k, v). P k v) m) k = (case mget m k of Some v \<Rightarrow> if P k v then Some v else None | None \<Rightarrow> None)"
proof (induction m)
  case (Cons p m)
  obtain a b where p: "p = (a, b)" by fastforce
  have "mget m a = None" using Cons.prems by (simp add: p map_of_eq_None_iff)
  moreover have "mget (filter (\<lambda>(k, v). P k v) m) a = None"
    using Cons.prems by (force simp: p map_of_eq_None_iff)
  ultimately show ?case using Cons by (auto simp: p)
qed simp

lemma stale_iff:
  assumes "distinct (mkeys (srv_running s))"
  shows "n \<in> set (stale_listeners nxt s) \<longleftrightarrow>
    (\<exists>r. mget (srv_running s) n = Some r \<and> \<not> (\<exists>l. mget (bound nxt) n = Some l \<and> lr_spec l = rn_spec r))"
proof -
  have "n \<in> set (stale_listeners nxt s) \<longleftrightarrow> mget (filter (\<lambda>(name, r).
      case mget (bound nxt) name of None \<Rightarrow> True | Some l \<Rightarrow> lr_spec l \<noteq> rn_spec r) (srv_running s)) n \<noteq> None"
    by (simp add: stale_listeners_def map_of_eq_None_iff)
  then show ?thesis unfolding mget_filter [OF assms] by (auto split: option.splits)
qed

lemma stale_running: "n \<in> set (stale_listeners nxt s) \<Longrightarrow> mget (srv_running s) n \<noteq> None"
  by (auto simp: stale_listeners_def map_of_eq_None_iff)

lemma stale_distinct: "distinct (mkeys (srv_running s)) \<Longrightarrow> distinct (stale_listeners nxt s)"
  unfolding stale_listeners_def by (induction "srv_running s") (simp_all add: distinct_map_filter)

text \<open>The state after stopping the listeners that change.\<close>

lemma stopped:
  assumes "server_ok s" and "s1 = fold stopAccepting (stale_listeners nxt s) s"
  shows "sock_inv (graph (srv_running s1)) s1" "distinct (mkeys (srv_running s1))" "held s1 = held s" "srv_heap s1 = srv_heap s"
    and "mget (srv_running s1) n = (if n \<in> set (stale_listeners nxt s)
       then map_option (\<lambda>r. r\<lparr>rn_closing := True\<rparr>) (mget (srv_running s) n) else mget (srv_running s) n)"
  using stopAccepting_all [OF server_okD(3,1) [OF assms(1)] stale_distinct [OF server_okD(1) [OF assms(1)], of nxt]]
    stale_running unfolding assms(2) Let_def by blast+

text \<open>A successful \<open>Apply\<close> on a running server.\<close>

lemma apply_running:
  assumes ok: "server_ok s" and started: "srv_started s"
    and nxt: "compile config opts (Some (srv_current s)) (srv_heap s) = Inr (nxt, h)"
    and app: "applyLocked ops net opts config s = (Inr (), s')"
  shows "srv_current s' = nxt" "srv_started s'" "srv_refresher s'" "srv_issuerOf s' = map_option fst (sn_acme nxt)"
    "distinct (mkeys (srv_running s'))" "sock_inv (graph (srv_running s')) s'"
    and "case mget (bound nxt) n of None \<Rightarrow> mget (srv_running s') n = None
      | Some l \<Rightarrow> \<exists>r. mget (srv_running s') n = Some r \<and> rn_spec r = lr_spec l \<and>
          (case mget (srv_running s) n of
             Some r0 \<Rightarrow> if rn_spec r0 = lr_spec l then r = r0 else live r
           | None \<Rightarrow> live r)"
proof -
  let ?stale = "stale_listeners nxt s"
  define s1 where "s1 = fold stopAccepting ?stale s"
  note st = stopped [OF ok s1_def]
  have d: "distinct (mkeys (bound nxt))"
    using compile_listener_keys [OF nxt] by (rule bound_distinct)
  obtain opened s2 where la: "listen_all net (unchanged_listener s) (bound nxt) [] s1 = (Inr opened, s2)"
    and s': "s' = adopt opened (fold retire ?stale (commitLocked ops (Some (srv_current s)) nxt True (s2\<lparr>srv_heap := h\<rparr>)))"
    using app by (auto simp: applyLocked_def Let_def nxt started s1_def split: prod.splits sum.splits)
  from listen_all_outcome [where S = "graph (srv_running s1)" and opened = "[]" and s = s1 and net = net
      and keep = "unchanged_listener s" and ls = "bound nxt"] st(1) la
  have op: "opens (filter (\<lambda>(n, l). \<not> unchanged_listener s n l) (bound nxt)) opened"
    and inv2: "sock_inv (graph (srv_running s1) \<union> set opened) s2" "graph (srv_running s1) \<inter> set opened = {}"
    and f2: "srv_running s2 = srv_running s1" "held s2 = held s1" by auto
  define s3 where "s3 = commitLocked ops (Some (srv_current s)) nxt True (s2\<lparr>srv_heap := h\<rparr>)"
  have f3: "srv_running s3 = srv_running s1" "srv_current s3 = nxt" "srv_started s3" "srv_refresher s3"
    "srv_issuerOf s3 = map_option fst (sn_acme nxt)"
    using f2 st(3) started server_okD(6) [OF ok started] by (simp_all add: s3_def held_def)
  have inv3: "sock_inv (graph (srv_running s3) \<union> set opened) s3"
    using inv2(1) by (simp add: s3_def f2)
  define s4 where "s4 = fold retire ?stale s3"
  have r: "sock_inv (graph (srv_running s4) \<union> set opened) s4" "distinct (mkeys (srv_running s4))" "held s4 = held s3"
    "\<And>n. mget (srv_running s4) n = (if n \<in> set ?stale then None else mget (srv_running s1) n)"
    using retire_all [OF inv3, of ?stale] inv2(2) st(2) by (simp_all add: f3(1) s4_def Let_def)
  have s': "s' = adopt opened s4" using s' by (simp add: s3_def s4_def)
  have keys: "distinct (mkeys opened)"
    unfolding opens_keys [OF op] using d by (simp add: distinct_map_filter)
  note ag = adopt_get [OF keys, of s4, folded s']
  have og: "case mget opened n of None \<Rightarrow> mget (filter (\<lambda>(n, l). \<not> unchanged_listener s n l) (bound nxt)) n = None
    | Some r \<Rightarrow> live r \<and> (\<exists>l. mget (filter (\<lambda>(n, l). \<not> unchanged_listener s n l) (bound nxt)) n = Some l \<and> lr_spec l = rn_spec r)" for n
    by (rule opens_get [OF op])
  note stale = stale_iff [OF server_okD(1) [OF ok], of _ nxt]
  have fresh: "mget (srv_running s4) n = None" if "mget opened n = Some r" for n r
    using og [of n] that r(4) [of n] st(5) [of n] stale [of n]
    by (auto simp: mget_filter [OF d] unchanged_listener_def split: option.splits if_splits)
  have "graph (srv_running s') = graph (srv_running s4) \<union> set opened"
    using fresh by (auto simp: ag map_of_eq_Some_iff [OF keys, symmetric] split: option.splits)
  then show "sock_inv (graph (srv_running s')) s'" using r(1) by (simp add: s' adopt_def)
  show "distinct (mkeys (srv_running s'))" unfolding s' by (rule adopt_distinct [OF r(2)])
  show "srv_current s' = nxt" "srv_started s'" "srv_refresher s'" "srv_issuerOf s' = map_option fst (sn_acme nxt)"
    using f3 r(3) by (simp_all add: s' adopt_def held_def)
  show "case mget (bound nxt) n of None \<Rightarrow> mget (srv_running s') n = None
      | Some l \<Rightarrow> \<exists>r. mget (srv_running s') n = Some r \<and> rn_spec r = lr_spec l \<and>
          (case mget (srv_running s) n of
             Some r0 \<Rightarrow> if rn_spec r0 = lr_spec l then r = r0 else live r
           | None \<Rightarrow> live r)"
    using ag [of n] og [of n] r(4) [of n] st(5) [of n] stale [of n]
    by (auto simp: mget_filter [OF d] unchanged_listener_def split: option.splits if_splits)
qed

text \<open>A failed \<open>Apply\<close>.\<close>

lemma apply_failed:
  assumes ok: "server_ok s" and app: "applyLocked ops net opts config s = (Inl e, s')"
  shows "held s' = held s" "srv_heap s' = srv_heap s" "distinct (mkeys (srv_running s'))" "sock_inv (graph (srv_running s')) s'"
    and "case mget (srv_running s) n of None \<Rightarrow> mget (srv_running s') n = None
      | Some r \<Rightarrow> (case mget (srv_running s') n of
          Some r' \<Rightarrow> r' = r \<or> live r' \<and> rn_spec r' = rn_spec r
        | None \<Rightarrow> \<exists>e1 e2 es. e = JoinErr (e1 # e2 # es))"
proof -
  have "held s' = held s \<and> srv_heap s' = srv_heap s \<and> distinct (mkeys (srv_running s')) \<and> sock_inv (graph (srv_running s')) s' \<and>
    (\<forall>n. case mget (srv_running s) n of None \<Rightarrow> mget (srv_running s') n = None
      | Some r \<Rightarrow> (case mget (srv_running s') n of
          Some r' \<Rightarrow> r' = r \<or> live r' \<and> rn_spec r' = rn_spec r
        | None \<Rightarrow> \<exists>e1 e2 es. e = JoinErr (e1 # e2 # es)))"
  proof (cases "compile config opts (Some (srv_current s)) (srv_heap s)")
    case (Inl e')
    then have "s' = s" using app by (simp add: applyLocked_def)
    then show ?thesis using server_okD(1,3) [OF ok] by (simp split: option.split)
  next
    case (Inr c)
    obtain nxt h where c: "c = (nxt, h)" by fastforce
    let ?stale = "stale_listeners nxt s"
    define s1 where "s1 = fold stopAccepting ?stale s"
    note st = stopped [OF ok s1_def]
    have started: "srv_started s"
    proof (rule ccontr)
      assume "\<not> srv_started s"
      then show False using app by (simp add: applyLocked_def Let_def Inr c)
    qed
    obtain e1 s2 es where la: "listen_all net (unchanged_listener s) (bound nxt) [] s1 = (Inl e1, s2)"
      and rb: "rebindLocked net ?stale s2 = (es, s')" and e: "e = JoinErr (e1 # es)"
      using app by (auto simp: applyLocked_def Let_def Inr c started s1_def split: prod.splits sum.splits)
    from listen_all_outcome [where S = "graph (srv_running s1)" and opened = "[]" and s = s1 and net = net
        and keep = "unchanged_listener s" and ls = "bound nxt"] st(1) la
    have f2: "sock_inv (graph (srv_running s2)) s2" "srv_running s2 = srv_running s1" "held s2 = held s1" "srv_heap s2 = srv_heap s1"
      by auto
    have known: "\<forall>n \<in> set ?stale. mget (srv_running s2) n \<noteq> None" using st(5) by (auto simp: f2(2) dest: stale_running)
    have d2: "distinct (mkeys (srv_running s2))" using st(2) by (simp add: f2(2))
    note rbo = rebind_outcome [OF rb f2(1) d2 stale_distinct [OF server_okD(1) [OF ok]] known]
    have "case mget (srv_running s) n of None \<Rightarrow> mget (srv_running s') n = None
      | Some r \<Rightarrow> (case mget (srv_running s') n of
          Some r' \<Rightarrow> r' = r \<or> live r' \<and> rn_spec r' = rn_spec r
        | None \<Rightarrow> \<exists>e1 e2 es. e = JoinErr (e1 # e2 # es))" for n
    proof (cases "n \<in> set ?stale")
      case True
      then obtain r where r: "mget (srv_running s) n = Some r" using stale_running by blast
      then have "mget (srv_running s2) n = Some (r\<lparr>rn_closing := True\<rparr>)" using st(5) True by (simp add: f2(2))
      moreover from rbo True have "case mget (srv_running s') n of None \<Rightarrow> es \<noteq> []
          | Some r' \<Rightarrow> live r' \<and> rn_spec r' = rn_spec (the (mget (srv_running s2) n))" by blast
      ultimately have "case mget (srv_running s') n of None \<Rightarrow> es \<noteq> [] | Some r' \<Rightarrow> live r' \<and> rn_spec r' = rn_spec r"
        by (simp split: option.splits)
      then show ?thesis using r by (auto simp: e neq_Nil_conv split: option.splits)
    next
      case False
      then have "mget (srv_running s') n = mget (srv_running s) n" using rbo st(5) by (simp add: f2(2))
      then show ?thesis by (simp split: option.split)
    qed
    then show ?thesis using rbo f2(3,4) st(3,4) by simp
  qed
  then show "held s' = held s" "srv_heap s' = srv_heap s" "distinct (mkeys (srv_running s'))" "sock_inv (graph (srv_running s')) s'"
    "case mget (srv_running s) n of None \<Rightarrow> mget (srv_running s') n = None
      | Some r \<Rightarrow> (case mget (srv_running s') n of
          Some r' \<Rightarrow> r' = r \<or> live r' \<and> rn_spec r' = rn_spec r
        | None \<Rightarrow> \<exists>e1 e2 es. e = JoinErr (e1 # e2 # es))"
    by blast+
qed

section \<open>Every operation keeps the invariant\<close>

lemma apply_keeps:
  assumes ok: "server_ok s" and app: "applyLocked ops net opts config s = (res, s')"
  shows "server_ok s'"
proof (cases res)
  case (Inl e)
  note f = apply_failed [OF ok app [unfolded Inl]]
  have h: "srv_current s' = srv_current s" "srv_started s' = srv_started s" "srv_issuerOf s' = srv_issuerOf s" "srv_refresher s' = srv_refresher s"
    using f(1) by (simp_all add: held_def)
  have run: "\<not> rn_closing r \<and> (\<exists>l. mget (bound (srv_current s)) n = Some l \<and> lr_spec l = rn_spec r)"
    if "mget (srv_running s') n = Some r" for n r
    using f(5) [of n] that server_okD(4,5) [OF ok, of n] by (fastforce simp: live_def split: option.splits)
  have "srv_running s' = []" if "srv_running s = []"
  proof -
    have "mget (srv_running s') n = None" for n using f(5) [of n] that by simp
    then show ?thesis by (rule mget_none)
  qed
  then show ?thesis
    using f(3,4) run server_okD(2,6,7) [OF ok] unfolding server_ok_def h by simp
next
  case (Inr u)
  obtain nxt h where nxt: "compile config opts (Some (srv_current s)) (srv_heap s) = Inr (nxt, h)"
    using app Inr by (cases "compile config opts (Some (srv_current s)) (srv_heap s)") (auto simp: applyLocked_def)
  note keys = compile_listener_keys [OF nxt]
  show ?thesis
  proof (cases "srv_started s")
    case False
    then have s': "s' = commitLocked ops (Some (srv_current s)) nxt True (s\<lparr>srv_heap := h\<rparr>)"
      using app Inr nxt by (simp add: applyLocked_def)
    show ?thesis using server_okD(3,7) [OF ok] False keys unfolding server_ok_def s' by simp
  next
    case True
    have app': "applyLocked ops net opts config s = (Inr (), s')" using app Inr by simp
    note a = apply_running [OF ok True nxt app']
    have "\<not> rn_closing r \<and> (\<exists>l. mget (bound nxt) n = Some l \<and> lr_spec l = rn_spec r)"
      if "mget (srv_running s') n = Some r" for n r
      using a(7) [of n] that server_okD(4) [OF ok, of n] by (fastforce simp: live_def split: option.splits if_splits)
    then show ?thesis using a(1-6) keys unfolding server_ok_def by simp
  qed
qed

lemma New_ok: "New ops opts config h = Inr s \<Longrightarrow> server_ok s"
proof -
  assume "New ops opts config h = Inr s"
  then obtain snap h' where c: "compile config opts None h = Inr (snap, h')"
    and s: "s = commitLocked ops None snap True
         \<lparr>srv_current = snap, srv_heap = h', srv_running = [], srv_started = False, srv_issuerOf = None,
          srv_refresher = False, srv_listening = [], srv_nextSock = 0, srv_draining = [], srv_idleClosed = []\<rparr>"
    by (auto simp: New_def rbind_Inr_iff)
  have "sock_inv {} s" unfolding s by (simp add: sock_inv_def del: commit_fields) (simp add: sock_inv_def commitLocked_def syncIssuerLocked_def Let_def)
  then show ?thesis using compile_listener_keys [OF c] unfolding server_ok_def s by simp
qed

lemma set_graph: "distinct (mkeys m) \<Longrightarrow> set m = graph m"
  by (auto simp: map_of_eq_Some_iff)

lemma sync_fields [simp]:
  "srv_running (syncIssuerLocked s) = srv_running s" "srv_current (syncIssuerLocked s) = srv_current s"
  "srv_started (syncIssuerLocked s) = srv_started s" "srv_refresher (syncIssuerLocked s) = srv_refresher s"
  "srv_listening (syncIssuerLocked s) = srv_listening s" "srv_nextSock (syncIssuerLocked s) = srv_nextSock s"
  "srv_draining (syncIssuerLocked s) = srv_draining s"
  "srv_issuerOf (syncIssuerLocked s) = (if srv_started s then map_option fst (sn_acme (srv_current s)) else None)"
  by (simp_all add: syncIssuerLocked_def Let_def)

lemma Start_outcome:
  assumes ok: "server_ok s" and "\<not> srv_started s" and st: "Start net s = (res, s')"
  shows "(\<exists>e. res = Inl e \<and> held s' = held s \<and> srv_running s' = [] \<and> sock_inv {} s') \<or>
    (res = Inr () \<and> srv_started s' \<and> srv_refresher s' \<and> srv_current s' = srv_current s \<and>
      srv_issuerOf s' = map_option fst (sn_acme (srv_current s)) \<and> opens (bound (srv_current s)) (srv_running s') \<and>
      sock_inv (graph (srv_running s')) s')"
proof -
  have idle: "srv_running s = []" "sock_inv {} s" using server_okD(3,7) [OF ok] assms(2) by auto
  obtain r s1 where la: "listen_all net (\<lambda>_ _. False) (bound (srv_current s)) [] s = (r, s1)" by fastforce
  note out = listen_all_outcome [where S = "{}" and opened = "[]" and s = s and net = net
      and keep = "\<lambda>_ _. False" and ls = "bound (srv_current s)"]
  show ?thesis
  proof (cases r)
    case (Inl e)
    then have "res = Inl e" "s' = s1" using st la assms(2) by (simp_all add: Start_def)
    then show ?thesis using out idle by (simp add: la Inl)
  next
    case (Inr opened)
    then have s': "res = Inr ()" "s' = (syncIssuerLocked (s1\<lparr>srv_running := opened, srv_started := True\<rparr>))\<lparr>srv_refresher := True\<rparr>"
      using st la assms(2) by (simp_all add: Start_def)
    have o: "opens (bound (srv_current s)) opened" "sock_inv (set opened) s1" "held s1 = held s"
      using out idle by (simp_all add: la Inr)
    have "distinct (mkeys opened)" using opens_keys [OF o(1)] bound_distinct [OF server_okD(2) [OF ok]] by simp
    then have "sock_inv (graph opened) s1" using o(2) by (simp add: set_graph)
    then have "sock_inv (graph (srv_running s')) s'" by (simp add: s' sock_inv_def)
    then show ?thesis using o(1,3) by (simp add: s' held_def)
  qed
qed

lemma Start_keeps: "server_ok s \<Longrightarrow> Start net s = (res, s') \<Longrightarrow> server_ok s'"
proof (cases "srv_started s")
  case False
  assume ok: "server_ok s" and st: "Start net s = (res, s')"
  note keys = server_okD(2) [OF ok]
  from Start_outcome [OF ok False st] show "server_ok s'"
  proof (elim disjE exE conjE)
    fix e assume "held s' = held s" "srv_running s' = []" "sock_inv {} s'"
    then show ?thesis using server_okD(7) [OF ok False] False keys by (simp add: server_ok_def held_def)
  next
    assume a: "srv_started s'" "srv_refresher s'" "srv_current s' = srv_current s"
      "srv_issuerOf s' = map_option fst (sn_acme (srv_current s))" "opens (bound (srv_current s)) (srv_running s')"
      "sock_inv (graph (srv_running s')) s'"
    have "distinct (mkeys (srv_running s'))" using opens_keys [OF a(5)] bound_distinct [OF keys] by simp
    moreover have "\<not> rn_closing r \<and> (\<exists>l. mget (bound (srv_current s)) n = Some l \<and> lr_spec l = rn_spec r)"
      if "mget (srv_running s') n = Some r" for n r
      using opens_get [OF a(5), of n] that by (simp add: live_def)
    ultimately show ?thesis using a keys by (simp add: server_ok_def)
  qed
qed (simp add: Start_def)

lemma Shutdown_outcome:
  assumes ok: "server_ok s" and sh: "Shutdown shut drained s = (res, s')"
  shows "srv_running s' = []" "\<not> srv_started s'" "\<not> srv_refresher s'" "srv_issuerOf s' = None"
    "srv_current s' = srv_current s" "srv_listening s' = []" "sock_inv {} s'"
    "srv_draining s' = (if drained = None then [] else srv_draining s)"
proof -
  define s1 where "s1 = (syncIssuerLocked (s\<lparr>srv_running := [], srv_started := False\<rparr>))\<lparr>srv_refresher := False\<rparr>"
  have "sock_inv (graph (srv_running s)) s1"
    using server_okD(3) [OF ok] by (simp add: s1_def sock_inv_def)
  moreover have d: "distinct (srv_running s)" using server_okD(1) [OF ok] by (simp add: distinct_map)
  ultimately have c: "sock_inv {} (close_all (srv_running s) s1)" "srv_running (close_all (srv_running s) s1) = []"
    "held (close_all (srv_running s) s1) = held s1"
    using close_all_inv [of "{}" "srv_running s" s1] by (simp_all add: set_graph [OF server_okD(1) [OF ok]] s1_def)
  have dr: "srv_draining (close_all rs t) = srv_draining t" for rs and t :: "('a, 'b) server"
    by (induction rs arbitrary: t) (auto simp: close_all_def close_socket_def)
  define s2 where "s2 = close_all (srv_running s) s1"
  have s': "s' = s2\<lparr>srv_draining := (if drained = None then [] else srv_draining s2),
      srv_idleClosed := srv_idleClosed s2 @ map snd (sn_transports (srv_current s2))\<rparr>"
    using arg_cong [OF sh, of snd, unfolded Shutdown_def Let_def snd_conv] unfolding s2_def s1_def by (rule sym)
  show "srv_running s' = []" "\<not> srv_started s'" "\<not> srv_refresher s'" "srv_issuerOf s' = None" "srv_current s' = srv_current s"
    using c(2,3) by (simp_all add: s' s2_def s1_def held_def)
  show "sock_inv {} s'" using c(1) by (simp add: s' s2_def sock_inv_def)
  then show "srv_listening s' = []" by (simp add: sock_inv_def)
  show "srv_draining s' = (if drained = None then [] else srv_draining s)" by (simp add: s' s2_def dr s1_def)
qed

lemma Shutdown_keeps: "server_ok s \<Longrightarrow> Shutdown shut drained s = (res, s') \<Longrightarrow> server_ok s'"
  using Shutdown_outcome [of s shut drained res s'] server_okD(2) [of s] by (simp add: server_ok_def)

lemma bound_certs [simp]: "bound (snap\<lparr>sn_certs := c, sn_managedHosts := m\<rparr>) = bound snap"
  by (simp add: bound_def)

lemma refresh_keeps: "server_ok s \<Longrightarrow> server_ok (refresh_tick ops tls s)"
proof -
  assume ok: "server_ok s"
  have "server_ok (snd (refreshCertificatesLocked ops tls s))" if "srv_refresher s"
  proof (cases "loadCertificates tls (certificates (c_tls (sn_config (srv_current s))))")
    case (Inr certs)
    let ?new = "srv_current s\<lparr>sn_certs := certs, sn_managedHosts :=
      managedHosts (sn_tlsHosts (srv_current s)) certs (sn_acme (srv_current s) \<noteq> None)\<rparr>"
    have s': "snd (refreshCertificatesLocked ops tls s) = commitLocked ops None ?new False s"
      by (simp add: refreshCertificatesLocked_def Let_def Inr)
    have "srv_started s" using server_okD(7) [OF ok] that by blast
    then show ?thesis using ok unfolding s' server_ok_def by simp
  qed (use ok in \<open>simp add: refreshCertificatesLocked_def\<close>)
  then show "server_ok (refresh_tick ops tls s)" using ok by (simp add: refresh_tick_def)
qed

lemma serve_fails_keeps: "server_ok s \<Longrightarrow> server_ok (serve_fails name e s)"
proof (cases "mget (srv_running s) name")
  case (Some r)
  assume ok: "server_ok s"
  let ?r = "r\<lparr>rn_failure := Some (ListenerError name e)\<rparr>"
  have nc: "\<not> rn_closing r" using server_okD(4) [OF ok Some] .
  have "sock_inv (insert (name, ?r) (graph (srv_running s) - {(name, r)})) (close_socket (rn_sock r) s)"
    by (rule sock_inv_mark [OF server_okD(3) [OF ok]]) (simp_all add: Some live_def)
  then have inv: "sock_inv (graph (mput name ?r (srv_running s))) (close_socket (rn_sock r) s)"
    by (simp add: graph_mput [OF Some])
  have s': "serve_fails name e s = (close_socket (rn_sock r) s)\<lparr>srv_running := mput name ?r (srv_running s)\<rparr>"
    by (simp add: serve_fails_def Some nc close_socket_def)
  have "srv_started s" using server_okD(7) [OF ok] Some by (cases "srv_started s") auto
  then show "server_ok (serve_fails name e s)"
    using ok inv Some unfolding s' by (auto simp: server_ok_def close_socket_def)
qed (simp add: serve_fails_def)

end
