(* ===== verification/Reachable.thy ===== *)
theory Reachable
  imports Lifecycle
begin

text \<open>
  The server as a transition system: every state a program can bring a server
  into after \<open>New\<close>, by calling its operations in any order with any
  configuration, network and clock, while requests, the ACME manager and
  background drains change what they may change in between. The properties of
  \<open>server.go\<close> are stated over these states.
\<close>

section \<open>Steps\<close>

inductive server_step :: "'w acme_ops \<Rightarrow> ('l, 'w) server \<Rightarrow> ('l, 'w) server \<Rightarrow> bool" for ops where
  applying: "Apply ops net opts config s = (res, s') \<Longrightarrow> server_step ops s s'"
| updating: "Update ops net opts modify s = (res, s') \<Longrightarrow> server_step ops s s'"
| starting: "Start net s = (res, s') \<Longrightarrow> server_step ops s s'"
| stopping: "Shutdown shut drained s = (res, s') \<Longrightarrow> server_step ops s s'"
| refreshing: "server_step ops s (refresh_tick ops tls s)"
| failing: "server_step ops s (serve_fails name e s)"
| working: "server_step ops s (s\<lparr>srv_heap := h\<rparr>)"
| draining: "server_step ops s (s\<lparr>srv_draining := d\<rparr>)"

inductive_cases server_stepE: "server_step ops s s'"

definition reachable :: "'w acme_ops \<Rightarrow> ('l, 'w) server \<Rightarrow> bool" where
  "reachable ops s \<longleftrightarrow> (\<exists>opts config h s0. New ops opts config h = Inr s0 \<and> (server_step ops)\<^sup>*\<^sup>* s0 s)"

lemma step_keeps: "server_step ops s s' \<Longrightarrow> server_ok s \<Longrightarrow> server_ok s'"
proof (induction rule: server_step.induct)
  case (applying net opts config s res s')
  then show ?case using apply_keeps by (auto simp: Apply_def)
next
  case (updating net opts modify s res s')
  then show ?case using apply_keeps by (fastforce simp: Update_def split: sum.splits)
next
  case (working s h)
  then show ?case by (simp add: server_ok_def)
next
  case (draining s d)
  then show ?case by (simp add: server_ok_def sock_inv_def)
qed (auto intro: Start_keeps Shutdown_keeps refresh_keeps serve_fails_keeps)

lemma reachable_ok: "reachable ops s \<Longrightarrow> server_ok s"
proof -
  assume "reachable ops s"
  then obtain opts config h s0 where "New ops opts config h = Inr s0" and r: "(server_step ops)\<^sup>*\<^sup>* s0 s"
    by (auto simp: reachable_def)
  then have "server_ok s0" using New_ok by blast
  with r show "server_ok s" by (induction rule: rtranclp_induct) (auto intro: step_keeps)
qed

lemma reachable_step: "reachable ops s \<Longrightarrow> server_step ops s s' \<Longrightarrow> reachable ops s'"
  unfolding reachable_def by (meson rtranclp.rtrancl_into_rtrancl)

lemma reachable_New: "New ops opts config h = Inr s \<Longrightarrow> reachable ops s"
  unfolding reachable_def by blast

text \<open>Sockets of the running listeners, read off the invariant.\<close>

lemma running_sockets:
  assumes "server_ok s"
  shows "mget (srv_running s) n = Some r \<Longrightarrow> rn_sock r \<in> set (srv_listening s) \<longleftrightarrow> rn_failure r = None"
    and "k \<in> set (srv_listening s) \<Longrightarrow> \<exists>n r. mget (srv_running s) n = Some r \<and> rn_sock r = k \<and> rn_failure r = None"
    and "mget (srv_running s) n = Some r \<Longrightarrow> mget (srv_running s) m = Some r' \<Longrightarrow> rn_sock r = rn_sock r' \<Longrightarrow> n = m"
proof -
  have inv: "inj_on sock (graph (srv_running s))"
    "set (srv_listening s) = sock ` {p \<in> graph (srv_running s). live (snd p)}"
    using server_okD(3) [OF assms] by (simp_all add: sock_inv_def)
  show same: "mget (srv_running s) n = Some r \<Longrightarrow> mget (srv_running s) m = Some r' \<Longrightarrow> rn_sock r = rn_sock r' \<Longrightarrow> n = m" for n r m r'
    using inv(1) unfolding inj_on_def by (metis graph_iff sock_pair prod.inject)
  show "k \<in> set (srv_listening s) \<Longrightarrow> \<exists>n r. mget (srv_running s) n = Some r \<and> rn_sock r = k \<and> rn_failure r = None"
    unfolding inv(2) by (auto simp: live_def) blast
  assume r: "mget (srv_running s) n = Some r"
  show "rn_sock r \<in> set (srv_listening s) \<longleftrightarrow> rn_failure r = None"
  proof
    assume "rn_sock r \<in> set (srv_listening s)"
    then obtain m r' where "mget (srv_running s) m = Some r'" "rn_sock r' = rn_sock r" "live r'" unfolding inv(2) by auto
    then show "rn_failure r = None" using same [OF r] r by (fastforce simp: live_def)
  next
    assume "rn_failure r = None"
    then have "(n, r) \<in> {p \<in> graph (srv_running s). live (snd p)}"
      using r server_okD(4) [OF assms r] by (simp add: live_def)
    then show "rn_sock r \<in> set (srv_listening s)" unfolding inv(2) by (metis image_eqI sock_pair)
  qed
qed

text \<open>A server on the sample configuration, and a network where every address can be bound.\<close>

definition sample_net :: net where
  "sample_net = (\<lambda>k a. Inr a)"

lemma listen_all_binds: "\<exists>opened s'. listen_all sample_net keep ls acc s = (Inr opened, s')"
proof (induction ls arbitrary: acc s)
  case (Cons nl ls)
  then show ?case by (cases nl) (auto simp: listen_def sample_net_def Let_def)
qed simp

lemma sample_New: "\<exists>s. New sample_ops sample_options sample_config sample_heap = Inr s"
  using sample_compiles by (auto simp: New_def isOk_iff)

lemma sample_Start: "\<not> srv_started s \<Longrightarrow> \<exists>s'. Start sample_net s = (Inr (), s') \<and> srv_started s'"
  using listen_all_binds [of "\<lambda>_ _. False" "bound (srv_current s)" "[]" s] by (auto simp: Start_def)

lemma New_stopped: "New ops opts config h = Inr s \<Longrightarrow> \<not> srv_started s"
  by (auto simp: New_def rbind_Inr_iff)

lemma sample_Apply: "\<exists>s'. Apply sample_ops sample_net sample_options sample_config s = (Inr (), s')"
proof -
  obtain nxt h where "compile sample_config sample_options (Some (srv_current s)) (srv_heap s) = Inr (nxt, h)"
    using sample_recompiles by (force simp: isOk_iff)
  then show ?thesis
    using listen_all_binds [of "unchanged_listener s" "bound nxt" "[]" "fold stopAccepting (stale_listeners nxt s) s"]
    by (auto simp: Apply_def applyLocked_def Let_def)
qed

section \<open>What holds in every state\<close>



section \<open>Changing the configuration\<close>

lemma Apply_success:
  assumes ok: "server_ok s" and app: "Apply ops net opts config s = (Inr (), s')"
  shows "sn_config (srv_current s') = config" "srv_started s' = srv_started s"
    and "srv_started s \<Longrightarrow> case mget (bound (srv_current s')) n of None \<Rightarrow> mget (srv_running s') n = None
      | Some l \<Rightarrow> \<exists>r. mget (srv_running s') n = Some r \<and> rn_spec r = lr_spec l \<and>
          (case mget (srv_running s) n of
             Some r0 \<Rightarrow> if rn_spec r0 = lr_spec l then r = r0 else live r
           | None \<Rightarrow> live r)"
proof -
  note app = app [unfolded Apply_def]
  obtain nxt h where nxt: "compile config opts (Some (srv_current s)) (srv_heap s) = Inr (nxt, h)"
    using app by (cases "compile config opts (Some (srv_current s)) (srv_heap s)") (auto simp: applyLocked_def)
  have cfg: "sn_config nxt = config" by (rule compile_Inr [OF nxt])
  have st: "srv_current s' = nxt \<and> srv_started s'" if "srv_started s"
    using apply_running(1,2) [OF ok that nxt app] by simp
  have idle: "srv_current s' = nxt \<and> \<not> srv_started s'" if "\<not> srv_started s"
    using app that by (auto simp: applyLocked_def Let_def nxt)
  show "sn_config (srv_current s') = config" "srv_started s' = srv_started s"
    using st idle cfg by auto
  assume started: "srv_started s"
  show "case mget (bound (srv_current s')) n of None \<Rightarrow> mget (srv_running s') n = None
      | Some l \<Rightarrow> \<exists>r. mget (srv_running s') n = Some r \<and> rn_spec r = lr_spec l \<and>
          (case mget (srv_running s) n of
             Some r0 \<Rightarrow> if rn_spec r0 = lr_spec l then r = r0 else live r
           | None \<Rightarrow> live r)"
    using apply_running(7) [OF ok started nxt app, of n] st [OF started] by simp
qed

text \<open>C6: a successful \<open>Apply\<close> switches to the new configuration, and on a started server binds
  exactly its listeners: a listener whose address, TLS mode and limits are unchanged is
  left alone (the same socket, so its connections stay), every other listener of the new
  configuration accepts on a socket with its new settings, and no other listener remains.\<close>

theorem apply_switches:
  assumes "reachable ops s" and "Apply ops net opts config s = (Inr (), s')"
  shows "sn_config (srv_current s') = config \<and> srv_started s' = srv_started s \<and>
    (srv_started s \<longrightarrow> (\<forall>n. case mget (bound (srv_current s')) n of
        None \<Rightarrow> mget (srv_running s') n = None
      | Some l \<Rightarrow> (\<exists>r. mget (srv_running s') n = Some r \<and> rn_spec r = lr_spec l \<and>
          (case mget (srv_running s) n of
             Some r0 \<Rightarrow> if rn_spec r0 = lr_spec l then r = r0 else rn_sock r \<in> set (srv_listening s')
           | None \<Rightarrow> rn_sock r \<in> set (srv_listening s')))))"
proof -
  note ok = reachable_ok [OF assms(1)]
  have "server_ok s'" using apply_keeps [OF ok] assms(2) by (simp add: Apply_def)
  then have l: "rn_sock r \<in> set (srv_listening s')" if "mget (srv_running s') n = Some r" "live r" for n r
    using running_sockets(1) that by (auto simp: live_def)
  have "case mget (bound (srv_current s')) n of
        None \<Rightarrow> mget (srv_running s') n = None
      | Some l \<Rightarrow> (\<exists>r. mget (srv_running s') n = Some r \<and> rn_spec r = lr_spec l \<and>
          (case mget (srv_running s) n of
             Some r0 \<Rightarrow> if rn_spec r0 = lr_spec l then r = r0 else rn_sock r \<in> set (srv_listening s')
           | None \<Rightarrow> rn_sock r \<in> set (srv_listening s')))" if "srv_started s" for n
    using Apply_success(3) [OF ok assms(2) that, of n] l [of n] by (auto split: option.splits if_splits)
  then show ?thesis using Apply_success(1,2) [OF ok assms(2)] by simp
qed

theorem apply_switches_witness:
  "case New sample_ops sample_options sample_config sample_heap of
     Inl _ \<Rightarrow> False
   | Inr s \<Rightarrow> (\<exists>s1 s2. Start sample_net s = (Inr (), s1) \<and> srv_started s1 \<and>
       Apply sample_ops sample_net sample_options sample_config s1 = (Inr (), s2) \<and> srv_started s2 \<and>
       sn_config (srv_current s2) = sample_config)"
proof -
  obtain s where s: "New sample_ops sample_options sample_config sample_heap = Inr s" using sample_New by blast
  then obtain s1 where s1: "Start sample_net s = (Inr (), s1)" "srv_started s1"
    using sample_Start New_stopped by blast
  obtain s2 where s2: "Apply sample_ops sample_net sample_options sample_config s1 = (Inr (), s2)" using sample_Apply by blast
  have "reachable sample_ops s1"
    by (rule reachable_step [OF reachable_New [OF s] starting [OF s1(1)]])
  from apply_switches [OF this s2] show ?thesis using s1 s2 by (simp add: s)
qed

text \<open>C7: a failed \<open>Apply\<close> keeps the previous configuration and all shared state (limiters,
  slots, pools, ACME managers): every listener that ran keeps running or is bound again with its
  previous settings, and none is added; one can only be missing when restoring it failed too, and
  then the returned error joins that failure to the first one.\<close>

theorem apply_failure_keeps:
  assumes "reachable ops s" and "Apply ops net opts config s = (Inl e, s')"
  shows "srv_current s' = srv_current s \<and> srv_started s' = srv_started s \<and> srv_heap s' = srv_heap s \<and>
    (\<forall>n. case mget (srv_running s) n of None \<Rightarrow> mget (srv_running s') n = None
      | Some r \<Rightarrow> (case mget (srv_running s') n of
          Some r' \<Rightarrow> r' = r \<or> rn_spec r' = rn_spec r \<and> rn_sock r' \<in> set (srv_listening s')
        | None \<Rightarrow> \<exists>e1 e2 es. e = JoinErr (e1 # e2 # es)))"
proof -
  note ok = reachable_ok [OF assms(1)]
  note app = assms(2) [unfolded Apply_def]
  have "server_ok s'" by (rule apply_keeps [OF ok app])
  then have l: "rn_sock r \<in> set (srv_listening s')" if "mget (srv_running s') n = Some r" "live r" for n r
    using running_sockets(1) that by (auto simp: live_def)
  have "case mget (srv_running s) n of None \<Rightarrow> mget (srv_running s') n = None
      | Some r \<Rightarrow> (case mget (srv_running s') n of
          Some r' \<Rightarrow> r' = r \<or> rn_spec r' = rn_spec r \<and> rn_sock r' \<in> set (srv_listening s')
        | None \<Rightarrow> \<exists>e1 e2 es. e = JoinErr (e1 # e2 # es))" for n
    using apply_failed(5) [OF ok app, of n] l [of n] by (auto split: option.splits)
  then show ?thesis using apply_failed(1,2) [OF ok app] by (simp add: held_def)
qed

theorem apply_failure_keeps_witness:
  "case New sample_ops sample_options sample_config sample_heap of
     Inl _ \<Rightarrow> False
   | Inr s \<Rightarrow> (\<exists>e s'. Apply sample_ops sample_net sample_options (sample_config\<lparr>c_version := 7\<rparr>) s = (Inl e, s') \<and>
       srv_current s' = srv_current s)"
proof -
  obtain s where s: "New sample_ops sample_options sample_config sample_heap = Inr s" using sample_New by blast
  obtain e s' where e: "Apply sample_ops sample_net sample_options (sample_config\<lparr>c_version := 7\<rparr>) s = (Inl e, s')"
    by (simp add: Apply_def applyLocked_def compile_def)
  from apply_failure_keeps [OF reachable_New [OF s] e] show ?thesis using e by (simp add: s)
qed

section \<open>Starting and stopping\<close>

text \<open>C29: \<open>Start\<close> binds every listener of the active configuration or nothing: on success all of
  them accept with their settings and the certificate refresher runs; on failure the server is not started and no socket is left open.\<close>

theorem start_all_or_nothing:
  assumes "reachable ops s" and "\<not> srv_started s" and "Start net s = (res, s')"
  shows "case res of
      Inl e \<Rightarrow> \<not> srv_started s' \<and> srv_running s' = [] \<and> srv_listening s' = [] \<and> srv_current s' = srv_current s
    | Inr _ \<Rightarrow> srv_started s' \<and> srv_refresher s' \<and> mkeys (srv_running s') = mkeys (bound (srv_current s)) \<and>
        (\<forall>n l. mget (bound (srv_current s)) n = Some l \<longrightarrow>
          (\<exists>r. mget (srv_running s') n = Some r \<and> rn_spec r = lr_spec l \<and> rn_sock r \<in> set (srv_listening s')))"
proof -
  note ok = reachable_ok [OF assms(1)]
  have ok': "server_ok s'" by (rule Start_keeps [OF ok assms(3)])
  from Start_outcome [OF ok assms(2,3)] show ?thesis
  proof (elim disjE exE conjE)
    fix e assume "res = Inl e" "held s' = held s" "srv_running s' = []" "sock_inv {} s'"
    then show ?thesis using assms(2) by (simp add: held_def sock_inv_def)
  next
    assume a: "res = Inr ()" "srv_started s'" "srv_refresher s'" "opens (bound (srv_current s)) (srv_running s')"
    have "\<exists>r. mget (srv_running s') n = Some r \<and> rn_spec r = lr_spec l \<and> rn_sock r \<in> set (srv_listening s')"
      if b: "mget (bound (srv_current s)) n = Some l" for n l
    proof -
      obtain r where r: "mget (srv_running s') n = Some r" "live r" "lr_spec l = rn_spec r"
        using opens_get [OF a(4), of n] b by (auto split: option.splits)
      then show ?thesis using running_sockets(1) [OF ok' r(1)] by (auto simp: live_def)
    qed
    then show ?thesis using a(1-3) opens_keys [OF a(4)] by simp
  qed
qed

theorem start_all_or_nothing_witness:
  "case New sample_ops sample_options sample_config sample_heap of
     Inl _ \<Rightarrow> False
   | Inr s \<Rightarrow> (\<exists>s'. Start sample_net s = (Inr (), s') \<and> mkeys (srv_running s') = mkeys (bound (srv_current s)))"
proof -
  obtain s where s: "New sample_ops sample_options sample_config sample_heap = Inr s" using sample_New by blast
  note n = New_stopped [OF s]
  obtain s' where s': "Start sample_net s = (Inr (), s')" using sample_Start [OF n] by blast
  from start_all_or_nothing [OF reachable_New [OF s] n s'] show ?thesis using s' by (simp add: s)
qed

text \<open>C31: after \<open>Shutdown\<close>, with or without an error, nothing runs: no listener and no accepting
  socket is left, the ACME loop and the certificate refresher have stopped, and the configuration is kept for a later start.\<close>

theorem shutdown_stops:
  assumes "reachable ops s" and "Shutdown shut drained s = (res, s')"
  shows "srv_running s' = [] \<and> srv_listening s' = [] \<and> \<not> srv_started s' \<and> srv_issuerOf s' = None \<and>
    \<not> srv_refresher s' \<and> srv_current s' = srv_current s"
  using Shutdown_outcome [OF reachable_ok [OF assms(1)] assms(2)] by simp

theorem shutdown_stops_witness:
  "case New sample_ops sample_options sample_config sample_heap of
     Inl _ \<Rightarrow> False
   | Inr s \<Rightarrow> (\<exists>s1. Start sample_net s = (Inr (), s1) \<and> srv_started s1 \<and>
       \<not> srv_started (snd (Shutdown (\<lambda>_. Some (Errorf ''deadline exceeded'' [])) None s1)))"
proof -
  obtain s where s: "New sample_ops sample_options sample_config sample_heap = Inr s" using sample_New by blast
  then obtain s1 where s1: "Start sample_net s = (Inr (), s1)" "srv_started s1"
    using sample_Start New_stopped by blast
  obtain res s2 where s2: "Shutdown (\<lambda>_. Some (Errorf ''deadline exceeded'' [])) None s1 = (res, s2)" by fastforce
  have "reachable sample_ops s1"
    by (rule reachable_step [OF reachable_New [OF s] starting [OF s1(1)]])
  from shutdown_stops [OF this s2] show ?thesis using s1 s2 by (simp add: s)
qed

section \<open>Health\<close>

text \<open>A server reports itself healthy exactly when it is started and, unless its
  configuration turns the gateway off, a running listener accepts connections for every configured one.\<close>

theorem healthy_iff_accepting:
  assumes "reachable ops s"
  shows "Healthy s \<longleftrightarrow> srv_started s \<and> (\<not> c_disabled (sn_config (srv_current s)) \<longrightarrow>
    (\<forall>n \<in> set (mkeys (sn_listeners (srv_current s))).
       \<exists>r. mget (srv_running s) n = Some r \<and> rn_sock r \<in> set (srv_listening s)))"
proof -
  note ok = reachable_ok [OF assms]
  have "ls_running (listener_status s (n, l)) \<longleftrightarrow>
      (\<exists>r. mget (srv_running s) n = Some r \<and> rn_sock r \<in> set (srv_listening s))" for n l
    using running_sockets(1) [OF ok, of n] by (auto simp: listener_status_def Let_def split: option.split)
  then show ?thesis
    by (auto simp: Healthy_def server_status_def Let_def set_sort_by list_all_iff)
qed

theorem healthy_iff_accepting_witness:
  "case New sample_ops sample_options sample_config sample_heap of
     Inl _ \<Rightarrow> False | Inr s \<Rightarrow> \<not> Healthy s"
proof -
  obtain s where s: "New sample_ops sample_options sample_config sample_heap = Inr s" using sample_New by blast
  from healthy_iff_accepting [OF reachable_New [OF s]] show ?thesis using New_stopped [OF s] by (simp add: s)
qed

end
