(* ===== verification/Base64.thy ===== *)
theory Base64
  imports Go_Net
begin

text \<open>
  \<open>encoding/hex\<close> and the standard encoding of \<open>encoding/base64\<close>: byte strings to text and back, on which
  release signatures, basic authentication, ETags and content security hashes rest.
\<close>

section \<open>Hexadecimal\<close>

definition hexEncode :: "string \<Rightarrow> string" where
  "hexEncode s = concat (map (\<lambda>c. [hex_digit (of_char c div 16), hex_digit (of_char c mod 16)]) s)"

section \<open>Base64\<close>

definition b64_alphabet :: string where
  "b64_alphabet = ''ABCDEFGHIJKLMNOPQRSTUVWXYZabcdefghijklmnopqrstuvwxyz0123456789+/''"

definition b64_char :: "nat \<Rightarrow> char" where
  "b64_char n = b64_alphabet ! n"

definition b64_value :: "char \<Rightarrow> nat option" where
  "b64_value c = indexChar c b64_alphabet"

abbreviation byte :: "char \<Rightarrow> nat" where
  "byte c \<equiv> of_char c"

fun base64Encode :: "string \<Rightarrow> string" where
  "base64Encode [] = []"
| "base64Encode [a] = [b64_char (byte a div 4), b64_char (byte a mod 4 * 16), CHR ''='', CHR ''='']"
| "base64Encode [a, b] =
     [b64_char (byte a div 4), b64_char (byte a mod 4 * 16 + byte b div 16), b64_char (byte b mod 16 * 4), CHR ''='']"
| "base64Encode (a # b # c # s) =
     b64_char (byte a div 4) # b64_char (byte a mod 4 * 16 + byte b div 16) #
     b64_char (byte b mod 16 * 4 + byte c div 64) # b64_char (byte c mod 64) # base64Encode s"

text \<open>The quanta; line breaks are dropped first. Bits past the last byte are ignored.\<close>

fun b64_quanta :: "string \<Rightarrow> string option" where
  "b64_quanta [] = Some []"
| "b64_quanta (c1 # c2 # c3 # c4 # rest) =
     (case (b64_value c1, b64_value c2) of
        (Some v1, Some v2) \<Rightarrow>
          (if c3 = CHR ''='' then (if c4 = CHR ''='' \<and> rest = [] then Some [char_of (v1 * 4 + v2 div 16)] else None)
           else case b64_value c3 of
             None \<Rightarrow> None
           | Some v3 \<Rightarrow>
               if c4 = CHR ''='' then
                 (if rest = [] then Some [char_of (v1 * 4 + v2 div 16), char_of (v2 mod 16 * 16 + v3 div 4)] else None)
               else case b64_value c4 of
                 None \<Rightarrow> None
               | Some v4 \<Rightarrow>
                   map_option (\<lambda>s. char_of (v1 * 4 + v2 div 16) # char_of (v2 mod 16 * 16 + v3 div 4) #
                       char_of (v3 mod 4 * 64 + v4) # s) (b64_quanta rest))
      | _ \<Rightarrow> None)"
| "b64_quanta _ = None"

definition base64Decode :: "string \<Rightarrow> string option" where
  "base64Decode s = b64_quanta (filter (\<lambda>c. c \<noteq> CHR 0x0A \<and> c \<noteq> CHR 0x0D) s)"

lemma b64_codes:
  "\<forall>n \<in> set [0..<64]. b64_value (b64_char n) = Some n \<and> b64_char n \<noteq> CHR ''='' \<and> b64_char n \<noteq> CHR 0x0A \<and> b64_char n \<noteq> CHR 0x0D"
  by code_simp

lemma b64_value_char [simp]:
  "n < 64 \<Longrightarrow> b64_value (b64_char n) = Some n" "n < 64 \<Longrightarrow> b64_char n \<noteq> CHR ''=''"
  "n < 64 \<Longrightarrow> b64_char n \<noteq> CHR 0x0A" "n < 64 \<Longrightarrow> b64_char n \<noteq> CHR 0x0D"
  using b64_codes by simp_all

lemma byte_less [simp]: "byte c < 256"
  by (simp add: of_char_def)

lemma byte_parts:
  "byte c div 4 < 64" "byte c div 16 < 16" "byte c div 64 < 4" "byte c mod 4 < 4" "byte c mod 16 < 16"
  by (simp_all add: less_mult_imp_div_less)

lemma byte_bounds [simp]:
  "byte c div 4 < 64" "byte c mod 4 * 16 < 64" "byte a mod 4 * 16 + byte c div 16 < 64"
  "byte c mod 16 * 4 < 64" "byte b mod 16 * 4 + byte c div 64 < 64" "byte c mod 64 < 64"
proof -
  have q: "x < 4 \<Longrightarrow> y < 16 \<Longrightarrow> x * 16 + y < 64" "x < 4 \<Longrightarrow> x * 16 < 64" "x < 16 \<Longrightarrow> x * 4 < 64"
    "x < 16 \<Longrightarrow> y < 4 \<Longrightarrow> x * 4 + y < 64" for x y :: nat
    by simp_all
  show "byte c div 4 < 64" by (rule byte_parts)
  show "byte c mod 4 * 16 < 64" by (rule q(2) [OF byte_parts(4)])
  show "byte a mod 4 * 16 + byte c div 16 < 64" by (rule q(1) [OF byte_parts(4,2)])
  show "byte c mod 16 * 4 < 64" by (rule q(3) [OF byte_parts(5)])
  show "byte b mod 16 * 4 + byte c div 64 < 64" by (rule q(4) [OF byte_parts(5,3)])
  show "byte c mod 64 < 64" by simp
qed

lemma byte_joins [simp]:
  "byte c div 16 div 16 = 0" "byte c div 64 div 4 = 0"
  "byte c div 16 mod 16 = byte c div 16" "byte c div 64 mod 4 = byte c div 64"
  "byte c div 16 * 16 + byte c mod 16 = byte c" "byte c div 64 * 64 + byte c mod 64 = byte c"
  using byte_parts [of c] by (simp_all add: div_mult_mod_eq)

lemma b64_plain: "c \<in> set (base64Encode s) \<Longrightarrow> c \<noteq> CHR 0x0A \<and> c \<noteq> CHR 0x0D"
  by (induction s rule: base64Encode.induct) auto

lemma b64_quanta_encode: "b64_quanta (base64Encode s) = Some s"
  by (induction s rule: base64Encode.induct)
    simp_all

lemma b64_roundtrip: "base64Decode (base64Encode s) = Some s"
proof -
  have "filter (\<lambda>c. c \<noteq> CHR 0x0A \<and> c \<noteq> CHR 0x0D) (base64Encode s) = base64Encode s"
    using b64_plain by (auto simp: filter_id_conv)
  then show ?thesis by (simp only: base64Decode_def b64_quanta_encode)
qed

end
