(* ===== verification/Api.thy ===== *)
theory Api
  imports Reachable Base64
begin

text \<open>
  \<open>api/api.go\<close> and \<open>api/sites.go\<close>: the management API over a server. Its state is
  \<open>api_world\<close>: the server and what \<open>Options.Save\<close> writes. One request runs under the
  API's write lock, so a change, its \<open>Save\<close> and its ETag are one step. The JSON
  codec and SHA-256 are fields of \<open>api_env\<close>, with the options, the server's
  environment at the time of the request, its event log and metrics.
\<close>

section \<open>State and environment\<close>

record ('l, 'w, 'f) api_world =
  aw_server :: "('l, 'w) server"
  aw_saved :: 'f

text \<open>The values handed to the JSON encoder.\<close>

datatype 'l payload =
    PError gerror
  | PStatus Status bool
  | PCertificates "CertificateStatus list"
  | PEvents "Event list"
  | PMetrics MetricsSnapshot
  | PConfig Config
  | PSites "Site list"
  | PSite Site

text \<open>
  A JSON decoder reads one value off the front of the body's bytes and leaves the rest; its
  first argument says that reading past these bytes fails.
\<close>

type_synonym 'a decoder = "bool \<Rightarrow> string \<Rightarrow> ('a \<times> string) result"

record ('l, 'w, 'f) api_env =
  ap_token :: string
  ap_save :: "(Config \<Rightarrow> ('f, unit) action) option"
  ap_ops :: "'w acme_ops"
  ap_net :: net
  ap_opts :: "('l, 'w) options"
  ap_events :: eventLog
  ap_metrics :: metrics
  ap_encode :: "'l payload \<Rightarrow> string"
  ap_marshal :: "Config \<Rightarrow> string result"
  ap_sha256 :: "string \<Rightarrow> string"
  ap_decodeConfig :: "Config decoder"
  ap_decodeSite :: "Site decoder"

type_synonym ('l, 'w, 'f) api_handler = "('l, 'w, 'f) api_world handler"
type_synonym ('l, 'w, 'f) api_exchange = "('l, 'w, 'f) api_world exchange"

definition api_config :: "('l, 'w, 'f) api_exchange \<Rightarrow> Config" where
  "api_config x = sn_config (srv_current (aw_server (x_shared x)))"

definition api_update ::
  "('l, 'w, 'f) api_env \<Rightarrow> (Config \<Rightarrow> Config result) \<Rightarrow> (('l, 'w) server, unit) action" where
  "api_update env modify = Update (ap_ops env) (ap_net env) (ap_opts env) modify"

section \<open>Requests and responses\<close>

definition maxBodyBytes :: nat where
  "maxBodyBytes = 2 ^ 20"

definition json_space :: "char \<Rightarrow> bool" where
  "json_space c = (c \<in> set [CHR '' '', CHR 0x09, CHR 0x0A, CHR 0x0D])"

definition readJSON :: "'a decoder \<Rightarrow> request \<Rightarrow> 'a result" where
  "readJSON decode r =
     (let body = r_body r; over = maxBodyBytes < length body in
      case decode over (take maxBodyBytes body) of
        Inl e \<Rightarrow> Inl (Wrapf ''invalid JSON: %w'' [] e)
      | Inr (v, rest) \<Rightarrow>
          if list_all json_space rest \<and> \<not> over then Inr v
          else Inl (Errorf ''invalid JSON: unexpected data after the value'' []))"

definition writeJSON :: "('l, 'w, 'f) api_env \<Rightarrow> int \<Rightarrow> 'l payload \<Rightarrow> ('l, 'w, 'f) api_exchange \<Rightarrow> ('l, 'w, 'f) api_exchange" where
  "writeJSON env status value x =
     writeBody (ap_encode env value) (writeHeader status
       (setHeader ''Cache-Control'' ''no-store'' (setHeader ''Content-Type'' ''application/json'' x)))"

definition writeError :: "('l, 'w, 'f) api_env \<Rightarrow> int \<Rightarrow> gerror \<Rightarrow> ('l, 'w, 'f) api_exchange \<Rightarrow> ('l, 'w, 'f) api_exchange" where
  "writeError env status e x = writeJSON env status (PError e) x"

definition etag :: "('l, 'w, 'f) api_env \<Rightarrow> Config \<Rightarrow> string" where
  "etag env config =
     (let data = (case ap_marshal env config of Inr d \<Rightarrow> d | Inl _ \<Rightarrow> [])
      in [CHR 0x22] @ hexEncode (take 16 (ap_sha256 env data)) @ [CHR 0x22])"

definition api_authorized :: "('l, 'w, 'f) api_env \<Rightarrow> request \<Rightarrow> bool" where
  "api_authorized env r =
     (ap_token env = [] \<or>
      cutPrefix (headerGet (r_header r) ''Authorization'') ''Bearer '' = Some (ap_token env))"

text \<open>\<open>handle\<close>: the endpoint, or 401 before it.\<close>

definition api_handle :: "('l, 'w, 'f) api_env \<Rightarrow> ('l, 'w, 'f) api_handler \<Rightarrow> ('l, 'w, 'f) api_handler" where
  "api_handle env h r x =
     (if api_authorized env r then h r x
      else (Returned, writeError env 401 (Errorf ''missing or invalid token'' [])
             (setHeader ''WWW-Authenticate'' (''Bearer realm='' @ [CHR 0x22] @ ''yabber'' @ [CHR 0x22]) x)))"

section \<open>Changing the configuration\<close>

definition errPrecondition :: gerror where
  "errPrecondition = Errorf ''the configuration changed since it was read; fetch it again'' []"

text \<open>The callback that \<open>change\<close> gives to \<open>Update\<close>.\<close>

definition guarded :: "('l, 'w, 'f) api_env \<Rightarrow> request \<Rightarrow> (Config \<Rightarrow> Config result) \<Rightarrow> Config \<Rightarrow> Config result" where
  "guarded env r modify config =
     (let ifMatch = headerGet (r_header r) ''If-Match'' in
      if ifMatch \<noteq> [] \<and> ifMatch \<noteq> ''*'' \<and> ifMatch \<noteq> etag env config
      then Inl (StatusError 412 errPrecondition)
      else modify config)"

definition change ::
  "('l, 'w, 'f) api_env \<Rightarrow> request \<Rightarrow> (Config \<Rightarrow> Config result) \<Rightarrow> ('l, 'w, 'f) api_exchange \<Rightarrow>
   bool \<times> ('l, 'w, 'f) api_exchange" where
  "change env r modify x =
     (let w = x_shared x;
          applied = (case guarded env r modify (api_config x) of Inr c \<Rightarrow> c | Inl _ \<Rightarrow> empty_config);
          (res, s) = api_update env (guarded env r modify) (aw_server w);
          x1 = x\<lparr>x_shared := w\<lparr>aw_server := s\<rparr>\<rparr>
      in case res of
           Inl e \<Rightarrow>
             (False, case asStatus e of
                Some (status, e') \<Rightarrow> writeError env status e' x1
              | None \<Rightarrow> writeError env 422 e x1)
         | Inr _ \<Rightarrow>
             (case ap_save env of
                None \<Rightarrow> (True, setHeader ''ETag'' (etag env applied) x1)
              | Some save \<Rightarrow>
                  (let (saved, f) = save applied (aw_saved w);
                       x2 = x1\<lparr>x_shared := (x_shared x1)\<lparr>aw_saved := f\<rparr>\<rparr>
                   in case saved of
                        Inl e \<Rightarrow> (False, writeError env 500 (Wrapf ''applied, but saving failed: %w'' [] e) x2)
                      | Inr _ \<Rightarrow> (True, setHeader ''ETag'' (etag env applied) x2))))"

text \<open>\<open>API.Apply\<close> and \<open>API.Update\<close>, for changes from elsewhere.\<close>

definition api_Apply :: "('l, 'w, 'f) api_env \<Rightarrow> Config \<Rightarrow> (('l, 'w, 'f) api_world, unit) action" where
  "api_Apply env config w =
     (let (res, s) = Apply (ap_ops env) (ap_net env) (ap_opts env) config (aw_server w) in (res, w\<lparr>aw_server := s\<rparr>))"

definition api_Update :: "('l, 'w, 'f) api_env \<Rightarrow> (Config \<Rightarrow> Config result) \<Rightarrow> (('l, 'w, 'f) api_world, unit) action" where
  "api_Update env modify w =
     (let (res, s) = api_update env modify (aw_server w); w1 = w\<lparr>aw_server := s\<rparr> in
      case res of
        Inl e \<Rightarrow> (Inl e, w1)
      | Inr _ \<Rightarrow>
          (case ap_save env of
             None \<Rightarrow> (Inr (), w1)
           | Some save \<Rightarrow> (let (saved, f) = save (sn_config (srv_current s)) (aw_saved w1) in (saved, w1\<lparr>aw_saved := f\<rparr>))))"

section \<open>Endpoints\<close>

definition api_status :: "('l, 'w, 'f) api_env \<Rightarrow> ('l, 'w, 'f) api_handler" where
  "api_status env r x =
     (Returned, writeJSON env 200 (PStatus (server_status (aw_server (x_shared x))) (Healthy (aw_server (x_shared x)))) x)"

definition api_certificates :: "('l, 'w, 'f) api_env \<Rightarrow> ('l, 'w, 'f) api_handler" where
  "api_certificates env r x = (Returned, writeJSON env 200 (PCertificates (Certificates (aw_server (x_shared x)))) x)"

definition api_events :: "('l, 'w, 'f) api_env \<Rightarrow> ('l, 'w, 'f) api_handler" where
  "api_events env r x = (Returned, writeJSON env 200 (PEvents (eventLog_list (ap_events env))) x)"

definition api_metrics :: "('l, 'w, 'f) api_env \<Rightarrow> ('l, 'w, 'f) api_handler" where
  "api_metrics env r x = (Returned, writeJSON env 200 (PMetrics (server_Metrics (ap_metrics env) (aw_server (x_shared x)))) x)"

definition getConfig :: "('l, 'w, 'f) api_env \<Rightarrow> ('l, 'w, 'f) api_handler" where
  "getConfig env r x =
     (let config = api_config x in (Returned, writeJSON env 200 (PConfig config) (setHeader ''ETag'' (etag env config) x)))"

definition putConfig :: "('l, 'w, 'f) api_env \<Rightarrow> ('l, 'w, 'f) api_handler" where
  "putConfig env r x =
     (case readJSON (ap_decodeConfig env) r of
        Inl e \<Rightarrow> (Returned, writeError env 400 e x)
      | Inr nxt \<Rightarrow>
          (let (ok, x1) = change env r (\<lambda>_. Inr nxt) x
           in (Returned, if ok then writeJSON env 200 (PConfig (api_config x1)) x1 else x1)))"

definition siteIndex :: "Config \<Rightarrow> string \<Rightarrow> nat option" where
  "siteIndex config i =
     (let n = length (takeWhile (\<lambda>s. site_ID s \<noteq> i) (c_sites config))
      in if n < length (c_sites config) then Some n else None)"

definition listSites :: "('l, 'w, 'f) api_env \<Rightarrow> ('l, 'w, 'f) api_handler" where
  "listSites env r x =
     (let config = api_config x in (Returned, writeJSON env 200 (PSites (c_sites config)) (setHeader ''ETag'' (etag env config) x)))"

definition no_site :: "string \<Rightarrow> gerror" where
  "no_site i = Errorf ''no site %q'' [i]"

definition getSite :: "('l, 'w, 'f) api_env \<Rightarrow> string \<Rightarrow> ('l, 'w, 'f) api_handler" where
  "getSite env i r x =
     (let config = api_config x in
      case siteIndex config i of
        None \<Rightarrow> (Returned, writeError env 404 (no_site i) x)
      | Some n \<Rightarrow> (Returned, writeJSON env 200 (PSite (c_sites config ! n)) (setHeader ''ETag'' (etag env config) x)))"

definition segmentKeep :: "char \<Rightarrow> bool" where
  "segmentKeep c = (is_alnum c \<or> c \<in> set ''-_.~$&+:=@'')"

definition add_site :: "Site \<Rightarrow> string \<Rightarrow> Config \<Rightarrow> Config result" where
  "add_site site i config =
     (if siteIndex config i \<noteq> None then Inl (StatusError 409 (Errorf ''site %q already exists'' [i]))
      else Inr (config\<lparr>c_sites := c_sites config @ [site]\<rparr>))"

definition createSite :: "('l, 'w, 'f) api_env \<Rightarrow> ('l, 'w, 'f) api_handler" where
  "createSite env r x =
     (case readJSON (ap_decodeSite env) r of
        Inl e \<Rightarrow> (Returned, writeError env 400 e x)
      | Inr site \<Rightarrow>
          if site_ID site = [] then (Returned, writeError env 400 (Errorf ''a site needs a name or at least one host'' []) x)
          else (let (ok, x1) = change env r (add_site site (site_ID site)) x
                in (Returned, if ok then writeJSON env 201 (PSite site)
                       (setHeader ''Location'' (''/api/sites/'' @ escapeWith segmentKeep (site_ID site)) x1) else x1)))"

definition replace_site :: "Site \<Rightarrow> string \<Rightarrow> Config \<Rightarrow> Config result" where
  "replace_site site i config =
     (case siteIndex config i of
        None \<Rightarrow> Inl (StatusError 404 (no_site i))
      | Some n \<Rightarrow> Inr (config\<lparr>c_sites := (c_sites config)[n := site]\<rparr>))"

definition putSite :: "('l, 'w, 'f) api_env \<Rightarrow> string \<Rightarrow> ('l, 'w, 'f) api_handler" where
  "putSite env i r x =
     (case readJSON (ap_decodeSite env) r of
        Inl e \<Rightarrow> (Returned, writeError env 400 e x)
      | Inr body \<Rightarrow>
          (let site = (if s_name body = [] \<and> site_ID body \<noteq> i then body\<lparr>s_name := i\<rparr> else body) in
           if site_ID site \<noteq> i
           then (Returned, writeError env 400 (Errorf ''site name %q does not match %q in the URL'' [site_ID site, i]) x)
           else (let (ok, x1) = change env r (replace_site site i) x
                 in (Returned, if ok then writeJSON env 200 (PSite site) x1 else x1))))"

definition remove_site :: "string \<Rightarrow> Config \<Rightarrow> Config result" where
  "remove_site i config =
     (case siteIndex config i of
        None \<Rightarrow> Inl (StatusError 404 (no_site i))
      | Some n \<Rightarrow> Inr (config\<lparr>c_sites := take n (c_sites config) @ drop (Suc n) (c_sites config)\<rparr>))"

definition deleteSite :: "('l, 'w, 'f) api_env \<Rightarrow> string \<Rightarrow> ('l, 'w, 'f) api_handler" where
  "deleteSite env i r x =
     (let (ok, x1) = change env r (remove_site i) x in (Returned, if ok then writeHeader 204 x1 else x1))"

section \<open>Routing\<close>

text \<open>\<open>PathValue\<close> for a pattern without a multi wildcard.\<close>

fun wildcard :: "string \<Rightarrow> segment list \<Rightarrow> string list \<Rightarrow> string" where
  "wildcard n (Wild m # ps) (s # ss) = (if m = n then s else wildcard n ps ss)"
| "wildcard n (_ # ps) (_ # ss) = wildcard n ps ss"
| "wildcard n _ _ = []"

definition pathID :: "request \<Rightarrow> string" where
  "pathID r = wildcard ''id'' [Lit ''sites'', Wild ''id''] (pathSegs (cleanPath (escapedPath (r_url r))))"

definition api_endpoints :: "('l, 'w, 'f) api_env \<Rightarrow> (string \<times> ('l, 'w, 'f) api_handler) list" where
  "api_endpoints env =
     [(''GET /status'', api_status env),
      (''GET /config'', getConfig env),
      (''PUT /config'', putConfig env),
      (''GET /sites'', listSites env),
      (''POST /sites'', createSite env),
      (''GET /sites/{id}'', \<lambda>r. getSite env (pathID r) r),
      (''PUT /sites/{id}'', \<lambda>r. putSite env (pathID r) r),
      (''DELETE /sites/{id}'', \<lambda>r. deleteSite env (pathID r) r),
      (''GET /certificates'', api_certificates env),
      (''GET /events'', api_events env),
      (''GET /metrics'', api_metrics env),
      (''/'', \<lambda>r x. (Returned, writeError env 404 (Errorf ''no such endpoint'' []) x))]"

definition api_New :: "('l, 'w, 'f) api_env \<Rightarrow> ('l, 'w, 'f) api_handler serveMux result" where
  "api_New env = rfold (\<lambda>(pattern, h) mux. mux_register pattern (api_handle env h) mux) (api_endpoints env) []"

definition api_serve :: "('l, 'w, 'f) api_env \<Rightarrow> ('l, 'w, 'f) api_handler" where
  "api_serve env r x = (case api_New env of Inl e \<Rightarrow> (Panicked (PanicValue []), x) | Inr mux \<Rightarrow> mux_serve mux r x)"

text \<open>\<open>Healthz\<close> and \<open>Prometheus\<close>, which need no token.\<close>

definition Healthz :: "('l, 'w) server handler" where
  "Healthz r x =
     (if \<not> Healthy (x_shared x) then (Returned, httpError ''unhealthy'' 503 x)
      else (Returned, writeBody (''ok'' @ [CHR 0x0A]) x))"

definition Prometheus :: "(64 word \<Rightarrow> string) \<Rightarrow> metrics \<Rightarrow> ('l, 'w) server handler" where
  "Prometheus seconds m r x =
     (Returned, writeBody (WritePrometheus seconds (server_Metrics m (x_shared x)))
        (setHeader ''Content-Type'' ''text/plain; version=0.0.4'' x))"

text \<open>Two configurations that cannot be marshalled have the same ETag, whatever they hold.\<close>

lemma etag_unmarshallable:
  "ap_marshal env c = Inl e \<Longrightarrow> ap_marshal env c' = Inl e' \<Longrightarrow> etag env c = etag env c'"
  by (simp add: etag_def)

section \<open>A store that is updated in one step\<close>

text \<open>
  What the API relies on from the server: \<open>Update\<close> applies the callback to the current
  configuration and either switches to its result or, with an error, keeps the
  configuration. A guard on the current value then makes it a compare-and-swap.
\<close>

locale config_store =
  fixes inv :: "'s \<Rightarrow> bool" and current :: "'s \<Rightarrow> 'c" and update :: "('c \<Rightarrow> 'c result) \<Rightarrow> ('s, unit) action"
  assumes update_done: "inv s \<Longrightarrow> update m s = (Inr u, s') \<Longrightarrow> m (current s) = Inr (current s') \<and> inv s'"
    and update_failed: "inv s \<Longrightarrow> update m s = (Inl e, s') \<Longrightarrow> current s' = current s \<and> inv s'"
    and update_refused: "m (current s) = Inl e \<Longrightarrow> update m s = (Inl e, s)"
begin

lemma update_cases:
  assumes "inv s" and "update m s = (res, s')"
  shows "inv s'" and "current s' = current s \<or> m (current s) = Inr (current s')"
proof -
  have "inv s' \<and> (current s' = current s \<or> m (current s) = Inr (current s'))"
  proof (cases res)
    case (Inl e)
    then show ?thesis using update_failed [OF assms(1)] assms(2) by simp
  next
    case (Inr u)
    then show ?thesis using update_done [OF assms(1)] assms(2) by simp
  qed
  then show "inv s'" and "current s' = current s \<or> m (current s) = Inr (current s')" by simp_all
qed

text \<open>A guarded update succeeds only on a value that passes the guard.\<close>

lemma compare_and_swap:
  assumes "inv s" and "update (\<lambda>c. if P c then m c else Inl e) s = (Inr u, s')"
  shows "P (current s) \<and> m (current s) = Inr (current s')"
  using update_done [OF assms] by (auto split: if_splits)

lemma swap_refused: "\<not> P (current s) \<Longrightarrow> update (\<lambda>c. if P c then m c else Inl e) s = (Inl e, s)"
  by (rule update_refused) simp

end

definition server_config :: "('l, 'w) server \<Rightarrow> Config" where
  "server_config s = sn_config (srv_current s)"

lemma api_config_server: "api_config x = server_config (aw_server (x_shared x))"
  by (simp add: api_config_def server_config_def)

interpretation srv: config_store server_ok server_config "api_update env" for env
proof
  fix s s' :: "('a, 'b) server" and m u
  assume ok: "server_ok s" and up: "api_update env m s = (Inr u, s')"
  then obtain c where c: "m (server_config s) = Inr c" "Apply (ap_ops env) (ap_net env) (ap_opts env) c s = (Inr (), s')"
    by (auto simp: api_update_def Update_def Apply_def server_config_def split: sum.splits)
  then show "m (server_config s) = Inr (server_config s') \<and> server_ok s'"
    using Apply_success(1) [OF ok c(2)] apply_keeps [OF ok] c(2) by (auto simp: server_config_def Apply_def)
next
  fix s s' :: "('a, 'b) server" and m e
  assume ok: "server_ok s" and up: "api_update env m s = (Inl e, s')"
  then have "s' = s \<or> (\<exists>c. applyLocked (ap_ops env) (ap_net env) (ap_opts env) c s = (Inl e, s'))"
    by (auto simp: api_update_def Update_def split: sum.splits)
  then show "server_config s' = server_config s \<and> server_ok s'"
    using apply_failed(1) [OF ok] apply_keeps [OF ok] ok by (auto simp: server_config_def held_def)
next
  fix s :: "('a, 'b) server" and m :: "Config \<Rightarrow> Config result" and e
  assume "m (server_config s) = Inl e"
  then show "api_update env m s = (Inl e, s)" by (simp add: api_update_def Update_def server_config_def)
qed

section \<open>Responses\<close>

lemma response_shared [simp]:
  "x_shared (writeJSON env c v x) = x_shared x" "x_shared (writeError env c e x) = x_shared x"
  "x_shared (setHeader n w x) = x_shared x" "x_shared (writeHeader c x) = x_shared x"
  by (simp_all add: writeError_def writeJSON_def writeBody_def writeHeader_def setHeader_def)

lemma api_config_response [simp]:
  "api_config (writeJSON env c v x) = api_config x" "api_config (writeError env c e x) = api_config x"
  "api_config (setHeader n w x) = api_config x" "api_config (writeHeader c x) = api_config x"
  by (simp_all add: api_config_def)

definition fresh :: "'g exchange \<Rightarrow> bool" where
  "fresh x \<longleftrightarrow> t_status (x_tracker x) = 0"

definition status_of :: "'g exchange \<Rightarrow> int" where
  "status_of x = t_status (x_tracker x)"

lemma fresh_simps [simp]:
  "fresh (setHeader n w x) = fresh x" "fresh (x\<lparr>x_shared := g\<rparr>) = fresh x"
  by (simp_all add: fresh_def setHeader_def on_tracker_def)

lemma status_writeHeader: "fresh x \<Longrightarrow> 200 \<le> c \<Longrightarrow> status_of (writeHeader c x) = c"
  by (simp add: fresh_def status_of_def writeHeader_def on_tracker_def tracker_WriteHeader_def under_writeHeader_def)

lemma status_writeJSON: "fresh x \<Longrightarrow> 200 \<le> c \<Longrightarrow> status_of (writeJSON env c v x) = c"
  by (simp add: fresh_def status_of_def writeJSON_def writeBody_def writeHeader_def setHeader_def on_tracker_def
      tracker_WriteHeader_def under_writeHeader_def tracker_Write_def under_write_def under_start_def Let_def)

lemma status_writeError: "fresh x \<Longrightarrow> 200 \<le> c \<Longrightarrow> status_of (writeError env c e x) = c"
  by (simp add: writeError_def status_writeJSON)

section \<open>Dispatch\<close>

text \<open>Registering patterns that parse and do not conflict.\<close>

definition apart :: "pattern \<Rightarrow> pattern \<Rightarrow> bool" where
  "apart q p \<longleftrightarrow> \<not> conflictsWith p q \<and> \<not> samePlace p q"

lemma mux_register_all:
  assumes "list_all2 (\<lambda>(s, h) p. s \<noteq> [] \<and> parsePattern s = Inr p) rs ps"
    and "sorted_wrt apart (map fst acc @ ps)"
  shows "rfold (\<lambda>(s, h) mux. mux_register s (f h) mux) rs acc = Inr (acc @ zip ps (map (f \<circ> snd) rs))"
  using assms
proof (induction arbitrary: acc rule: list_all2_induct)
  case (Cons r rs p ps)
  obtain s h where r: "r = (s, h)" by fastforce
  have "\<not> list_ex (\<lambda>(q, _). conflictsWith p q) acc" "\<not> list_ex (\<lambda>(q, _). samePlace p q) acc"
    using Cons.prems by (fastforce simp: sorted_wrt_append apart_def list_ex_iff)+
  then have "mux_register s (f h) acc = Inr (acc @ [(p, f h)])" using Cons.hyps r by (simp add: mux_register_def)
  moreover have "sorted_wrt apart (map fst (acc @ [(p, f h)]) @ ps)" using Cons.prems by simp
  ultimately show ?case using Cons.IH [of "acc @ [(p, f h)]"] by (simp add: r)
qed simp

definition api_patterns :: "pattern list" where
  "api_patterns = map (\<lambda>(m, ss). \<lparr>pt_method = m, pt_segs = ss\<rparr>)
     [(''GET'', [Lit ''status'']), (''GET'', [Lit ''config'']), (''PUT'', [Lit ''config'']),
      (''GET'', [Lit ''sites'']), (''POST'', [Lit ''sites'']),
      (''GET'', [Lit ''sites'', Wild ''id'']), (''PUT'', [Lit ''sites'', Wild ''id'']), (''DELETE'', [Lit ''sites'', Wild ''id'']),
      (''GET'', [Lit ''certificates'']), (''GET'', [Lit ''events'']), (''GET'', [Lit ''metrics'']), ([], [Multi []])]"

lemma api_patterns_apart: "sorted_wrt apart api_patterns"
  unfolding apart_def by code_simp

lemma api_patterns_parse:
  "map parsePattern [''GET /status'', ''GET /config'', ''PUT /config'', ''GET /sites'', ''POST /sites'', ''GET /sites/{id}'',
     ''PUT /sites/{id}'', ''DELETE /sites/{id}'', ''GET /certificates'', ''GET /events'', ''GET /metrics'', ''/''] =
   map Inr api_patterns"
  by code_simp

lemma api_New_mux: "api_New env = Inr (zip api_patterns (map (api_handle env \<circ> snd) (api_endpoints env)))"
proof -
  have "list_all2 (\<lambda>(s, h) p. s \<noteq> [] \<and> parsePattern s = Inr p) (api_endpoints env) api_patterns"
    using api_patterns_parse by (simp add: api_endpoints_def api_patterns_def)
  from mux_register_all [OF this, of "[]" "api_handle env"] show ?thesis
    using api_patterns_apart by (simp add: api_New_def)
qed

text \<open>The endpoints as a table over the method and the decoded path segments.\<close>

definition no_endpoint :: "('l, 'w, 'f) api_env \<Rightarrow> ('l, 'w, 'f) api_handler" where
  "no_endpoint env r x = (Returned, writeError env 404 (Errorf ''no such endpoint'' []) x)"

definition api_endpoint :: "('l, 'w, 'f) api_env \<Rightarrow> string \<Rightarrow> string list \<Rightarrow> ('l, 'w, 'f) api_handler" where
  "api_endpoint env m segs =
     (let m = (if m = ''HEAD'' then ''GET'' else m) in
      case segs of
        [s] \<Rightarrow>
          if m = ''GET'' then
            (if s = ''status'' then api_status env else if s = ''config'' then getConfig env
             else if s = ''sites'' then listSites env else if s = ''certificates'' then api_certificates env
             else if s = ''events'' then api_events env else if s = ''metrics'' then api_metrics env else no_endpoint env)
          else if m = ''PUT'' \<and> s = ''config'' then putConfig env
          else if m = ''POST'' \<and> s = ''sites'' then createSite env else no_endpoint env
      | [s, i] \<Rightarrow>
          if s \<noteq> ''sites'' \<or> i = ''/'' then no_endpoint env
          else if m = ''GET'' then getSite env i else if m = ''PUT'' then putSite env i
          else if m = ''DELETE'' then deleteSite env i else no_endpoint env
      | _ \<Rightarrow> no_endpoint env)"

definition api_mux :: "('l, 'w, 'f) api_env \<Rightarrow> ('l, 'w, 'f) api_handler serveMux" where
  "api_mux env = zip api_patterns (map (api_handle env \<circ> snd) (api_endpoints env))"

lemma methodNode_api:
  "methodNode m (api_mux env) =
     (if m = ''GET'' then
        [([K ''status''], api_mux env ! 0), ([K ''config''], api_mux env ! 1), ([K ''sites''], api_mux env ! 3),
         ([K ''sites'', K []], api_mux env ! 5), ([K ''certificates''], api_mux env ! 8), ([K ''events''], api_mux env ! 9),
         ([K ''metrics''], api_mux env ! 10)]
      else if m = ''PUT'' then [([K ''config''], api_mux env ! 2), ([K ''sites'', K []], api_mux env ! 6)]
      else if m = ''POST'' then [([K ''sites''], api_mux env ! 4)]
      else if m = ''DELETE'' then [([K ''sites'', K []], api_mux env ! 7)]
      else if m = [] then [([KMulti], api_mux env ! 11)] else [])"
  by (simp add: methodNode_def api_mux_def api_patterns_def api_endpoints_def)

lemma child_simps [simp]:
  "child s [] = []"
  "child s (([], e) # es) = child s es"
  "child s ((KMulti # ks, e) # es) = child s es"
  "child s ((K t # ks, e) # es) = (if t = s then (ks, e) # child s es else child s es)"
  by (simp_all add: child_def map_filter_simps)

lemma atNode_simps [simp]:
  "atNode ks [] = None"
  "atNode ks ((ks', e) # es) = (if ks' = ks then Some e else atNode ks es)"
  by (simp_all add: atNode_def)

lemma matchPath_Nil [simp]: "matchPath [] segs = None"
  by (induction segs) simp_all

lemma matchPath_leaf: "segs \<noteq> [] \<Longrightarrow> matchPath [([], e)] segs = None"
  by (cases segs) simp_all

text \<open>Which entry the tree finds, and the endpoint in the table.\<close>

definition api_index :: "string \<Rightarrow> string list \<Rightarrow> nat" where
  "api_index m segs =
     (let m = (if m = ''HEAD'' then ''GET'' else m) in
      case segs of
        [s] \<Rightarrow>
          if m = ''GET'' then
            (if s = ''status'' then 0 else if s = ''config'' then 1 else if s = ''sites'' then 3 else if s = ''certificates'' then 8
             else if s = ''events'' then 9 else if s = ''metrics'' then 10 else 11)
          else if m = ''PUT'' \<and> s = ''config'' then 2
          else if m = ''POST'' \<and> s = ''sites'' then 4 else 11
      | [s, i] \<Rightarrow>
          if s \<noteq> ''sites'' \<or> i = ''/'' then 11
          else if m = ''GET'' then 5 else if m = ''PUT'' then 6
          else if m = ''DELETE'' then 7 else 11
      | _ \<Rightarrow> 11)"

lemma match_one: "matchPath es [s] = orElse (atNode [] (child s es))
   (orElse (if s \<noteq> ''/'' then atNode [] (child [] es) else None) (atNode [KMulti] es))"
  by simp

lemma tree_api_one:
  "pathSegs path = [s] \<Longrightarrow> tree_match (api_mux env) m path = Some (api_mux env ! api_index m [s])"
  by (simp add: tree_match_def methodNode_api api_index_def Let_def)

lemma tree_api_two:
  "pathSegs path = [s, i] \<Longrightarrow> tree_match (api_mux env) m path = Some (api_mux env ! api_index m [s, i])"
  by (simp add: tree_match_def methodNode_api api_index_def Let_def) auto

lemma tree_api_long:
  "pathSegs path = s # i # j # segs \<Longrightarrow> tree_match (api_mux env) m path = Some (api_mux env ! api_index m (s # i # j # segs))"
  by (simp add: tree_match_def methodNode_api api_index_def Let_def matchPath_leaf)

lemma tree_api:
  "pathSegs path \<noteq> [] \<Longrightarrow> tree_match (api_mux env) m path = Some (api_mux env ! api_index m (pathSegs path))"
  using tree_api_one tree_api_two tree_api_long by (metis remdups_adj.cases)

lemma api_lengths: "length api_patterns = 12" "length (api_endpoints env) = 12"
  by (simp_all add: api_patterns_def api_endpoints_def)

lemma api_entry: "n < 12 \<Longrightarrow> api_mux env ! n = (api_patterns ! n, api_handle env (snd (api_endpoints env ! n)))"
  by (simp add: api_mux_def api_lengths)

lemma endpoints_nth:
  "snd (api_endpoints env ! 0) = api_status env" "snd (api_endpoints env ! 1) = getConfig env"
  "snd (api_endpoints env ! 2) = putConfig env" "snd (api_endpoints env ! 3) = listSites env"
  "snd (api_endpoints env ! 4) = createSite env" "snd (api_endpoints env ! 5) = (\<lambda>r. getSite env (pathID r) r)"
  "snd (api_endpoints env ! 6) = (\<lambda>r. putSite env (pathID r) r)" "snd (api_endpoints env ! 7) = (\<lambda>r. deleteSite env (pathID r) r)"
  "snd (api_endpoints env ! 8) = api_certificates env" "snd (api_endpoints env ! 9) = api_events env"
  "snd (api_endpoints env ! 10) = api_metrics env" "snd (api_endpoints env ! 11) = no_endpoint env"
  by (simp_all add: api_endpoints_def no_endpoint_def fun_eq_iff)

lemma api_index_bound: "api_index m segs < 12"
  by (simp add: api_index_def Let_def split: list.split)

lemma api_index_one: "snd (api_endpoints env ! api_index m [s]) = api_endpoint env m [s]"
  unfolding api_index_def api_endpoint_def Let_def list.case
  by (simp only: if_distrib [of "\<lambda>n. snd (api_endpoints env ! n)"] endpoints_nth)

lemma api_index_two:
  "pathSegs (cleanPath (escapedPath (r_url r))) = [s, i] \<Longrightarrow>
   snd (api_endpoints env ! api_index m [s, i]) r x = api_endpoint env m [s, i] r x"
  unfolding api_index_def api_endpoint_def Let_def list.case
  by (simp add: endpoints_nth pathID_def split: if_split)

lemma api_index_endpoint:
  "pathSegs (cleanPath (escapedPath (r_url r))) = segs \<Longrightarrow>
   snd (api_endpoints env ! api_index m segs) r x = api_endpoint env m segs r x"
proof (cases segs rule: remdups_adj.cases)
  case 1
  then show ?thesis by (simp add: api_index_def api_endpoint_def endpoints_nth Let_def)
next
  case (2 s)
  then show ?thesis by (simp add: api_index_one)
next
  case (3 s i rest)
  assume segs: "pathSegs (cleanPath (escapedPath (r_url r))) = segs"
  show ?thesis
  proof (cases rest)
    case Nil
    then show ?thesis using api_index_two segs 3 by simp
  next
    case (Cons j rest')
    then show ?thesis using 3 by (simp add: api_index_def api_endpoint_def endpoints_nth Let_def)
  qed
qed

lemma api_handle_cong: "h r x = h' r x \<Longrightarrow> api_handle env h r x = api_handle env h' r x"
  by (simp add: api_handle_def)

lemma pathSegs_slash: "pathSegs (CHR ''/'' # p) \<noteq> []"
  by (cases "splitChar CHR ''/'' p") (auto simp: pathSegs_def)

lemma splitChar_last: "splitChar c (q @ [c]) = splitChar c q @ [[]]"
proof (induction q)
  case (Cons x q)
  then show ?case by (cases "splitChar c q") auto
qed simp

lemma walkSegs_last: "xs \<noteq> [] \<Longrightarrow> walkSegs (xs @ [[]]) = map pathUnescape xs @ [''/'']"
proof (induction xs)
  case (Cons x xs)
  then show ?case by (cases xs) auto
qed simp

text \<open>No path of the API is the exact match of a subtree pattern, so the mux never adds a trailing slash.\<close>

lemma no_slash_redirect:
  assumes "p = CHR ''/'' # q" and "\<not> hasSuffix p ''/''"
  shows "\<not> exactMatch (tree_match (api_mux env) m (p @ ''/'')) (p @ ''/'')"
proof -
  have q: "q \<noteq> []" using assms by (auto simp: hasSuffix_def hasPrefix_def)
  have segs: "pathSegs (p @ ''/'') = map pathUnescape (splitChar CHR ''/'' q) @ [''/'']"
    by (simp add: assms(1) pathSegs_def splitChar_last walkSegs_last)
  obtain s ss where s: "splitChar CHR ''/'' q = s # ss" by (cases "splitChar CHR ''/'' q") auto
  have "api_index m (pathSegs (p @ ''/'')) = 11"
    unfolding segs s by (cases ss) (auto simp: api_index_def Let_def split: list.split)
  then have "tree_match (api_mux env) m (p @ ''/'') = Some (api_patterns ! 11, api_handle env (snd (api_endpoints env ! 11)))"
    using tree_api [of "p @ ''/''" env m] api_entry [of 11 env] by (simp add: segs)
  moreover have "filter (\<lambda>c. c = CHR ''/'') p \<noteq> []" by (simp add: assms(1))
  ultimately show ?thesis by (simp add: exactMatch_def api_patterns_def endsMulti_def hasSuffix_def hasPrefix_def)
qed

lemma cleanPath_rooted: "\<exists>q. cleanPath p = CHR ''/'' # q"
proof -
  have append: "isAbs (a @ b)" if "isAbs a" for a b using that by (auto simp: isAbs_def hasPrefix_iff)
  have "isAbs (CHR ''/'' # p)" "isAbs ''/''" by (simp_all add: isAbs_def hasPrefix_def)
  moreover have "isAbs p" if "hasPrefix p ''/''" using that by (simp add: isAbs_def)
  ultimately have "isAbs (cleanPath p)"
    by (simp add: cleanPath_def Let_def isAbs_pathClean append)
  then show ?thesis by (auto simp: isAbs_def hasPrefix_iff)
qed

lemma api_dispatched:
  assumes "cleanPath (escapedPath (r_url r)) = escapedPath (r_url r)" and "r_method r \<noteq> ''CONNECT''" and "u_path (r_url r) \<noteq> ''*''"
  shows "api_serve env r x =
    api_handle env (api_endpoint env (r_method r) (pathSegs (escapedPath (r_url r)))) r x"
proof -
  let ?p = "escapedPath (r_url r)"
  obtain q where q: "?p = CHR ''/'' # q" using cleanPath_rooted [of ?p] assms(1) by auto
  define n where "n = api_index (r_method r) (pathSegs ?p)"
  have t: "tree_match (api_mux env) (r_method r) ?p = Some (api_mux env ! n)"
    unfolding n_def by (rule tree_api) (simp add: q pathSegs_slash)
  have "findHandler (api_mux env) r = Serve (api_mux env ! n)"
    using no_slash_redirect [OF q] assms(1,2) by (auto simp: findHandler_def Let_def matchOrRedirect_def t)
  then have "api_serve env r x = api_handle env (snd (api_endpoints env ! n)) r x"
    using assms(3) api_index_bound by (simp add: api_serve_def api_New_mux api_mux_def [symmetric] mux_serve_def api_entry n_def)
  also have "\<dots> = api_handle env (api_endpoint env (r_method r) (pathSegs ?p)) r x"
    unfolding n_def by (rule api_handle_cong) (rule api_index_endpoint, simp add: assms(1))
  finally show ?thesis .
qed

text \<open>C32: the API answers a request by its method and decoded path as the documented table says,
  behind the token check: every route of the table reaches its endpoint (HEAD as GET), \<open>{id}\<close> is the decoded
  second segment, and every other method or path is answered 404; registration never panics and no request with a clean path is redirected.\<close>

theorem api_dispatch:
  assumes "cleanPath (escapedPath (r_url r)) = escapedPath (r_url r)" and "r_method r \<noteq> ''CONNECT''" and "u_path (r_url r) \<noteq> ''*''"
  shows "api_serve env r x =
    api_handle env (api_endpoint env (r_method r) (pathSegs (escapedPath (r_url r)))) r x"
  by (rule api_dispatched [OF assms])

theorem api_dispatch_witness:
  "\<forall>env x. api_serve env (get_request ''h'' ''/sites/a%2Fb'' ''1.2.3.4:5'' []) x =
   api_handle env (getSite env ''a%2Fb'') (get_request ''h'' ''/sites/a%2Fb'' ''1.2.3.4:5'' []) x"
proof (intro allI)
  fix env x
  let ?r = "get_request ''h'' ''/sites/a%2Fb'' ''1.2.3.4:5'' []"
  have p: "escapedPath (r_url ?r) = ''/sites/a%252Fb''" unfolding get_request_simps by code_simp
  have c: "cleanPath ''/sites/a%252Fb'' = ''/sites/a%252Fb''" "pathSegs ''/sites/a%252Fb'' = [''sites'', ''a%2Fb'']" by code_simp+
  have "cleanPath (escapedPath (r_url ?r)) = escapedPath (r_url ?r)" unfolding p c(1) ..
  from api_dispatch [OF this, of env x]
  show "api_serve env ?r x = api_handle env (getSite env ''a%2Fb'') ?r x"
    unfolding p c(2) by (simp add: api_endpoint_def Let_def)
qed

end
