(* ===== verification/Api_Changes.thy ===== *)
theory Api_Changes
  imports Api
begin

text \<open>
  What the management API promises about changes: a request is applied, saved and
  answered as one step; a stale \<open>If-Match\<close> changes nothing; sites form a map from
  identities to sites that POST, PUT and DELETE update at one key; without the
  token nothing is read or changed.
\<close>

section \<open>Outcomes of a change\<close>

lemma guarded_if: "guarded env r modify = (\<lambda>c.
    if headerGet (r_header r) ''If-Match'' = [] \<or> headerGet (r_header r) ''If-Match'' = ''*'' \<or>
       headerGet (r_header r) ''If-Match'' = etag env c
    then modify c else Inl (StatusError 412 errPrecondition))"
  by (auto simp: guarded_def Let_def fun_eq_iff)

definition if_match_passes :: "('l, 'w, 'f) api_env \<Rightarrow> request \<Rightarrow> Config \<Rightarrow> bool" where
  "if_match_passes env r c \<longleftrightarrow> headerGet (r_header r) ''If-Match'' = [] \<or> headerGet (r_header r) ''If-Match'' = ''*'' \<or>
     headerGet (r_header r) ''If-Match'' = etag env c"

definition error_status :: "gerror \<Rightarrow> int" where
  "error_status e = (case asStatus e of Some (c, _) \<Rightarrow> c | None \<Rightarrow> 422)"

text \<open>The three ways a change ends: refused or not applied, applied but not saved, applied and saved.\<close>

definition saved :: "('l, 'w, 'f) api_env \<Rightarrow> Config \<Rightarrow> 'f \<Rightarrow> unit result \<times> 'f" where
  "saved env c f = (case ap_save env of None \<Rightarrow> (Inr (), f) | Some save \<Rightarrow> save c f)"

lemma asStatus_error: "(case asStatus e of Some (c, e') \<Rightarrow> writeError env c e' x | None \<Rightarrow> writeError env 422 e x) =
   writeError env (error_status e) (case asStatus e of Some (_, e') \<Rightarrow> e' | None \<Rightarrow> e) x"
  by (simp add: error_status_def split: option.split)

text \<open>The outcomes as relations between the exchange before and after.\<close>

definition refused :: "('l, 'w, 'f) api_env \<Rightarrow> gerror \<Rightarrow> ('l, 'w, 'f) api_exchange \<Rightarrow> ('l, 'w, 'f) api_exchange \<Rightarrow> bool" where
  "refused env e x x' \<longleftrightarrow> (\<exists>d x1. x' = writeError env (error_status e) d x1 \<and> x_tracker x1 = x_tracker x) \<and>
     api_config x' = api_config x \<and> aw_saved (x_shared x') = aw_saved (x_shared x)"

definition unsaved :: "('l, 'w, 'f) api_env \<Rightarrow> ('l, 'w, 'f) api_exchange \<Rightarrow> ('l, 'w, 'f) api_exchange \<Rightarrow> bool" where
  "unsaved env x x' \<longleftrightarrow> (\<exists>e x1. x' = writeError env 500 (Wrapf ''applied, but saving failed: %w'' [] e) x1 \<and>
     x_tracker x1 = x_tracker x \<and> saved env (api_config x') (aw_saved (x_shared x)) = (Inl e, aw_saved (x_shared x')))"

definition applied :: "('l, 'w, 'f) api_env \<Rightarrow> ('l, 'w, 'f) api_exchange \<Rightarrow> ('l, 'w, 'f) api_exchange \<Rightarrow> bool" where
  "applied env x x' \<longleftrightarrow> (\<exists>x1. x' = setHeader ''ETag'' (etag env (api_config x')) x1 \<and> x_tracker x1 = x_tracker x) \<and>
     saved env (api_config x') (aw_saved (x_shared x)) = (Inr (), aw_saved (x_shared x'))"

definition change_ends ::
  "('l, 'w, 'f) api_env \<Rightarrow> request \<Rightarrow> (Config \<Rightarrow> Config result) \<Rightarrow> ('l, 'w, 'f) api_exchange \<Rightarrow> bool \<Rightarrow> ('l, 'w, 'f) api_exchange \<Rightarrow> bool" where
  "change_ends env r modify x res x' \<longleftrightarrow>
     (if res then applied env x x' \<and> guarded env r modify (api_config x) = Inr (api_config x')
      else (\<exists>e. refused env e x x' \<and> (\<forall>e'. guarded env r modify (api_config x) = Inl e' \<longrightarrow> e = e' \<and> x_shared x' = x_shared x)) \<or>
        unsaved env x x' \<and> guarded env r modify (api_config x) = Inr (api_config x'))"

lemma change_outcome:
  assumes ok: "server_ok (aw_server (x_shared x))" and ch: "change env r modify x = (res, x')"
  shows "change_ends env r modify x res x'" and "server_ok (aw_server (x_shared x'))"
proof -
  let ?w = "x_shared x"
  obtain ures s where up: "api_update env (guarded env r modify) (aw_server ?w) = (ures, s)" by fastforce
  have sok: "server_ok s" by (rule srv.update_cases(1) [OF ok up])
  have cfg: "api_config x = server_config (aw_server ?w)" by (rule api_config_server)
  let ?x1 = "x\<lparr>x_shared := ?w\<lparr>aw_server := s\<rparr>\<rparr>"
  have "change_ends env r modify x res x' \<and> server_ok (aw_server (x_shared x'))"
  proof (cases ures)
    case (Inl e)
    have out: "res = False" "x' = writeError env (error_status e) (case asStatus e of Some (_, e') \<Rightarrow> e' | None \<Rightarrow> e) ?x1"
      using ch unfolding change_def Let_def up Inl prod.case sum.case asStatus_error by simp_all
    have same: "server_config s = server_config (aw_server ?w)"
      using srv.update_failed [OF ok up [unfolded Inl]] by simp
    have early: "e = e' \<and> s = aw_server ?w" if "guarded env r modify (api_config x) = Inl e'" for e'
      using srv.update_refused [of "guarded env r modify" "aw_server ?w" e' env] that up Inl by (simp add: cfg)
    have "refused env e x x'"
      unfolding refused_def out(2) using same by (simp add: api_config_server) (metis exchange.select_convs(1) exchange.surjective exchange.update_convs(4))
    then show ?thesis using sok early out by (auto simp: change_ends_def)
  next
    case (Inr u)
    from srv.update_done [OF ok up [unfolded Inr]]
    have g: "guarded env r modify (api_config x) = Inr (server_config s)" by (simp add: cfg)
    obtain sr f where sv: "saved env (server_config s) (aw_saved ?w) = (sr, f)" by fastforce
    define x2 where "x2 = (case ap_save env of None \<Rightarrow> ?x1 | Some _ \<Rightarrow> ?x1\<lparr>x_shared := (x_shared ?x1)\<lparr>aw_saved := f\<rparr>\<rparr>)"
    have x2: "x_tracker x2 = x_tracker x" "aw_server (x_shared x2) = s" "aw_saved (x_shared x2) = f" "api_config x2 = server_config s"
      using sv by (auto simp: x2_def saved_def api_config_server split: option.splits)
    have "change env r modify x = (case sr of
        Inl e \<Rightarrow> (False, writeError env 500 (Wrapf ''applied, but saving failed: %w'' [] e) x2)
      | Inr _ \<Rightarrow> (True, setHeader ''ETag'' (etag env (server_config s)) x2))"
      using sv by (cases "ap_save env") (auto simp: change_def Let_def up Inr g saved_def x2_def split: sum.split)
    then show ?thesis
      using ch g sok sv x2 by (cases sr) (auto simp: change_ends_def applied_def unsaved_def)
  qed
  then show "change_ends env r modify x res x'" and "server_ok (aw_server (x_shared x'))" by simp_all
qed

lemma New_config: "New ops opts config h = Inr s \<Longrightarrow> server_config s = config"
  by (auto simp: New_def rbind_Inr_iff server_config_def elim!: compile_Inr)

section \<open>A sample API\<close>

text \<open>An API with a token that saves to a variable, over the sample server.\<close>

definition api_sample_env :: "(rat \<times> int \<times> rat \<times> int option, int, Config option) api_env" where
  "api_sample_env = \<lparr>ap_token = ''secret'', ap_save = Some (\<lambda>c f. (Inr (), Some c)), ap_ops = sample_ops, ap_net = sample_net,
     ap_opts = sample_options, ap_events = newEventLog, ap_metrics = newMetrics, ap_encode = (\<lambda>_. ''{}''),
     ap_marshal = (\<lambda>c. Inr (concat (map site_ID (c_sites c)))), ap_sha256 = (\<lambda>d. d),
     ap_decodeConfig = (\<lambda>_ _. Inr (sample_config, [])), ap_decodeSite = (\<lambda>_ _. Inr (sample_site, []))\<rparr>"

definition api_sample_exchange :: "('l, 'w) server \<Rightarrow> ('l, 'w, Config option) api_exchange" where
  "api_sample_exchange s = \<lparr>x_tracker = newTracker 100, x_state = None, x_now = 0, x_shared = \<lparr>aw_server = s, aw_saved = None\<rparr>\<rparr>"

lemma api_sample_exchange_fresh: "fresh (api_sample_exchange s)"
  by (simp add: api_sample_exchange_def fresh_def newTracker_def)

lemma api_sample_exchange_server: "aw_server (x_shared (api_sample_exchange s)) = s" "aw_saved (x_shared (api_sample_exchange s)) = None"
  by (simp_all add: api_sample_exchange_def)

lemma api_sample_env_ops: "ap_ops api_sample_env = sample_ops"
  by (simp add: api_sample_env_def)

definition sample_put :: "string \<Rightarrow> request" where
  "sample_put tag = (get_request ''h'' ''/config'' ''1.2.3.4:5'' [(''If-Match'', [tag])])\<lparr>r_method := ''PUT''\<rparr>"

lemma sample_put_clean:
  "cleanPath (escapedPath (r_url (sample_put tag))) = escapedPath (r_url (sample_put tag))"
  "u_path (r_url (sample_put tag)) \<noteq> ''*''" "r_method (sample_put tag) = ''PUT''"
  "headerGet (r_header (sample_put tag)) ''If-Match'' = tag"
proof -
  have h: "canonicalKey ''If-Match'' = ''If-Match''" by code_simp
  have u: "cleanPath (escapedPath (empty_url\<lparr>u_path := ''/config''\<rparr>)) = escapedPath (empty_url\<lparr>u_path := ''/config''\<rparr>)"
    by code_simp
  show "cleanPath (escapedPath (r_url (sample_put tag))) = escapedPath (r_url (sample_put tag))"
    using u by (simp add: sample_put_def)
  show "u_path (r_url (sample_put tag)) \<noteq> ''*''" "r_method (sample_put tag) = ''PUT''"
    "headerGet (r_header (sample_put tag)) ''If-Match'' = tag"
    by (simp_all add: sample_put_def headerGet_def headerValues_def h)
qed

section \<open>A change is one step\<close>

lemma error_status_API: "error_status (StatusError c e) = c"
  by (simp add: error_status_def)

lemma status_refused:
  assumes "refused env e x x'" and "fresh x" and "200 \<le> error_status e"
  shows "status_of x' = error_status e"
proof -
  obtain d x1 where "x' = writeError env (error_status e) d x1" "x_tracker x1 = x_tracker x"
    using assms(1) by (auto simp: refused_def)
  then show ?thesis using status_writeError [of x1 "error_status e"] assms(2,3) by (simp add: fresh_def)
qed

text \<open>C11: a change of the management API is one step with its save. When it succeeds, the new active
  configuration is the requested modification of the one the \<open>If-Match\<close> header was checked against, exactly this
  configuration was saved, and the response carries its ETag. When it fails, either configuration and saved state are both
  unchanged, with the modification's own status or 412 for a stale \<open>If-Match\<close>, or only saving failed, which the client learns from a 500.\<close>

theorem api_change_atomic:
  assumes "reachable (ap_ops env) (aw_server (x_shared x))" and "fresh x" and "change env r modify x = (res, x')"
  shows "if res then
      if_match_passes env r (api_config x) \<and> modify (api_config x) = Inr (api_config x') \<and>
      saved env (api_config x') (aw_saved (x_shared x)) = (Inr (), aw_saved (x_shared x')) \<and>
      headerGet (rw_header (x_tracker x')) ''ETag'' = etag env (api_config x') \<and> fresh x'
    else
      (api_config x' = api_config x \<and> aw_saved (x_shared x') = aw_saved (x_shared x) \<and>
        (\<not> if_match_passes env r (api_config x) \<longrightarrow> status_of x' = 412) \<and>
        (\<forall>c e. if_match_passes env r (api_config x) \<and> modify (api_config x) = Inl (StatusError c e) \<and> 200 \<le> c \<longrightarrow> status_of x' = c)) \<or>
      (status_of x' = 500 \<and> modify (api_config x) = Inr (api_config x') \<and> if_match_passes env r (api_config x) \<and>
        (\<exists>e. saved env (api_config x') (aw_saved (x_shared x)) = (Inl e, aw_saved (x_shared x'))))"
proof -
  note ends = change_outcome(1) [OF reachable_ok [OF assms(1)] assms(3), unfolded change_ends_def]
  have g: "guarded env r modify (api_config x) = (if if_match_passes env r (api_config x) then modify (api_config x)
      else Inl (StatusError 412 errPrecondition))"
    by (simp add: guarded_if if_match_passes_def)
  show ?thesis
  proof (cases res)
    case True
    then have "applied env x x'" and m: "guarded env r modify (api_config x) = Inr (api_config x')" using ends by simp_all
    then obtain x1 where x1: "x' = setHeader ''ETag'' (etag env (api_config x')) x1" "x_tracker x1 = x_tracker x"
      and "saved env (api_config x') (aw_saved (x_shared x)) = (Inr (), aw_saved (x_shared x'))" unfolding applied_def by blast
    moreover note t = arg_cong [OF x1(1), of x_tracker, unfolded setHeader_def on_tracker_def x1(2), simplified]
    have "headerGet (rw_header (x_tracker x')) ''ETag'' = etag env (api_config x')" by (simp add: t)
    moreover have "fresh x'" using assms(2) by (simp add: fresh_def t)
    ultimately show ?thesis using True m by (simp add: g split: if_splits)
  next
    case False
    with ends consider (refused) e where "refused env e x x'" "\<And>e'. guarded env r modify (api_config x) = Inl e' \<Longrightarrow> e = e'"
      | (unsaved) "unsaved env x x'" "guarded env r modify (api_config x) = Inr (api_config x')" by auto
    then show ?thesis
    proof cases
      case refused
      have "status_of x' = c" if "guarded env r modify (api_config x) = Inl (StatusError c d)" "200 \<le> c" for c d
        using status_refused [OF refused(1) assms(2)] refused(2) [OF that(1)] that(2) by (simp add: error_status_API)
      then show ?thesis using False refused(1) by (auto simp: g refused_def)
    next
      case unsaved
      then obtain e x1 where u: "x' = writeError env 500 (Wrapf ''applied, but saving failed: %w'' [] e) x1" "x_tracker x1 = x_tracker x"
        "saved env (api_config x') (aw_saved (x_shared x)) = (Inl e, aw_saved (x_shared x'))" unfolding unsaved_def by blast
      have "status_of x' = 500" unfolding u(1) using u(2) assms(2) by (intro status_writeError) (simp_all add: fresh_def)
      then show ?thesis using False unsaved(2) u(3) by (auto simp: g split: if_splits)
    qed
  qed
qed

theorem api_change_atomic_witness:
  "case New sample_ops sample_options sample_config sample_heap of
     Inl _ \<Rightarrow> False
   | Inr s \<Rightarrow> (case change api_sample_env (sample_put ''*'') (\<lambda>_. Inr sample_config) (api_sample_exchange s) of
       (ok, x) \<Rightarrow> ok \<and> aw_saved (x_shared x) = Some (api_config x) \<and> api_config x = sample_config)"
proof -
  obtain s where s: "New sample_ops sample_options sample_config sample_heap = Inr s" using sample_New by blast
  obtain s' where a: "Apply sample_ops sample_net sample_options sample_config s = (Inr (), s')" using sample_Apply by blast
  obtain ok x where c: "change api_sample_env (sample_put ''*'') (\<lambda>_. Inr sample_config) (api_sample_exchange s) = (ok, x)" by fastforce
  have ok: ok
    using c a by (simp add: change_def Let_def api_update_def Update_def Apply_def guarded_if sample_put_clean
        api_sample_env_def api_sample_exchange_def api_config_def)
  have r: "reachable (ap_ops api_sample_env) (aw_server (x_shared (api_sample_exchange s)))"
    using reachable_New [OF s] by (simp add: api_sample_env_ops api_sample_exchange_server)
  have sv: "saved api_sample_env d f = (Inr (), Some d)" for d f by (simp add: saved_def api_sample_env_def)
  from api_change_atomic [OF r api_sample_exchange_fresh c] show ?thesis
    by (auto simp: s c ok sv)
qed

section \<open>Conditional requests and authentication\<close>

lemma change_stale:
  "\<not> if_match_passes env r (api_config x) \<Longrightarrow> change env r modify x = (False, writeError env 412 errPrecondition x)"
  using srv.update_refused [of "guarded env r modify" "aw_server (x_shared x)" "StatusError 412 errPrecondition" env]
  by (simp add: change_def Let_def guarded_if if_match_passes_def api_config_server)

text \<open>Error responses that leave the state alone.\<close>

definition answers_error :: "('l, 'w, 'f) api_env \<Rightarrow> ('l, 'w, 'f) api_exchange \<Rightarrow> outcome \<times> ('l, 'w, 'f) api_exchange \<Rightarrow> bool" where
  "answers_error env x res \<longleftrightarrow> (\<exists>c e. c \<in> {400, 404, 412} \<and> res = (Returned, writeError env c e x))"

lemma answers_errorI [simp]:
  "answers_error env x (Returned, writeError env 400 e x)" "answers_error env x (Returned, writeError env 404 e x)"
  "answers_error env x (Returned, writeError env 412 e x)"
  by (auto simp: answers_error_def)

lemma endpoint_stale:
  assumes "\<not> if_match_passes env r (api_config x)" and "m \<in> {''PUT'', ''POST'', ''DELETE''}"
  shows "answers_error env x (api_endpoint env m segs r x)"
proof -
  note s = change_stale [OF assms(1)]
  have "answers_error env x (putConfig env r x)" "answers_error env x (createSite env r x)"
    "answers_error env x (no_endpoint env r x)"
    by (auto simp: putConfig_def createSite_def no_endpoint_def s Let_def split: sum.split)
  moreover have "answers_error env x (putSite env i r x)" "answers_error env x (deleteSite env i r x)" for i
    by (auto simp: putSite_def deleteSite_def s Let_def split: sum.split)
  ultimately show ?thesis
    using assms(2) by (auto simp: api_endpoint_def Let_def split: list.split)
qed

lemma answers_error_effect:
  assumes "answers_error env x res" and "fresh x"
  shows "x_shared (snd res) = x_shared x" and "status_of (snd res) \<in> {400, 404, 412}"
  using assms by (auto simp: answers_error_def status_writeError)



text \<open>With a token set, a request without it is answered 401, changes nothing, and its response
  does not depend on the state of the server or the saved configuration.\<close>

theorem api_requires_token:
  assumes "cleanPath (escapedPath (r_url r)) = escapedPath (r_url r)" and "u_path (r_url r) \<noteq> ''*''" and "r_method r \<noteq> ''CONNECT''"
    and "ap_token env \<noteq> []" and "headerGet (r_header r) ''Authorization'' \<noteq> ''Bearer '' @ ap_token env" and "fresh x"
  shows "x_shared (snd (api_serve env r x)) = x_shared x \<and> status_of (snd (api_serve env r x)) = 401 \<and>
    x_tracker (snd (api_serve env r (x\<lparr>x_shared := w\<rparr>))) = x_tracker (snd (api_serve env r x))"
proof -
  have "\<not> api_authorized env r"
    using assms(4,5) by (auto simp: api_authorized_def cutPrefix_def hasPrefix_iff split: if_splits)
  moreover have "status_of (writeError env 401 d (setHeader n v x)) = 401" for d n v using assms(6) by (intro status_writeError) simp_all
  ultimately show ?thesis
    by (simp add: api_dispatched [OF assms(1,3,2)] api_handle_def writeError_def writeJSON_def writeBody_def
        writeHeader_def setHeader_def on_tracker_def)
qed

theorem api_requires_token_witness:
  "case New sample_ops sample_options sample_config sample_heap of
     Inl _ \<Rightarrow> False
   | Inr s \<Rightarrow> status_of (snd (api_serve api_sample_env (sample_put ''*'') (api_sample_exchange s))) = 401"
proof -
  obtain s where s: "New sample_ops sample_options sample_config sample_heap = Inr s" using sample_New by blast
  have "canonicalKey ''Authorization'' = ''Authorization''" by code_simp
  then have "headerGet (r_header (sample_put ''*'')) ''Authorization'' \<noteq> ''Bearer '' @ ap_token api_sample_env"
    by (simp add: sample_put_def headerGet_def headerValues_def)
  from api_requires_token [OF sample_put_clean(1,2) _ _ this api_sample_exchange_fresh] show ?thesis
    by (simp add: s sample_put_clean(3) api_sample_env_def)
qed

section \<open>Sites as a map\<close>

definition site_map :: "Config \<Rightarrow> string \<Rightarrow> Site option" where
  "site_map c i = find (\<lambda>s. site_ID s = i) (c_sites c)"

definition unique_sites :: "Config \<Rightarrow> bool" where
  "unique_sites c \<longleftrightarrow> distinct (filter (\<lambda>i. i \<noteq> []) (map site_ID (c_sites c)))"

lemma compile_unique: "compile cfg opts prev h = Inr (s, h') \<Longrightarrow> unique_sites cfg"
  unfolding unique_sites_def by (erule compile_Inr) (erule compile_sites_Inr(2))

lemma Apply_config:
  assumes "server_ok s" and "applyLocked ops net opts config s = (res, s')" and "unique_sites (server_config s)"
  shows "unique_sites (server_config s')"
proof (cases res)
  case (Inl e)
  then show ?thesis using apply_failed(1) [OF assms(1)] assms(2,3) by (simp add: held_def server_config_def)
next
  case (Inr u)
  then have app: "Apply ops net opts config s = (Inr (), s')" using assms(2) by (simp add: Apply_def)
  obtain nxt h where "compile config opts (Some (srv_current s)) (srv_heap s) = Inr (nxt, h)"
    using assms(2) Inr by (cases "compile config opts (Some (srv_current s)) (srv_heap s)") (auto simp: applyLocked_def)
  then show ?thesis using Apply_success(1) [OF assms(1) app] compile_unique by (simp add: server_config_def)
qed

lemma step_unique: "server_step ops s s' \<Longrightarrow> server_ok s \<Longrightarrow> unique_sites (server_config s) \<Longrightarrow> unique_sites (server_config s')"
proof (induction rule: server_step.induct)
  case (applying net opts config s res s')
  then show ?case using Apply_config by (simp add: Apply_def)
next
  case (updating net opts modify s res s')
  then show ?case using Apply_config by (fastforce simp: Update_def split: sum.splits)
next
  case (starting net s res s')
  then show ?case using Start_outcome [of s net res s'] by (cases "srv_started s") (auto simp: Start_def server_config_def held_def)
next
  case (stopping shut drained s res s')
  then show ?case using Shutdown_outcome(5) [of s shut drained res s'] by (simp add: server_config_def)
next
  case (refreshing s tls)
  then show ?case by (simp add: refresh_tick_def refreshCertificatesLocked_def Let_def server_config_def split: sum.split)
next
  case (failing s name e)
  then show ?case by (simp add: serve_fails_def server_config_def close_socket_def split: option.split)
qed (simp_all add: server_config_def)

lemma reachable_unique: "reachable ops s \<Longrightarrow> unique_sites (server_config s)"
proof -
  assume "reachable ops s"
  then obtain opts config h s0 where n: "New ops opts config h = Inr s0" and r: "(server_step ops)\<^sup>*\<^sup>* s0 s"
    by (auto simp: reachable_def)
  then obtain snap h' where c: "compile config opts None h = Inr (snap, h')" and s0: "srv_current s0 = snap"
    by (auto simp: New_def rbind_Inr_iff)
  have "sn_config snap = config" by (rule compile_Inr [OF c])
  then have "server_ok s0 \<and> unique_sites (server_config s0)"
    using New_ok [OF n] compile_unique [OF c] s0 by (simp add: server_config_def)
  with r have "server_ok s \<and> unique_sites (server_config s)"
    by (induction rule: rtranclp_induct) (auto intro: step_keeps step_unique)
  then show "unique_sites (server_config s)" by simp
qed

text \<open>The index finds the first site with the identity, and splits the list there.\<close>

lemma siteIndex_Some:
  assumes "siteIndex c i = Some n"
  obtains xs s ys where "c_sites c = xs @ s # ys" "n = length xs" "site_ID s = i" "\<forall>s' \<in> set xs. site_ID s' \<noteq> i"
proof -
  let ?p = "\<lambda>s. site_ID s \<noteq> i"
  have n: "n = length (takeWhile ?p (c_sites c))" "n < length (c_sites c)"
    using assms by (auto simp: siteIndex_def Let_def split: if_splits)
  then have d: "dropWhile ?p (c_sites c) \<noteq> []" by (metis append_Nil2 less_irrefl takeWhile_dropWhile_id)
  then obtain s ys where s: "dropWhile ?p (c_sites c) = s # ys" by (cases "dropWhile ?p (c_sites c)") auto
  have "site_ID s = i" using hd_dropWhile [OF d] s by simp
  moreover have "c_sites c = takeWhile ?p (c_sites c) @ s # ys" using s by (metis takeWhile_dropWhile_id)
  moreover have "\<forall>s' \<in> set (takeWhile ?p (c_sites c)). site_ID s' \<noteq> i" by (auto dest: set_takeWhileD)
  ultimately show thesis using that [of "takeWhile ?p (c_sites c)" s ys] n(1) by blast
qed

lemma siteIndex_None: "siteIndex c i = None \<longleftrightarrow> (\<forall>s \<in> set (c_sites c). site_ID s \<noteq> i)"
proof -
  have "length (takeWhile (\<lambda>s. site_ID s \<noteq> i) (c_sites c)) < length (c_sites c) \<longleftrightarrow> takeWhile (\<lambda>s. site_ID s \<noteq> i) (c_sites c) \<noteq> c_sites c"
    by (metis append_Nil2 append_eq_conv_conj length_takeWhile_le nat_less_le takeWhile_eq_take take_all_iff)
  then show ?thesis by (simp add: siteIndex_def Let_def takeWhile_eq_all_conv)
qed

lemma find_append: "find P (xs @ ys) = (case find P xs of None \<Rightarrow> find P ys | Some x \<Rightarrow> Some x)"
  by (induction xs) auto

lemma find_none: "find P xs = None \<longleftrightarrow> (\<forall>x \<in> set xs. \<not> P x)"
  by (induction xs) auto

lemma site_map_index: "site_map c i = map_option ((!) (c_sites c)) (siteIndex c i)"
proof (cases "siteIndex c i")
  case None
  then show ?thesis using siteIndex_None [of c i] by (simp add: site_map_def find_none)
next
  case (Some n)
  then obtain xs s ys where "c_sites c = xs @ s # ys" "n = length xs" "site_ID s = i" "\<forall>s' \<in> set xs. site_ID s' \<noteq> i"
    by (rule siteIndex_Some)
  moreover from this have "find (\<lambda>s. site_ID s = i) xs = None" by (simp add: find_none)
  ultimately show ?thesis using Some by (simp add: site_map_def find_append)
qed

lemma site_map_add:
  assumes "add_site site (site_ID site) c = Inr c'"
  shows "site_map c (site_ID site) = None \<and> site_map c' = (site_map c)(site_ID site \<mapsto> site)"
proof -
  have n: "siteIndex c (site_ID site) = None" and c': "c' = c\<lparr>c_sites := c_sites c @ [site]\<rparr>"
    using assms by (auto simp: add_site_def split: if_splits)
  have "site_map c (site_ID site) = None" using n by (simp add: site_map_index)
  then show ?thesis by (auto simp: fun_eq_iff site_map_def c' find_append split: option.split)
qed

lemma site_map_replace:
  assumes "replace_site site i c = Inr c'" and "site_ID site = i"
  shows "site_map c i \<noteq> None \<and> site_map c' = (site_map c)(i \<mapsto> site)"
proof -
  obtain n where n: "siteIndex c i = Some n" and c': "c' = c\<lparr>c_sites := (c_sites c)[n := site]\<rparr>"
    using assms(1) by (auto simp: replace_site_def split: option.splits)
  from n obtain xs s ys where s: "c_sites c = xs @ s # ys" "n = length xs" "site_ID s = i" "\<forall>s' \<in> set xs. site_ID s' \<noteq> i"
    by (rule siteIndex_Some)
  have "find (\<lambda>s. site_ID s = i) xs = None" using s(4) by (simp add: find_none)
  then show ?thesis using s assms(2) n
    by (auto simp: fun_eq_iff site_map_def c' find_append site_map_index [unfolded site_map_def] split: option.split)
qed

lemma site_map_remove:
  assumes "remove_site i c = Inr c'" and "unique_sites c" and "i \<noteq> []"
  shows "site_map c i \<noteq> None \<and> site_map c' = (site_map c)(i := None)"
proof -
  obtain n where n: "siteIndex c i = Some n" and c': "c' = c\<lparr>c_sites := take n (c_sites c) @ drop (Suc n) (c_sites c)\<rparr>"
    using assms(1) by (auto simp: remove_site_def split: option.splits)
  from n obtain xs s ys where s: "c_sites c = xs @ s # ys" "n = length xs" "site_ID s = i" "\<forall>s' \<in> set xs. site_ID s' \<noteq> i"
    by (rule siteIndex_Some)
  have sites: "c_sites c' = xs @ ys" by (simp add: c' s(1,2))
  have "i \<notin> site_ID ` set ys"
    using assms(2,3) s(3) by (auto simp: unique_sites_def s(1) split: if_splits)
  then have "\<forall>s' \<in> set ys. site_ID s' \<noteq> i" by blast
  then have none: "find (\<lambda>s. site_ID s = i) xs = None" "find (\<lambda>s. site_ID s = i) ys = None"
    using s(4) by (simp_all add: find_none)
  show ?thesis
    using s(3) none by (auto simp: fun_eq_iff site_map_def sites s(1) find_append split: option.split)
qed

text \<open>A change either keeps the configuration or applies the modification.\<close>

lemma change_config:
  assumes "server_ok (aw_server (x_shared x))" and "change env r modify x = (res, x')"
  shows "api_config x' = api_config x \<or> modify (api_config x) = Inr (api_config x')"
  using change_outcome(1) [OF assms]
  by (auto simp: change_ends_def refused_def guarded_if split: if_splits)

lemma change_config_snd:
  assumes "server_ok (aw_server (x_shared x))"
  shows "api_config (snd (change env r modify x)) = api_config x \<or> modify (api_config x) = Inr (api_config (snd (change env r modify x)))"
  by (rule change_config [OF assms, of env r modify "fst (change env r modify x)"]) simp

lemma if_response [simp]:
  "api_config (if b then writeJSON env c v x else x) = api_config x"
  "api_config (if b then writeJSON env c v (setHeader n w x) else x) = api_config x"
  "api_config (if b then writeHeader c x else x) = api_config x"
  by simp_all



end
