(* ===== verification/Duration.thy ===== *)
theory Duration
  imports Go_Strings
begin

text \<open>
  The text of a duration: \<open>String\<close> and \<open>ParseDuration\<close> of Go's \<open>time\<close> package, on
  which \<open>Duration\<close> of \<open>encoding.go\<close> rests. A duration is an \<open>int64\<close> of
  nanoseconds; the parser adds unsigned 64-bit terms, so its sum wraps at
  \<open>2 ^ 64\<close> and is checked against \<open>2 ^ 63\<close>. A fraction is scaled to nanoseconds
  exactly, rounded down; the code computes it in floating point, which is exact
  whenever the unit is a multiple of the scale (as in every text that \<open>String\<close>
  writes).
\<close>

section \<open>Writing\<close>

definition microUnit :: string where
  "microUnit = [CHR 0xC2, CHR 0xB5, CHR ''s'']"

text \<open>\<open>fmtFrac\<close>: the fraction of \<open>v / 10 ^ prec\<close> without trailing zeros, and its
  whole part.\<close>

fun fmtFrac :: "nat \<Rightarrow> nat \<Rightarrow> string \<Rightarrow> string \<times> nat" where
  "fmtFrac 0 v acc = (if acc = [] then [] else CHR ''.'' # acc, v)"
| "fmtFrac (Suc prec) v acc =
     fmtFrac prec (v div 10) (if acc = [] \<and> v mod 10 = 0 then [] else char_of (48 + v mod 10) # acc)"

definition dur_small :: "nat \<Rightarrow> string" where
  "dur_small u =
     (if u = 0 then ''0s''
      else if u < 1000 then itoa_nat u @ ''ns''
      else if u < 1000000 then (let (f, v) = fmtFrac 3 u [] in itoa_nat v @ f @ microUnit)
      else (let (f, v) = fmtFrac 6 u [] in itoa_nat v @ f @ ''ms''))"

definition dur_hms :: "nat \<Rightarrow> string" where
  "dur_hms u =
     (let (f, secs) = fmtFrac 9 u []; mins = secs div 60; hours = mins div 60
      in (if 0 < hours then itoa_nat hours @ ''h'' else []) @
         (if 0 < mins then itoa_nat (mins mod 60) @ ''m'' else []) @
         itoa_nat (secs mod 60) @ f @ ''s'')"

definition dur_string :: "int \<Rightarrow> string" where
  "dur_string d =
     (if d < 0 then ''-'' else []) @
     (let u = nat \<bar>d\<bar> in if u < 1000000000 then dur_small u else dur_hms u)"

section \<open>Reading\<close>

definition unitMap :: "(string \<times> nat) list" where
  "unitMap = [(''ns'', 1), (''us'', 1000), (microUnit, 1000), ([CHR 0xCE, CHR 0xBC, CHR ''s''], 1000),
              (''ms'', 1000000), (''s'', 1000000000), (''m'', 60000000000), (''h'', 3600000000000)]"

fun leadingInt :: "nat \<Rightarrow> string \<Rightarrow> (nat \<times> string) option" where
  "leadingInt x [] = Some (x, [])"
| "leadingInt x (c # cs) =
     (if \<not> is_digit c then Some (x, c # cs)
      else if 2 ^ 63 div 10 < x then None
      else if 2 ^ 63 < 10 * x + digit_val c then None
      else leadingInt (10 * x + digit_val c) cs)"

fun leadingFraction :: "nat \<Rightarrow> nat \<Rightarrow> bool \<Rightarrow> string \<Rightarrow> nat \<times> nat \<times> string" where
  "leadingFraction x scale over [] = (x, scale, [])"
| "leadingFraction x scale over (c # cs) =
     (if \<not> is_digit c then (x, scale, c # cs)
      else if over \<or> (2 ^ 63 - 1) div 10 < x \<or> 2 ^ 63 < 10 * x + digit_val c then leadingFraction x scale True cs
      else leadingFraction (10 * x + digit_val c) (10 * scale) False cs)"

definition unit_char :: "char \<Rightarrow> bool" where
  "unit_char c \<longleftrightarrow> c \<noteq> CHR ''.'' \<and> \<not> is_digit c"

text \<open>A number, its optional fraction and its unit; what is left of the text.\<close>

definition fraction_of :: "string \<Rightarrow> nat \<times> nat \<times> bool \<times> string" where
  "fraction_of s =
     (case s of
        [] \<Rightarrow> (0, 1, False, [])
      | c # t \<Rightarrow>
          if c = CHR ''.'' then (let (f, scale, rest) = leadingFraction 0 1 False t
                                 in (f, scale, length rest \<noteq> length t, rest))
          else (0, 1, False, s))"

definition parse_term :: "string \<Rightarrow> (nat \<times> string) option" where
  "parse_term s =
     (if s = [] \<or> unit_char (hd s) then None
      else case leadingInt 0 s of
        None \<Rightarrow> None
      | Some (v, s1) \<Rightarrow>
          (let (f, scale, post, s2) = fraction_of s1;
               u = takeWhile unit_char s2
           in if length s1 = length s \<and> \<not> post \<or> u = [] then None
              else case map_of unitMap u of
                None \<Rightarrow> None
              | Some unit \<Rightarrow>
                  if 2 ^ 63 div unit < v then None
                  else if 0 < f \<and> 2 ^ 63 < v * unit + f * unit div scale then None
                  else Some (v * unit + f * unit div scale, dropWhile unit_char s2)))"

lemma leadingInt_length: "leadingInt x s = Some (v, t) \<Longrightarrow> length t \<le> length s"
  by (induction x s rule: leadingInt.induct) (auto split: if_splits)

lemma leadingFraction_length: "length (snd (snd (leadingFraction x sc ov s))) \<le> length s"
  by (induction x sc ov s rule: leadingFraction.induct) (auto simp: le_SucI)

lemma fraction_length: "fraction_of s = (f, sc, p, t) \<Longrightarrow> length t \<le> length s"
  using leadingFraction_length [of 0 1 False "tl s"]
  by (auto simp: fraction_of_def split: list.splits if_splits prod.splits)

lemma dropWhile_shorter: "takeWhile P s \<noteq> [] \<Longrightarrow> length (dropWhile P s) < length s"
  by (cases s) (auto simp: le_imp_less_Suc length_dropWhile_le split: if_splits)

lemma parse_term_length:
  assumes "parse_term s = Some (v, t)"
  shows "length t < length s"
proof -
  obtain w s1 where 1: "leadingInt 0 s = Some (w, s1)"
    using assms by (auto simp: parse_term_def split: if_splits option.splits)
  obtain f sc p s2 where 2: "fraction_of s1 = (f, sc, p, s2)"
    by (cases "fraction_of s1")
  have "takeWhile unit_char s2 \<noteq> []" "t = dropWhile unit_char s2"
    using assms 1 2 by (auto simp: parse_term_def Let_def split: if_splits option.splits)
  then have "length t < length s2" using dropWhile_shorter by simp
  with leadingInt_length [OF 1] fraction_length [OF 2] show ?thesis by simp
qed

function parse_terms :: "nat \<Rightarrow> string \<Rightarrow> nat option" where
  "parse_terms d s =
     (if s = [] then Some d
      else case parse_term s of
        None \<Rightarrow> None
      | Some (v, rest) \<Rightarrow>
          (let e = (d + v) mod 2 ^ 64 in if 2 ^ 63 < e then None else parse_terms e rest))"
  by pat_completeness auto
termination
  by (relation "measure (\<lambda>(d, s). length s)") (auto simp: parse_term_length)

declare parse_terms.simps [simp del]

definition parseDuration :: "string \<Rightarrow> int option" where
  "parseDuration text =
     (let neg = (text \<noteq> [] \<and> hd text = CHR ''-'');
          s = (if text \<noteq> [] \<and> (hd text = CHR ''-'' \<or> hd text = CHR ''+'') then tl text else text)
      in if s = ''0'' then Some 0
         else if s = [] then None
         else case parse_terms 0 s of
           None \<Rightarrow> None
         | Some d \<Rightarrow>
             if neg then Some (- int d)
             else if 2 ^ 63 - 1 < d then None
             else Some (int d))"

section \<open>Digits\<close>

lemma digits_val_mono: "x \<le> digits_val x ds"
proof (induction ds arbitrary: x)
  case (Cons c cs)
  have "x \<le> 10 * x + digit_val c" by simp
  also have "\<dots> \<le> digits_val (10 * x + digit_val c) cs" by (rule Cons.IH)
  finally show ?case by simp
qed simp

lemma digits_val_bound_step:
  fixes N :: nat
  assumes "digits_val (10 * x + d) cs \<le> N"
  shows "10 * x + d \<le> N" "x \<le> N div 10"
proof -
  show *: "10 * x + d \<le> N"
    using digits_val_mono [of "10 * x + d" cs] assms by simp
  then have "10 * x div 10 \<le> N div 10" by (intro div_le_mono) simp
  then show "x \<le> N div 10" by simp
qed

lemma leadingInt_digits:
  assumes "list_all is_digit ds" "rest = [] \<or> \<not> is_digit (hd rest)" "digits_val x ds \<le> 2 ^ 63"
  shows "leadingInt x (ds @ rest) = Some (digits_val x ds, rest)"
  using assms
proof (induction ds arbitrary: x)
  case Nil
  then show ?case by (cases rest) auto
next
  case (Cons c cs)
  then have "digits_val (10 * x + digit_val c) cs \<le> 2 ^ 63" by simp
  from digits_val_bound_step [OF this] Cons show ?case by (simp add: not_less)
qed

lemma leadingFraction_digits:
  assumes "list_all is_digit ds" "rest = [] \<or> \<not> is_digit (hd rest)" "digits_val x ds \<le> 2 ^ 63 - 1"
  shows "leadingFraction x sc False (ds @ rest) = (digits_val x ds, sc * 10 ^ length ds, rest)"
  using assms
proof (induction ds arbitrary: x sc)
  case Nil
  then show ?case by (cases rest) auto
next
  case (Cons c cs)
  then have le: "digits_val (10 * x + digit_val c) cs \<le> 2 ^ 63 - 1" by simp
  note bounds = digits_val_bound_step [OF this]
  have "leadingFraction x sc False ((c # cs) @ rest) =
      leadingFraction (10 * x + digit_val c) (10 * sc) False (cs @ rest)"
    using bounds Cons.prems(1) by simp
  also have "\<dots> = (digits_val (10 * x + digit_val c) cs, 10 * sc * 10 ^ length cs, rest)"
    using Cons.prems by (intro Cons.IH le) simp_all
  also have "10 * sc * 10 ^ length cs = sc * 10 ^ length (c # cs)" by simp
  finally show ?case by simp
qed

text \<open>What \<open>fmtFrac\<close> writes.\<close>

definition is_frac :: "nat \<Rightarrow> string \<Rightarrow> nat \<Rightarrow> bool" where
  "is_frac k f x \<longleftrightarrow> f = [] \<and> x = 0 \<or>
     (\<exists>ds. f = CHR ''.'' # ds \<and> ds \<noteq> [] \<and> list_all is_digit ds \<and> length ds \<le> k \<and>
           digits_val 0 ds * 10 ^ (k - length ds) = x)"

lemma mod_Suc_power: "(v :: nat) mod 10 ^ Suc k = v mod 10 + 10 * (v div 10 mod 10 ^ k)"
  using mod_mult2_eq [of v 10 "10 ^ k"] by simp

lemma fmtFrac_full:
  "acc \<noteq> [] \<Longrightarrow> \<exists>ds. fmtFrac k v acc = (CHR ''.'' # ds @ acc, v div 10 ^ k) \<and> length ds = k \<and>
     list_all is_digit ds \<and> digits_val 0 ds = v mod 10 ^ k"
proof (induction k arbitrary: v acc)
  case (Suc k)
  from Suc.IH [of "char_of (48 + v mod 10) # acc" "v div 10"] obtain ds where
    *: "fmtFrac k (v div 10) (char_of (48 + v mod 10) # acc) =
        (CHR ''.'' # ds @ char_of (48 + v mod 10) # acc, v div 10 div 10 ^ k)"
       "length ds = k" "list_all is_digit ds" "digits_val 0 ds = v div 10 mod 10 ^ k" by auto
  have "list_all is_digit (ds @ [char_of (48 + v mod 10)])"
    "digits_val 0 (ds @ [char_of (48 + v mod 10)]) = v mod 10 ^ Suc k"
    using * digit_char [of "v mod 10"] unfolding mod_Suc_power by (simp_all add: digits_val_append)
  with * Suc.prems show ?case
    by (intro exI [of _ "ds @ [char_of (48 + v mod 10)]"]) (simp add: div_mult2_eq)
qed simp

lemma fmtFrac_whole: "snd (fmtFrac k v acc) = v div 10 ^ k"
  by (induction k v acc rule: fmtFrac.induct) (simp_all add: div_mult2_eq)

lemma fmtFrac_frac: "is_frac k (fst (fmtFrac k v [])) (v mod 10 ^ k)"
proof (induction k arbitrary: v)
  case 0
  show ?case by (simp add: is_frac_def)
next
  case (Suc k)
  show ?case
  proof (cases "v mod 10 = 0")
    case True
    then have eq: "fmtFrac (Suc k) v [] = fmtFrac k (v div 10) []" "v mod 10 ^ Suc k = 10 * (v div 10 mod 10 ^ k)"
      unfolding mod_Suc_power by simp_all
    have "is_frac (Suc k) f (10 * x)" if "is_frac k f x" for f x
      using that unfolding is_frac_def by (auto simp: Suc_diff_le algebra_simps)
    with Suc.IH [of "v div 10"] show ?thesis unfolding eq by blast
  next
    case False
    then obtain ds where *: "fmtFrac (Suc k) v [] = (CHR ''.'' # ds @ [char_of (48 + v mod 10)], v div 10 div 10 ^ k)"
       "length ds = k" "list_all is_digit ds" "digits_val 0 ds = v div 10 mod 10 ^ k"
      using fmtFrac_full [of "[char_of (48 + v mod 10)]" k "v div 10"] by auto
    have "list_all is_digit (ds @ [char_of (48 + v mod 10)])"
      "digits_val 0 (ds @ [char_of (48 + v mod 10)]) = v mod 10 ^ Suc k"
      using * digit_char [of "v mod 10"] unfolding mod_Suc_power by (simp_all add: digits_val_append)
    with * show ?thesis unfolding is_frac_def
      by (intro disjI2 exI [of _ "ds @ [char_of (48 + v mod 10)]"]) simp
  qed
qed

section \<open>What is written reads back\<close>

definition unit_text :: "string \<Rightarrow> bool" where
  "unit_text u \<longleftrightarrow> u \<noteq> [] \<and> list_all unit_char u"

lemma takeWhile_unit:
  assumes "unit_text u" "rest = [] \<or> is_digit (hd rest)"
  shows "takeWhile unit_char (u @ rest) = u" "dropWhile unit_char (u @ rest) = rest"
proof -
  have "takeWhile unit_char rest = []" "dropWhile unit_char rest = rest"
    using assms(2) by (cases rest; simp add: unit_char_def)+
  moreover have "\<forall>c \<in> set u. unit_char c" using assms(1) by (simp add: unit_text_def list_all_iff)
  ultimately show "takeWhile unit_char (u @ rest) = u" "dropWhile unit_char (u @ rest) = rest"
    by (simp_all add: takeWhile_append2 dropWhile_append2)
qed

lemma unit_char_digit: "unit_char c \<Longrightarrow> \<not> is_digit c \<and> c \<noteq> CHR ''.''"
  by (simp add: unit_char_def)

lemma unit_text_hd: "unit_text u \<Longrightarrow> u @ rest \<noteq> [] \<and> unit_char (hd (u @ rest))"
  by (cases u) (simp_all add: unit_text_def)

lemma fraction_of_none:
  assumes "unit_text u"
  shows "fraction_of (u @ rest) = (0, 1, False, u @ rest)"
  using assms by (cases u) (auto simp: unit_text_def fraction_of_def unit_char_def)

lemma fraction_of_digits:
  assumes "unit_text u" "ds \<noteq> []" "list_all is_digit ds" "digits_val 0 ds \<le> 2 ^ 63 - 1"
  shows "fraction_of (CHR ''.'' # ds @ u @ rest) = (digits_val 0 ds, 10 ^ length ds, True, u @ rest)"
proof -
  have "\<not> is_digit (hd (u @ rest))" using unit_text_hd [OF assms(1)] unit_char_digit by blast
  then have "leadingFraction 0 1 False (ds @ u @ rest) = (digits_val 0 ds, 1 * 10 ^ length ds, u @ rest)"
    using assms by (intro leadingFraction_digits) simp_all
  then show ?thesis using assms(2) by (simp add: fraction_of_def)
qed

lemma itoa_nat_hd: "itoa_nat n \<noteq> []" "is_digit (hd (itoa_nat n @ s))"
  using itoa_nat_digits [of n] by (cases "itoa_nat n"; simp)+

text \<open>One term: a whole number, a fraction of at most \<open>k\<close> digits of a unit of
  \<open>10 ^ k\<close> nanoseconds, and the unit.\<close>

lemma parse_term_text:
  assumes unit: "map_of unitMap u = Some un" "unit_text u"
    and rest: "rest = [] \<or> is_digit (hd rest)"
    and f: "is_frac k f x" "f \<noteq> [] \<Longrightarrow> un = 10 ^ k"
    and le: "n * un + x \<le> 2 ^ 63" "x \<le> 2 ^ 63 - 1" "0 < un" "n \<le> 2 ^ 63"
  shows "parse_term (itoa_nat n @ f @ u @ rest) = Some (n * un + x, rest)"
proof -
  have hd: "\<not> (itoa_nat n @ f @ u @ rest = [] \<or> unit_char (hd (itoa_nat n @ f @ u @ rest)))"
    using itoa_nat_hd [of n] by (auto simp: unit_char_def)
  have nd: "\<not> is_digit (hd (f @ u @ rest))" "f @ u @ rest \<noteq> []"
    using f(1) unit_text_hd [OF unit(2), of rest] by (auto simp: is_frac_def unit_char_def is_digit_def)
  then have int: "leadingInt 0 (itoa_nat n @ f @ u @ rest) = Some (n, f @ u @ rest)"
    using leadingInt_digits [of "itoa_nat n" "f @ u @ rest" 0] itoa_nat_digits [of n] le(4)
    by (simp add: digits_val_itoa)
  have len: "length (f @ u @ rest) \<noteq> length (itoa_nat n @ f @ u @ rest)"
    using itoa_nat_hd(1) [of n] by simp
  obtain v sc p where fr: "fraction_of (f @ u @ rest) = (v, sc, p, u @ rest)" and v: "v * un div sc = x"
  proof (cases "f = []")
    case True
    with f(1) have "x = 0" by (auto simp: is_frac_def)
    with True show thesis using that [of 0 1 False] fraction_of_none [OF unit(2)] by simp
  next
    case False
    then obtain ds where ds: "f = CHR ''.'' # ds" "ds \<noteq> []" "list_all is_digit ds" "length ds \<le> k"
      "digits_val 0 ds * 10 ^ (k - length ds) = x" using f(1) by (auto simp: is_frac_def)
    have "digits_val 0 ds * 1 \<le> digits_val 0 ds * 10 ^ (k - length ds)" by (intro mult_le_mono) simp_all
    then have "digits_val 0 ds \<le> 2 ^ 63 - 1" using ds(5) le(2) by simp
    moreover have "un = 10 ^ (k - length ds) * 10 ^ length ds"
      using f(2) [OF False] ds(4) by (simp add: power_add [symmetric])
    ultimately show thesis
      using that fraction_of_digits [OF unit(2) ds(2, 3)] ds(1, 5)
      by (simp add: mult.assoc [symmetric])
  qed
  have "n * un \<le> 2 ^ 63" using le(1) by linarith
  then have "n * un div un \<le> 2 ^ 63 div un" by (rule div_le_mono)
  then have nle: "\<not> 2 ^ 63 div un < n" using le(3) by simp
  show ?thesis
    unfolding parse_term_def if_not_P [OF hd] int option.case prod.case fr Let_def
      takeWhile_unit [OF unit(2) rest] unit(1) v
    using len nle le(1) unit(2) by (simp add: unit_text_def)
qed

lemma parse_terms_text:
  assumes "map_of unitMap u = Some un" "unit_text u" "rest = [] \<or> is_digit (hd rest)"
    "is_frac k f x" "f \<noteq> [] \<Longrightarrow> un = 10 ^ k" "d + (n * un + x) \<le> 2 ^ 63" "x \<le> 2 ^ 63 - 1" "0 < un"
  shows "parse_terms d (itoa_nat n @ f @ u @ rest) = parse_terms (d + (n * un + x)) rest"
proof -
  have "n * 1 \<le> n * un" using assms(8) by (intro mult_le_mono) simp_all
  then have "parse_term (itoa_nat n @ f @ u @ rest) = Some (n * un + x, rest)"
    using assms by (intro parse_term_text [OF assms(1-5)]) linarith+
  moreover have "(d + (n * un + x)) mod 2 ^ 64 = d + (n * un + x)"
    using assms(6) by (intro mod_less) simp
  ultimately show ?thesis
    using assms(6) itoa_nat_hd(1) [of n] by (simp add: parse_terms.simps [of d])
qed

lemmas parse_whole = parse_terms_text [where f = "[]" and x = 0 and k = 0, unfolded append_Nil add_0_right]

lemma is_frac_Nil: "is_frac k [] 0"
  by (simp add: is_frac_def)

lemma units:
  "map_of unitMap ''ns'' = Some 1" "map_of unitMap microUnit = Some 1000"
  "map_of unitMap ''ms'' = Some 1000000" "map_of unitMap ''s'' = Some 1000000000"
  "map_of unitMap ''m'' = Some 60000000000" "map_of unitMap ''h'' = Some 3600000000000"
  by (simp_all add: unitMap_def microUnit_def)

lemma unit_texts:
  "unit_text ''ns''" "unit_text microUnit" "unit_text ''ms''" "unit_text ''s''" "unit_text ''m''" "unit_text ''h''"
  by (simp_all add: unit_text_def microUnit_def unit_char_def is_digit_def)

lemma parse_terms_Nil [simp]: "parse_terms d [] = Some d"
  by (simp add: parse_terms.simps)

lemma parse_one_frac:
  assumes "map_of unitMap u = Some (10 ^ k)" "unit_text u" "d + v \<le> 2 ^ 63" "v mod 10 ^ k \<le> 2 ^ 63 - 1"
  shows "parse_terms d (itoa_nat (v div 10 ^ k) @ fst (fmtFrac k v []) @ u) = Some (d + v)"
  using parse_terms_text [OF assms(1, 2), of "[]" k "fst (fmtFrac k v [])" "v mod 10 ^ k" d "v div 10 ^ k"] assms(3, 4)
  by (simp add: fmtFrac_frac div_mult_mod_eq)

lemma parse_small:
  assumes "u < 1000000000"
  shows "parse_terms 0 (dur_small u) = Some u"
proof -
  have big: "u \<le> 2 ^ 63" "u mod 10 ^ 3 \<le> 2 ^ 63 - 1" "u mod 10 ^ 6 \<le> 2 ^ 63 - 1"
    using assms mod_less_eq_dividend [of u "10 ^ 3"] mod_less_eq_dividend [of u "10 ^ 6"] by simp_all
  consider "u = 0" | "0 < u" "u < 1000" | "1000 \<le> u" "u < 1000000" | "1000000 \<le> u" by linarith
  then show ?thesis
  proof cases
    case 1
    have z: "''0s'' = itoa_nat 0 @ ''s''" by (simp add: itoa_nat.simps char_of_def bit_simps)
    show ?thesis using 1 parse_whole [OF units(4) unit_texts(4), of "[]" 0 0] is_frac_Nil
      unfolding dur_small_def z by simp
  next
    case 2
    then show ?thesis using parse_whole [OF units(1) unit_texts(1), of "[]" 0 u] is_frac_Nil big(1)
      unfolding dur_small_def by simp
  next
    case 3
    have "parse_terms 0 (itoa_nat (u div 10 ^ 3) @ fst (fmtFrac 3 u []) @ microUnit) = Some (0 + u)"
      by (rule parse_one_frac) (use units unit_texts big in simp_all)
    then show ?thesis using 3 fmtFrac_whole [of 3 u "[]"]
      unfolding dur_small_def by (simp add: case_prod_unfold)
  next
    case 4
    have "parse_terms 0 (itoa_nat (u div 10 ^ 6) @ fst (fmtFrac 6 u []) @ ''ms'') = Some (0 + u)"
      by (rule parse_one_frac) (use units unit_texts big in simp_all)
    then show ?thesis using 4 fmtFrac_whole [of 6 u "[]"]
      unfolding dur_small_def by (simp add: case_prod_unfold)
  qed
qed

lemma hms_sum:
  fixes u :: nat
  defines "secs \<equiv> u div 1000000000"
  shows "secs div 60 div 60 * 3600000000000 + secs div 60 mod 60 * 60000000000 +
         (secs mod 60 * 1000000000 + u mod 1000000000) = u"
proof -
  have "u = secs * 1000000000 + u mod 1000000000" unfolding secs_def by simp
  moreover have "secs = secs div 60 * 60 + secs mod 60" by simp
  moreover have "secs div 60 = secs div 60 div 60 * 60 + secs div 60 mod 60" by simp
  ultimately show ?thesis by linarith
qed

lemma parse_hms:
  assumes "u \<le> 2 ^ 63"
  shows "parse_terms 0 (dur_hms u) = Some u"
proof -
  define f where "f = fst (fmtFrac 9 u [])"
  define secs where "secs = u div 1000000000"
  define x where "x = u mod 1000000000"
  define mins where "mins = secs div 60"
  define hours where "hours = mins div 60"
  have fx: "is_frac 9 f x" using fmtFrac_frac [of 9 u] by (simp add: f_def x_def)
  have hms: "dur_hms u = (if 0 < hours then itoa_nat hours @ ''h'' else []) @
         (if 0 < mins then itoa_nat (mins mod 60) @ ''m'' else []) @ itoa_nat (secs mod 60) @ f @ ''s''"
    using fmtFrac_whole [of 9 u "[]"]
    by (simp add: dur_hms_def Let_def case_prod_unfold f_def hours_def mins_def secs_def)
  have sum: "hours * 3600000000000 + mins mod 60 * 60000000000 + (secs mod 60 * 1000000000 + x) = u"
    using hms_sum [of u] by (simp add: hours_def mins_def secs_def x_def)
  have x: "x \<le> 2 ^ 63 - 1" by (rule order.strict_implies_order, rule less_le_trans [of _ 1000000000]) (simp_all add: x_def)
  have S: "parse_terms d (itoa_nat (secs mod 60) @ f @ ''s'') = Some (d + (secs mod 60 * 1000000000 + x))"
    if "d + (secs mod 60 * 1000000000 + x) \<le> u" for d
    using parse_terms_text [OF units(4) unit_texts(4), of "[]" 9 f x d "secs mod 60"] fx x order_trans [OF that assms]
    by simp
  have M: "parse_terms d ((if 0 < mins then itoa_nat (mins mod 60) @ ''m'' else []) @ itoa_nat (secs mod 60) @ f @ ''s'')
      = Some (d + mins mod 60 * 60000000000 + (secs mod 60 * 1000000000 + x))"
    if "d + mins mod 60 * 60000000000 + (secs mod 60 * 1000000000 + x) \<le> u" for d
  proof (cases "0 < mins")
    case True
    have "d + mins mod 60 * 60000000000 \<le> 2 ^ 63" using that assms by linarith
    then show ?thesis
      using parse_whole [OF units(5) unit_texts(5), of "itoa_nat (secs mod 60) @ f @ ''s''" d "mins mod 60"]
        itoa_nat_hd(2) is_frac_Nil S [OF that] True by simp
  next
    case False
    then show ?thesis using S [of d] that by simp
  qed
  show ?thesis
  proof (cases "0 < hours")
    case True
    define t where "t = (if 0 < mins then itoa_nat (mins mod 60) @ ''m'' else []) @ itoa_nat (secs mod 60) @ f @ ''s''"
    have "is_digit (hd t)" using itoa_nat_hd(2) by (simp add: t_def)
    moreover have "hours * 3600000000000 \<le> 2 ^ 63" using sum assms by linarith
    ultimately have "parse_terms 0 (itoa_nat hours @ ''h'' @ t) = parse_terms (0 + hours * 3600000000000) t"
      by (intro parse_whole [OF units(6) unit_texts(6)]) (simp_all add: is_frac_Nil)
    also have "\<dots> = Some u" using M [of "hours * 3600000000000"] sum by (simp add: t_def)
    finally show ?thesis using True by (simp add: hms t_def)
  next
    case False
    then show ?thesis using M [of 0] sum by (simp add: hms)
  qed
qed

lemma dur_text_start:
  "\<exists>c t. (if u < 1000000000 then dur_small u else dur_hms u) = c # t \<and> is_digit c \<and> t \<noteq> []"
proof -
  have digit: "\<exists>c t. itoa_nat n @ s = c # t \<and> is_digit c \<and> t \<noteq> []" if "s \<noteq> []" for n s
    using that itoa_nat_digits [of n] by (cases "itoa_nat n") auto
  have "\<exists>c t. dur_small u = c # t \<and> is_digit c \<and> t \<noteq> []"
    using digit by (simp add: dur_small_def microUnit_def case_prod_unfold is_digit_def Let_def)
  moreover have "\<exists>c t. dur_hms u = c # t \<and> is_digit c \<and> t \<noteq> []"
    using digit by (simp add: dur_hms_def Let_def case_prod_unfold)
  ultimately show ?thesis by simp
qed

text \<open>Every \<open>int64\<close> duration survives its text, the least included.\<close>

lemma duration_roundtrip:
  assumes "- (2 ^ 63) \<le> d" "d < 2 ^ 63"
  shows "parseDuration (dur_string d) = Some d"
proof -
  define u where "u = nat \<bar>d\<bar>"
  define s where "s = (if u < 1000000000 then dur_small u else dur_hms u)"
  have u: "u \<le> 2 ^ 63" "d < 0 \<or> u \<le> 2 ^ 63 - 1" using assms by (auto simp: u_def)
  have p: "parse_terms 0 s = Some u"
    using parse_small parse_hms u(1) by (simp add: s_def)
  obtain c t where s: "s = c # t" "is_digit c" "t \<noteq> []"
    using dur_text_start [of u] unfolding s_def by blast
  then have c: "c \<noteq> CHR ''-''" "c \<noteq> CHR ''+''" by (auto simp: is_digit_def)
  have body: "dur_string d = (if d < 0 then CHR ''-'' # s else s)"
    by (simp add: dur_string_def s_def u_def)
  show ?thesis
  proof (cases "d < 0")
    case True
    then show ?thesis using p s by (simp add: body parseDuration_def u_def)
  next
    case False
    then show ?thesis using p s c u(2) by (simp add: body parseDuration_def u_def)
  qed
qed

text \<open>
  The sum of the terms wraps: two terms of \<open>2 ^ 63\<close> nanoseconds add up to no
  time at all, so this text is accepted and means zero.
\<close>

lemma duration_sum_wraps:
  defines "half \<equiv> itoa_nat (2 ^ 63) @ ''ns''"
  shows "parseDuration (half @ half) = Some 0"
proof -
  have split: "half @ t = itoa_nat (2 ^ 63) @ ''ns'' @ t" for t by (simp add: half_def)
  have digit: "is_digit (hd (half @ t))" "half @ t \<noteq> []" for t
    unfolding split using itoa_nat_hd by simp_all
  have "parse_term half = Some (2 ^ 63 * 1 + 0, [])"
    using parse_term_text [OF units(1) unit_texts(1), of "[]" 0 "[]" 0 "2 ^ 63"] is_frac_Nil split [of "[]"] by simp
  then have second: "parse_terms (2 ^ 63) half = Some 0"
    using digit(2) [of "[]"] by (simp add: parse_terms.simps [of _ half])
  have "parse_terms 0 (half @ half) = parse_terms (0 + 2 ^ 63 * 1) half"
    unfolding split [of half] by (rule parse_whole [OF units(1) unit_texts(1)]) (use digit [of "[]"] is_frac_Nil in simp_all)
  with second have "parse_terms 0 (half @ half) = Some 0" by simp
  moreover obtain c t where "half @ half = c # t" "is_digit c" "t \<noteq> []"
    using digit [of half] unfolding half_def by (cases "itoa_nat (2 ^ 63)") (auto simp: itoa_nat_hd)
  moreover from this(2) have "c \<noteq> CHR ''-''" "c \<noteq> CHR ''+''" by (auto simp: is_digit_def)
  ultimately show ?thesis by (simp add: parseDuration_def)
qed

end
