(* ===== verification/Json_Codec.thy ===== *)
theory Json_Codec
  imports Config Duration
begin

text \<open>
  What \<open>encoding.go\<close> uses of \<open>encoding/json\<close>: decoding a JSON value over a Go value
  and encoding it back, by kind and by the fields of a struct. A JSON text is
  the tree \<open>json\<close>; an object keeps the order and the duplicates of its keys. A
  number stands for its value, so \<open>1.0\<close> decodes to an integer here and is
  refused by the code. A decoder takes the old value, because a struct, a
  slice's elements and a pointer's target are decoded in place; the elements
  between a slice's length and its capacity, which a third duplicate of a key
  brings back, are not modelled. Strings are valid UTF-8.
\<close>

section \<open>Maps in the order of their keys\<close>

text \<open>\<open>json.Marshal\<close> writes a map in bytewise order of its keys; decoded maps are
  kept in that order.\<close>

fun byteLess :: "string \<Rightarrow> string \<Rightarrow> bool" where
  "byteLess a [] = False"
| "byteLess [] (d # b) = True"
| "byteLess (c # a) (d # b) = (of_char c < (of_char d :: nat) \<or> c = d \<and> byteLess a b)"

fun sput :: "string \<Rightarrow> 'v \<Rightarrow> (string, 'v) gomap \<Rightarrow> (string, 'v) gomap" where
  "sput k v [] = [(k, v)]"
| "sput k v (e # m) =
     (if k = fst e then (k, v) # m else if byteLess k (fst e) then (k, v) # e # m else e # sput k v m)"

definition sorted_map :: "(string \<times> 'v) list \<Rightarrow> (string, 'v) gomap" where
  "sorted_map kvs = foldl (\<lambda>m (k, v). sput k v m) [] kvs"

definition sorted_keys :: "(string \<times> 'v) list \<Rightarrow> bool" where
  "sorted_keys m = sorted_wrt byteLess (map fst m)"

lemma byteLess_irrefl [simp]: "\<not> byteLess a a"
  by (induction a) auto

lemma byteLess_trans: "byteLess a b \<Longrightarrow> byteLess b c \<Longrightarrow> byteLess a c"
proof (induction a b arbitrary: c rule: byteLess.induct)
  case (2 d b)
  then show ?case by (cases c) simp_all
next
  case (3 x a y b)
  then show ?case by (cases c) auto
qed simp

lemma byteLess_linear: "a = b \<or> byteLess a b \<or> byteLess b a"
proof (induction a b rule: byteLess.induct)
  case (1 a)
  then show ?case by (cases a) simp_all
next
  case (3 x a y b)
  have "of_char x = (of_char y :: nat) \<longleftrightarrow> x = y" by simp
  with 3 show ?case by (metis byteLess.simps(3) linorder_neq_iff)
qed simp

lemma sorted_keys_simps [simp]:
  "sorted_keys []"
  "sorted_keys (e # m) \<longleftrightarrow> (\<forall>x \<in> set m. byteLess (fst e) (fst x)) \<and> sorted_keys m"
  by (auto simp: sorted_keys_def)

lemma sorted_keys_append:
  "sorted_keys (m @ m') \<longleftrightarrow> sorted_keys m \<and> sorted_keys m' \<and> (\<forall>x \<in> set m. \<forall>y \<in> set m'. byteLess (fst x) (fst y))"
  by (auto simp: sorted_keys_def sorted_wrt_append)

lemma mget_sput [simp]: "mget (sput k v m) k' = (if k' = k then Some v else mget m k')"
  by (induction k v m rule: sput.induct) auto

lemma set_sput: "set (sput k v m) \<subseteq> insert (k, v) (set m)"
  by (induction k v m rule: sput.induct) auto

lemma sput_sorted: "sorted_keys m \<Longrightarrow> sorted_keys (sput k v m)"
proof (induction k v m rule: sput.induct)
  case (2 k v e m)
  have "fst e = k \<or> byteLess (fst e) k \<or> byteLess k (fst e)" by (rule byteLess_linear)
  then show ?case using 2 set_sput [of k v m] by (auto intro: byteLess_trans)
qed simp

lemma sorted_keys_distinct: "sorted_keys m \<Longrightarrow> distinct (map fst m)"
  by (induction m) (auto simp: image_iff)

lemma sorted_map_snoc: "sorted_map (kvs @ [(k, v)]) = sput k v (sorted_map kvs)"
  by (simp add: sorted_map_def)

lemma sorted_map_Nil [simp]: "sorted_map [] = []"
  by (simp add: sorted_map_def)

lemma sorted_map_sorted: "sorted_keys (sorted_map kvs)"
  by (induction kvs rule: rev_induct) (auto simp: sorted_map_snoc sput_sorted)

lemma mget_sorted_map: "mget (sorted_map kvs) k = mget (rev kvs) k"
  by (induction kvs rule: rev_induct) (auto simp: sorted_map_snoc)

text \<open>A map has one sorted list.\<close>

lemma sorted_keys_unique:
  assumes "sorted_keys m" "sorted_keys m'" "mget m = mget m'"
  shows "m = m'"
  using assms
proof (induction m arbitrary: m')
  case Nil
  then show ?case by (metis empty_eq_map_of_iff map_of.simps(1))
next
  case (Cons e m)
  then obtain e' t where m': "m' = e' # t" by (cases m') (auto simp: fun_eq_iff split: if_splits prod.splits)
  have eq: "mget (e # m) k = mget m' k" for k by (rule fun_cong [OF Cons.prems(3)])
  have key: "fst e = fst e'"
  proof (rule ccontr)
    assume ne: "fst e \<noteq> fst e'"
    have "mget m' (fst e) = Some (snd e)" "mget (e # m) (fst e') = Some (snd e')"
      using eq [of "fst e"] eq [of "fst e'"] by (simp_all add: m' split: if_splits)
    with ne have "(fst e, snd e) \<in> set t" "(fst e', snd e') \<in> set m"
      by (auto simp: m' dest: map_of_SomeD split: if_splits)
    then have "byteLess (fst e') (fst e)" "byteLess (fst e) (fst e')"
      using Cons.prems(1, 2) by (auto simp: m')
    then show False using byteLess_trans byteLess_irrefl by blast
  qed
  have "snd e = snd e'" using eq [of "fst e"] key by (simp add: m')
  then have e: "e = e'" using key by (simp add: prod_eq_iff)
  have "mget m k = mget t k" for k
  proof (cases "k = fst e")
    case True
    have "fst e \<notin> fst ` set m" "fst e \<notin> fst ` set t"
      using sorted_keys_distinct [OF Cons.prems(1)] sorted_keys_distinct [OF Cons.prems(2)] by (auto simp: m' e)
    then show ?thesis using True by (simp add: map_of_eq_None_iff [THEN iffD2])
  next
    case False
    then show ?thesis using eq [of k] by (simp add: m' e)
  qed
  then have "m = t" using Cons.prems(1, 2) by (intro Cons.IH) (auto simp: m')
  then show ?case by (simp add: m' e)
qed

lemma sorted_map_eqI:
  assumes "distinct (map fst kvs)" "sorted_keys m" "set m = set kvs"
  shows "sorted_map kvs = m"
proof (rule sorted_keys_unique [OF sorted_map_sorted assms(2)])
  have "mget (rev kvs) = mget m"
    using assms sorted_keys_distinct [OF assms(2)] by (intro map_of_eqI) (auto simp: rev_map [symmetric])
  then show "mget (sorted_map kvs) = mget m" by (simp add: mget_sorted_map fun_eq_iff)
qed

lemma sorted_map_id: "sorted_keys m \<Longrightarrow> sorted_map m = m"
  by (simp add: sorted_map_eqI sorted_keys_distinct)

section \<open>Values of one kind\<close>

definition json_mismatch :: gerror where
  "json_mismatch = Errorf ''json: cannot unmarshal'' []"

type_synonym 'a decoder = "json \<Rightarrow> 'a \<Rightarrow> 'a result"

definition dec_string :: "string decoder" where
  "dec_string j old = (case j of JStr s \<Rightarrow> Inr s | JNull \<Rightarrow> Inr old | _ \<Rightarrow> Inl json_mismatch)"

definition dec_bool :: "bool decoder" where
  "dec_bool j old = (case j of JBool b \<Rightarrow> Inr b | JNull \<Rightarrow> Inr old | _ \<Rightarrow> Inl json_mismatch)"

definition int64 :: "int \<Rightarrow> bool" where
  "int64 i \<longleftrightarrow> - (2 ^ 63) \<le> i \<and> i < 2 ^ 63"

definition enc_int :: "int \<Rightarrow> json" where
  "enc_int i = JNum (of_int i)"

definition dec_int :: "int decoder" where
  "dec_int j old =
     (case j of
        JNum q \<Rightarrow> if q = of_int \<lfloor>q\<rfloor> \<and> int64 \<lfloor>q\<rfloor> then Inr \<lfloor>q\<rfloor> else Inl json_mismatch
      | JNull \<Rightarrow> Inr old
      | _ \<Rightarrow> Inl json_mismatch)"

definition dec_float :: "rat decoder" where
  "dec_float j old = (case j of JNum q \<Rightarrow> Inr q | JNull \<Rightarrow> Inr old | _ \<Rightarrow> Inl json_mismatch)"

text \<open>The length of a nil slice and of an empty one is the same; the model's
  empty list is the nil slice, which encodes to \<open>null\<close>.\<close>

definition enc_list :: "('a \<Rightarrow> json) \<Rightarrow> 'a list \<Rightarrow> json" where
  "enc_list enc vs = (if vs = [] then JNull else JArr (map enc vs))"

fun dec_items :: "'a decoder \<Rightarrow> 'a \<Rightarrow> json list \<Rightarrow> 'a list \<Rightarrow> 'a list result" where
  "dec_items dec zero [] olds = Inr []"
| "dec_items dec zero (j # js) olds =
     rbind (dec j (case olds of [] \<Rightarrow> zero | v # _ \<Rightarrow> v))
     (\<lambda>v. rbind (dec_items dec zero js (tl olds)) (\<lambda>vs. Inr (v # vs)))"

definition dec_list :: "'a decoder \<Rightarrow> 'a \<Rightarrow> 'a list decoder" where
  "dec_list dec zero j olds =
     (case j of JArr js \<Rightarrow> dec_items dec zero js olds | JNull \<Rightarrow> Inr [] | _ \<Rightarrow> Inl json_mismatch)"

definition enc_ptr :: "('a \<Rightarrow> json) \<Rightarrow> 'a option \<Rightarrow> json" where
  "enc_ptr enc p = (case p of None \<Rightarrow> JNull | Some v \<Rightarrow> enc v)"

definition dec_ptr :: "'a decoder \<Rightarrow> 'a \<Rightarrow> 'a option decoder" where
  "dec_ptr dec zero j p =
     (if j = JNull then Inr None
      else rbind (dec j (case p of None \<Rightarrow> zero | Some v \<Rightarrow> v)) (\<lambda>v. Inr (Some v)))"

definition enc_strings :: "(string, string) gomap \<Rightarrow> json" where
  "enc_strings m = (if m = [] then JNull else JObj (map (map_prod (\<lambda>k. k) JStr) (sorted_map m)))"

definition dec_strings :: "(string, string) gomap decoder" where
  "dec_strings j old =
     (case j of
        JObj kvs \<Rightarrow> rfold (\<lambda>(k, v) m. rbind (dec_string v []) (\<lambda>s. Inr (sput k s m))) kvs old
      | JNull \<Rightarrow> Inr []
      | _ \<Rightarrow> Inl json_mismatch)"

text \<open>A value of type \<open>any\<close>: decoding makes each object a map, encoding sorts it.\<close>

primrec canon :: "json \<Rightarrow> json" where
  "canon JNull = JNull"
| "canon (JBool b) = JBool b"
| "canon (JNum q) = JNum q"
| "canon (JStr s) = JStr s"
| "canon (JArr js) = JArr (map canon js)"
| "canon (JObj kvs) = JObj (sorted_map (map (map_prod (\<lambda>k. k) canon) kvs))"

primrec canonical :: "json \<Rightarrow> bool" where
  "canonical JNull = True"
| "canonical (JBool b) = True"
| "canonical (JNum q) = True"
| "canonical (JStr s) = True"
| "canonical (JArr js) = list_all id (map canonical js)"
| "canonical (JObj kvs) = (sorted_keys kvs \<and> list_all snd (map (map_prod (\<lambda>k. k) canonical) kvs))"

lemma canon_canonical: "canonical j \<Longrightarrow> canon j = j"
proof (induction j)
  case (JArr js)
  then show ?case by (auto simp: list_all_iff intro!: map_idI)
next
  case (JObj kvs)
  have "map (map_prod (\<lambda>k. k) canon) kvs = kvs"
  proof (rule map_idI)
    fix e assume e: "e \<in> set kvs"
    then have "canonical (snd e)" using JObj.prems by (auto simp: list_all_iff)
    then have "canon (snd e) = snd e" using JObj.IH [of e "snd e"] e by (simp add: snds.simps)
    then show "map_prod (\<lambda>k. k) canon e = e" by (cases e) simp
  qed
  then show ?case using JObj.prems by (simp add: sorted_map_id)
qed simp_all

lemma set_sorted_map: "set (sorted_map kvs) \<subseteq> set kvs"
proof (induction kvs rule: rev_induct)
  case (snoc e kvs)
  then show ?case using set_sput [of "fst e" "snd e" "sorted_map kvs"]
    by (cases e) (auto simp: sorted_map_snoc)
qed simp

lemma canonical_canon: "canonical (canon j)"
proof (induction j)
  case (JObj kvs)
  have "canonical (snd e)" if "e \<in> set (sorted_map (map (map_prod (\<lambda>k. k) canon) kvs))" for e
    using that set_sorted_map [of "map (map_prod (\<lambda>k. k) canon) kvs"] JObj.IH
    by (fastforce simp: snds.simps)
  then show ?case by (simp add: sorted_map_sorted list_all_iff)
qed (simp_all add: list_all_iff)

section \<open>Structs\<close>

text \<open>
  A field of a struct, as its \<open>json\<close> tag describes it: its name, what it encodes
  to (\<open>None\<close> when \<open>omitempty\<close> leaves it out) and how a value decodes into it.
  \<open>promoted\<close> is a field of an embedded struct. A key finds the field with its
  name, or else one whose name differs in the case of ASCII letters only.
\<close>

type_synonym 'r jfield = "string \<times> ('r \<Rightarrow> json option) \<times> 'r decoder"

definition field :: "string \<Rightarrow> ('a \<Rightarrow> bool) \<Rightarrow> ('a \<Rightarrow> json) \<Rightarrow> 'a decoder \<Rightarrow> ('r \<Rightarrow> 'a) \<Rightarrow>
    (('a \<Rightarrow> 'a) \<Rightarrow> 'r \<Rightarrow> 'r) \<Rightarrow> 'r jfield" where
  "field name omit enc dec get upd =
     (name, \<lambda>r. if omit (get r) then None else Some (enc (get r)),
      \<lambda>j r. rbind (dec j (get r)) (\<lambda>v. Inr (upd (\<lambda>_. v) r)))"

definition promoted :: "('r \<Rightarrow> 'a) \<Rightarrow> (('a \<Rightarrow> 'a) \<Rightarrow> 'r \<Rightarrow> 'r) \<Rightarrow> 'a jfield \<Rightarrow> 'r jfield" where
  "promoted get upd f =
     (fst f, \<lambda>r. fst (snd f) (get r), \<lambda>j r. rbind (snd (snd f) j (get r)) (\<lambda>v. Inr (upd (\<lambda>_. v) r)))"

definition lookup_field :: "'r jfield list \<Rightarrow> string \<Rightarrow> 'r decoder option" where
  "lookup_field fs key =
     (case find (\<lambda>f. fst f = key) fs of
        Some f \<Rightarrow> Some (snd (snd f))
      | None \<Rightarrow> map_option (\<lambda>f. snd (snd f)) (find (\<lambda>f. toLower (fst f) = toLower key) fs))"

definition enc_fields :: "'r jfield list \<Rightarrow> 'r \<Rightarrow> (string \<times> json) list" where
  "enc_fields fs r = concat (map (\<lambda>f. case fst (snd f) r of None \<Rightarrow> [] | Some j \<Rightarrow> [(fst f, j)]) fs)"

definition enc_struct :: "'r jfield list \<Rightarrow> 'r \<Rightarrow> json" where
  "enc_struct fs r = JObj (enc_fields fs r)"

definition dec_key :: "'r jfield list \<Rightarrow> string \<times> json \<Rightarrow> 'r \<Rightarrow> 'r result" where
  "dec_key fs e r =
     (case lookup_field fs (fst e) of
        None \<Rightarrow> Inl (Errorf ''json: unknown field %q'' [fst e])
      | Some dec \<Rightarrow> dec (snd e) r)"

definition decodeJSONStrict :: "'r jfield list \<Rightarrow> 'r decoder" where
  "decodeJSONStrict fs j r =
     (case j of JObj kvs \<Rightarrow> rfold (dec_key fs) kvs r | JNull \<Rightarrow> Inr r | _ \<Rightarrow> Inl json_mismatch)"

section \<open>The contract of a codec\<close>

text \<open>
  What is encoded decodes back over a zero value. From a codec of a type come
  those of its slices and of pointers to it, and one step in decoding a struct
  with a field of that type.
\<close>

text \<open>\<open>decodes f r s t\<close>: the field \<open>f\<close> of what \<open>r\<close> encodes to takes \<open>s\<close> to \<open>t\<close>.\<close>

definition decodes :: "'r jfield \<Rightarrow> 'r \<Rightarrow> 'r \<Rightarrow> 'r \<Rightarrow> bool" where
  "decodes f r s t \<longleftrightarrow> (case fst (snd f) r of None \<Rightarrow> t = s | Some j \<Rightarrow> snd (snd f) j s = Inr t)"

fun decodes_all :: "'r jfield list \<Rightarrow> 'r \<Rightarrow> 'r \<Rightarrow> 'r \<Rightarrow> bool" where
  "decodes_all [] r s t \<longleftrightarrow> t = s"
| "decodes_all (f # fs) r s t \<longleftrightarrow> (\<exists>u. decodes f r s u \<and> decodes_all fs r u t)"

lemma decodes_all_Cons: "decodes f r s u \<Longrightarrow> decodes_all fs r u t \<Longrightarrow> decodes_all (f # fs) r s t"
  by auto

lemma decodes_all_Nil: "s = t \<Longrightarrow> decodes_all [] r s t"
  by simp

locale json_codec =
  fixes enc :: "'a \<Rightarrow> json" and dec :: "'a decoder" and zero :: 'a and ok :: "'a \<Rightarrow> bool"
  assumes roundtrip: "ok v \<Longrightarrow> dec (enc v) zero = Inr v"
begin

lemma items_roundtrip: "list_all ok vs \<Longrightarrow> dec_items dec zero (map enc vs) [] = Inr vs"
  by (induction vs) (simp_all add: roundtrip)

lemma list_codec: "json_codec (enc_list enc) (dec_list dec zero) [] (list_all ok)"
  by unfold_locales (simp add: enc_list_def dec_list_def items_roundtrip)

lemma decodes_field:
  assumes "ok (get r)" "get s = zero" "omit (get r) \<Longrightarrow> get r = zero" "upd (\<lambda>_. zero) s = s"
  shows "decodes (field name omit enc dec get upd) r s (upd (\<lambda>_. get r) s)"
  using assms by (auto simp: decodes_def field_def roundtrip)

lemma decodes_promoted_field:
  assumes "ok (get (g r))" "get (g s) = zero" "omit (get (g r)) \<Longrightarrow> get (g r) = zero"
    "u (\<lambda>_. upd (\<lambda>_. zero) (g s)) s = s"
  shows "decodes (promoted g u (field name omit enc dec get upd)) r s (u (\<lambda>_. upd (\<lambda>_. get (g r)) (g s)) s)"
  using assms by (auto simp: decodes_def promoted_def field_def roundtrip)

end

text \<open>A pointer to a type that never encodes to \<open>null\<close>.\<close>

locale object_codec = json_codec +
  assumes not_null: "enc v \<noteq> JNull"
begin

lemma ptr_codec: "json_codec (enc_ptr enc) (dec_ptr dec zero) None (pred_option ok)"
  by unfold_locales (auto simp: enc_ptr_def dec_ptr_def not_null roundtrip split: option.split)

end

lemma lookup_field_exact:
  assumes "distinct (map fst fs)" "f \<in> set fs"
  shows "lookup_field fs (fst f) = Some (snd (snd f))"
proof -
  have "find (\<lambda>g. fst g = fst f) fs = Some f"
    using assms by (induction fs) (auto simp: image_iff)
  then show ?thesis by (simp add: lookup_field_def)
qed

lemma decode_fields:
  assumes "\<And>f. f \<in> set fs \<Longrightarrow> lookup_field gs (fst f) = Some (snd (snd f))" "decodes_all fs r s t"
  shows "rfold (dec_key gs) (enc_fields fs r) s = Inr t"
  using assms
proof (induction fs arbitrary: s)
  case (Cons f fs)
  then obtain u where u: "decodes f r s u" "rfold (dec_key gs) (enc_fields fs r) u = Inr t" by auto
  have "dec_key gs (fst f, j) s = snd (snd f) j s" for j
    using Cons.prems(1) [of f] by (simp add: dec_key_def)
  with u show ?case
    by (cases "fst (snd f) r") (simp_all add: enc_fields_def decodes_def)
qed (simp add: enc_fields_def)

text \<open>A struct whose fields decode one after the other to the whole.\<close>

lemma struct_codec:
  assumes "distinct (map fst fs)" "\<And>r. ok r \<Longrightarrow> decodes_all fs r zero r"
  shows "object_codec (enc_struct fs) (decodeJSONStrict fs) zero ok"
  by unfold_locales
    (use assms in \<open>simp_all add: enc_struct_def decodeJSONStrict_def decode_fields lookup_field_exact\<close>)

text \<open>Written as a map, the fields come in the order of their names.\<close>

lemma enc_fields_Cons:
  "enc_fields (f # fs) r = (case fst (snd f) r of None \<Rightarrow> [] | Some j \<Rightarrow> [(fst f, j)]) @ enc_fields fs r"
  by (simp add: enc_fields_def)

lemma enc_fields_names: "e \<in> set (enc_fields fs r) \<Longrightarrow> fst e \<in> fst ` set fs"
proof (induction fs)
  case (Cons f fs)
  then show ?case by (cases "fst (snd f) r") (auto simp: enc_fields_Cons)
qed (simp add: enc_fields_def)

lemma enc_fields_sorted: "sorted_wrt byteLess (map fst fs) \<Longrightarrow> sorted_keys (enc_fields fs r)"
proof (induction fs)
  case (Cons f fs)
  have "byteLess (fst f) (fst e)" if "e \<in> set (enc_fields fs r)" for e
    using enc_fields_names [OF that] Cons.prems by auto
  with Cons show ?case
    by (cases "fst (snd f) r") (simp_all add: enc_fields_Cons)
qed (simp add: enc_fields_def)

lemma enc_fields_distinct: "distinct (map fst fs) \<Longrightarrow> distinct (map fst (enc_fields fs r))"
proof (induction fs)
  case (Cons f fs)
  then have "fst f \<notin> fst ` set (enc_fields fs r)"
    by (metis (no_types, lifting) distinct.simps(2) enc_fields_names imageE list.simps(9) set_map)
  with Cons show ?case
    by (cases "fst (snd f) r") (simp_all add: enc_fields_Cons)
qed (simp add: enc_fields_def)

lemma enc_fields_set: "set fs = set gs \<Longrightarrow> set (enc_fields fs r) = set (enc_fields gs r)"
  by (simp add: enc_fields_def)

lemma sorted_enc_fields:
  assumes "set gs = set fs" "distinct (map fst fs)" "sorted_wrt byteLess (map fst gs)"
  shows "sorted_map (enc_fields fs r) = enc_fields gs r"
  using assms enc_fields_set [OF assms(1)]
  by (intro sorted_map_eqI) (simp_all add: enc_fields_sorted enc_fields_distinct)

section \<open>Codecs of the kinds\<close>

interpretation str: json_codec JStr dec_string "[]" "\<lambda>_. True"
  by unfold_locales (simp add: dec_string_def)

interpretation bool: json_codec JBool dec_bool False "\<lambda>_. True"
  by unfold_locales (simp add: dec_bool_def)

interpretation num: json_codec enc_int dec_int 0 int64
  by unfold_locales (simp add: enc_int_def dec_int_def)

interpretation flt: json_codec JNum dec_float 0 "\<lambda>_. True"
  by unfold_locales (simp add: dec_float_def)

interpretation strs: json_codec "enc_list JStr" "dec_list dec_string []" "[]" "\<lambda>_. True"
  using str.list_codec by (simp add: list.pred_True)

lemma dec_strings_sorted:
  assumes "sorted_keys (m @ kvs)"
  shows "rfold (\<lambda>(k, v) m. rbind (dec_string v []) (\<lambda>s. Inr (sput k s m)))
           (map (map_prod (\<lambda>k. k) JStr) kvs) m = Inr (m @ kvs)"
  using assms
proof (induction kvs arbitrary: m)
  case (Cons e kvs)
  have "sput (fst e) (snd e) m = m @ [e]"
  proof -
    have "sorted_keys (m @ [e])" using Cons.prems by (auto simp: sorted_keys_append)
    then have "sorted_map (m @ [e]) = m @ [e]" "sorted_map m = m"
      by (auto simp: sorted_map_id sorted_keys_append)
    then show ?thesis using sorted_map_snoc [of m "fst e" "snd e"] by simp
  qed
  then show ?case using Cons.IH [of "m @ [e]"] Cons.prems
    by (cases e) (simp add: dec_string_def)
qed simp

interpretation strmap: json_codec enc_strings dec_strings "[]" sorted_keys
proof unfold_locales
  fix m :: "(string, string) gomap"
  assume "sorted_keys m"
  then show "dec_strings (enc_strings m) [] = Inr m"
    using dec_strings_sorted [of "[]" m] by (simp add: enc_strings_def dec_strings_def sorted_map_id)
qed

end
