(* ===== verification/Encoding.thy ===== *)
theory Encoding
  imports Json_Codec
begin

text \<open>
  \<open>encoding.go\<close>: the JSON form of a configuration, with the durations, the
  shorthands and the extensions of sites and routes. The tables of fields are
  the \<open>json\<close> tags of \<open>config.go\<close>. The YAML codec calls a third-party package and
  is not modelled.
\<close>

section \<open>Durations\<close>

definition Duration_MarshalText :: "duration \<Rightarrow> json" where
  "Duration_MarshalText d = JStr (dur_string d)"

definition Duration_UnmarshalText :: "duration decoder" where
  "Duration_UnmarshalText j old =
     (case j of
        JStr s \<Rightarrow> (case parseDuration s of
                     None \<Rightarrow> Inl (Errorf ''invalid duration %q'' [s])
                   | Some d \<Rightarrow> Inr d)
      | JNull \<Rightarrow> Inr old
      | _ \<Rightarrow> Inl json_mismatch)"

interpretation dur: json_codec Duration_MarshalText Duration_UnmarshalText 0 int64
  by unfold_locales
    (simp add: Duration_MarshalText_def Duration_UnmarshalText_def int64_def duration_roundtrip)

section \<open>Plain structs\<close>

abbreviation always :: "'a \<Rightarrow> bool" where
  "always \<equiv> \<lambda>_. False"

text \<open>Fields with and without \<open>omitempty\<close>.\<close>

abbreviation str_field where "str_field name \<equiv> field name (\<lambda>s. s = []) JStr dec_string"
abbreviation str_field_always where "str_field_always name \<equiv> field name always JStr dec_string"
abbreviation bool_field where "bool_field name \<equiv> field name Not JBool dec_bool"
abbreviation int_field where "int_field name \<equiv> field name (\<lambda>i. i = 0) enc_int dec_int"
abbreviation int_field_always where "int_field_always name \<equiv> field name always enc_int dec_int"
abbreviation dur_field where
  "dur_field name \<equiv> field name (\<lambda>d. d = 0) Duration_MarshalText Duration_UnmarshalText"
abbreviation strs_field where
  "strs_field name \<equiv> field name (\<lambda>l. l = []) (enc_list JStr) (dec_list dec_string [])"
abbreviation ptr_field where
  "ptr_field name fs dec zero \<equiv> field name (\<lambda>p. p = None) (enc_ptr (enc_struct fs)) (dec_ptr dec zero)"

definition server_fields :: "ServerConfig jfield list" where
  "server_fields =
     [dur_field ''read_header_timeout'' readHeaderTimeout readHeaderTimeout_update,
      dur_field ''read_timeout'' readTimeout readTimeout_update,
      dur_field ''write_timeout'' writeTimeout writeTimeout_update,
      dur_field ''idle_timeout'' idleTimeout idleTimeout_update,
      dur_field ''shutdown_timeout'' shutdownTimeout shutdownTimeout_update,
      int_field ''max_header_bytes'' maxHeaderBytes maxHeaderBytes_update]"

definition zero_server :: ServerConfig where
  "zero_server = \<lparr>readHeaderTimeout = 0, readTimeout = 0, writeTimeout = 0, idleTimeout = 0,
     shutdownTimeout = 0, maxHeaderBytes = 0\<rparr>"

definition server_fits :: "ServerConfig \<Rightarrow> bool" where
  "server_fits s \<longleftrightarrow> int64 (readHeaderTimeout s) \<and> int64 (readTimeout s) \<and> int64 (writeTimeout s) \<and>
     int64 (idleTimeout s) \<and> int64 (shutdownTimeout s) \<and> int64 (maxHeaderBytes s)"

lemmas kind_fields =
  str.decodes_field bool.decodes_field num.decodes_field flt.decodes_field strs.decodes_field
  strmap.decodes_field dur.decodes_field

interpretation server: object_codec "enc_struct server_fields" "decodeJSONStrict server_fields" zero_server server_fits
proof (rule struct_codec)
  show "decodes_all server_fields r zero_server r" if "server_fits r" for r
    unfolding server_fields_def zero_server_def
    by ((rule decodes_all_Cons, (rule kind_fields; use that in \<open>simp add: server_fits_def\<close>))+,
        rule decodes_all_Nil, simp)
qed (simp add: server_fields_def field_def)

definition acme_fields :: "ACMEConfig jfield list" where
  "acme_fields =
     [str_field ''email'' acme_email acme_email_update,
      str_field ''account_key'' acme_accountKey acme_accountKey_update,
      str_field ''account_url'' acme_accountURL acme_accountURL_update,
      str_field ''directory'' acme_directory acme_directory_update,
      str_field ''ca_root'' acme_caRoot acme_caRoot_update]"

definition zero_acme :: ACMEConfig where
  "zero_acme = \<lparr>acme_email = [], acme_accountKey = [], acme_accountURL = [], acme_directory = [], acme_caRoot = []\<rparr>"

interpretation acme: object_codec "enc_struct acme_fields" "decodeJSONStrict acme_fields" zero_acme "\<lambda>_. True"
proof (rule struct_codec)
  show "decodes_all acme_fields r zero_acme r" for r
    unfolding acme_fields_def zero_acme_def
    by ((rule decodes_all_Cons, (rule kind_fields; simp))+, rule decodes_all_Nil, simp)
qed (simp add: acme_fields_def field_def)

definition certificate_fields :: "Certificate jfield list" where
  "certificate_fields =
     [str_field_always ''cert'' cert_file cert_file_update,
      str_field_always ''key'' key_file key_file_update]"

definition zero_certificate :: Certificate where
  "zero_certificate = \<lparr>cert_file = [], key_file = []\<rparr>"

interpretation certificate:
  object_codec "enc_struct certificate_fields" "decodeJSONStrict certificate_fields" zero_certificate "\<lambda>_. True"
proof (rule struct_codec)
  show "decodes_all certificate_fields r zero_certificate r" for r
    unfolding certificate_fields_def zero_certificate_def
    by ((rule decodes_all_Cons, (rule kind_fields; simp))+, rule decodes_all_Nil, simp)
qed (simp add: certificate_fields_def field_def)

interpretation acme_ptr: json_codec "enc_ptr (enc_struct acme_fields)"
  "dec_ptr (decodeJSONStrict acme_fields) zero_acme" None "\<lambda>_. True"
  using acme.ptr_codec by (simp add: option.pred_True)

interpretation certificate_list: json_codec "enc_list (enc_struct certificate_fields)"
  "dec_list (decodeJSONStrict certificate_fields) zero_certificate" "[]" "\<lambda>_. True"
  using certificate.list_codec by (simp add: list.pred_True)

definition tls_fields :: "TLSConfig jfield list" where
  "tls_fields =
     [str_field ''min_version'' minVersion minVersion_update,
      field ''certificates'' (\<lambda>l. l = []) (enc_list (enc_struct certificate_fields))
        (dec_list (decodeJSONStrict certificate_fields) zero_certificate) certificates certificates_update,
      ptr_field ''acme'' acme_fields (decodeJSONStrict acme_fields) zero_acme acme acme_update]"

definition zero_tls :: TLSConfig where
  "zero_tls = \<lparr>minVersion = [], certificates = [], acme = None\<rparr>"

interpretation tls: object_codec "enc_struct tls_fields" "decodeJSONStrict tls_fields" zero_tls "\<lambda>_. True"
proof (rule struct_codec)
  show "decodes_all tls_fields r zero_tls r" for r
    unfolding tls_fields_def zero_tls_def
    by ((rule decodes_all_Cons,
         (rule kind_fields certificate_list.decodes_field acme_ptr.decodes_field; simp))+,
        rule decodes_all_Nil, simp)
qed (simp add: tls_fields_def field_def)

definition listener_fields :: "Listener jfield list" where
  "listener_fields =
     [str_field_always ''name'' l_name l_name_update,
      str_field_always ''address'' l_address l_address_update,
      bool_field ''tls'' l_tls l_tls_update,
      strs_field ''trusted_proxies'' l_trustedProxies l_trustedProxies_update,
      strs_field ''policies'' l_policies l_policies_update]"

definition zero_listener :: Listener where
  "zero_listener = \<lparr>l_name = [], l_address = [], l_tls = False, l_trustedProxies = [], l_policies = []\<rparr>"

interpretation listener:
  object_codec "enc_struct listener_fields" "decodeJSONStrict listener_fields" zero_listener "\<lambda>_. True"
proof (rule struct_codec)
  show "decodes_all listener_fields r zero_listener r" for r
    unfolding listener_fields_def zero_listener_def
    by ((rule decodes_all_Cons, (rule kind_fields; simp))+, rule decodes_all_Nil, simp)
qed (simp add: listener_fields_def field_def)

section \<open>Policies\<close>

definition request_fields :: "RequestPolicy jfield list" where
  "request_fields =
     [int_field ''max_body_bytes'' rq_maxBodyBytes rq_maxBodyBytes_update,
      dur_field ''timeout'' rq_timeout rq_timeout_update]"

definition zero_request :: RequestPolicy where
  "zero_request = \<lparr>rq_maxBodyBytes = 0, rq_timeout = 0\<rparr>"

definition request_fits :: "RequestPolicy \<Rightarrow> bool" where
  "request_fits r \<longleftrightarrow> int64 (rq_maxBodyBytes r) \<and> int64 (rq_timeout r)"

interpretation request:
  object_codec "enc_struct request_fields" "decodeJSONStrict request_fields" zero_request request_fits
proof (rule struct_codec)
  show "decodes_all request_fields r zero_request r" if "request_fits r" for r
    unfolding request_fields_def zero_request_def
    by ((rule decodes_all_Cons, (rule kind_fields; use that in \<open>simp add: request_fits_def\<close>))+,
        rule decodes_all_Nil, simp)
qed (simp add: request_fields_def field_def)

definition rate_fields :: "RateLimitPolicy jfield list" where
  "rate_fields =
     [field ''requests_per_second'' always JNum dec_float rp_requestsPerSecond rp_requestsPerSecond_update,
      int_field_always ''burst'' rp_burst rp_burst_update,
      str_field ''key'' rp_key rp_key_update,
      int_field ''max_keys'' rp_maxKeys rp_maxKeys_update,
      dur_field ''idle_timeout'' rp_idleTimeout rp_idleTimeout_update]"

definition zero_rate :: RateLimitPolicy where
  "zero_rate = \<lparr>rp_requestsPerSecond = 0, rp_burst = 0, rp_key = [], rp_maxKeys = 0, rp_idleTimeout = 0\<rparr>"

definition rate_fits :: "RateLimitPolicy \<Rightarrow> bool" where
  "rate_fits r \<longleftrightarrow> int64 (rp_burst r) \<and> int64 (rp_maxKeys r) \<and> int64 (rp_idleTimeout r)"

interpretation rate: object_codec "enc_struct rate_fields" "decodeJSONStrict rate_fields" zero_rate rate_fits
proof (rule struct_codec)
  show "decodes_all rate_fields r zero_rate r" if "rate_fits r" for r
    unfolding rate_fields_def zero_rate_def
    by ((rule decodes_all_Cons, (rule kind_fields; use that in \<open>simp add: rate_fits_def\<close>))+,
        rule decodes_all_Nil, simp)
qed (simp add: rate_fields_def field_def)

definition concurrency_fields :: "ConcurrencyPolicy jfield list" where
  "concurrency_fields = [int_field_always ''max'' cp_max cp_max_update]"

definition zero_concurrency :: ConcurrencyPolicy where
  "zero_concurrency = \<lparr>cp_max = 0\<rparr>"

interpretation concurrency: object_codec "enc_struct concurrency_fields" "decodeJSONStrict concurrency_fields"
  zero_concurrency "\<lambda>r. int64 (cp_max r)"
proof (rule struct_codec)
  show "decodes_all concurrency_fields r zero_concurrency r" if "int64 (cp_max r)" for r
    unfolding concurrency_fields_def zero_concurrency_def
    by ((rule decodes_all_Cons, (rule kind_fields; use that in simp))+, rule decodes_all_Nil, simp)
qed (simp add: concurrency_fields_def field_def)

interpretation request_ptr: json_codec "enc_ptr (enc_struct request_fields)"
  "dec_ptr (decodeJSONStrict request_fields) zero_request" None "pred_option request_fits"
  by (rule request.ptr_codec)

interpretation rate_ptr: json_codec "enc_ptr (enc_struct rate_fields)"
  "dec_ptr (decodeJSONStrict rate_fields) zero_rate" None "pred_option rate_fits"
  by (rule rate.ptr_codec)

interpretation concurrency_ptr: json_codec "enc_ptr (enc_struct concurrency_fields)"
  "dec_ptr (decodeJSONStrict concurrency_fields) zero_concurrency" None "pred_option (\<lambda>r. int64 (cp_max r))"
  by (rule concurrency.ptr_codec)

definition policy_fields :: "Policy jfield list" where
  "policy_fields =
     [str_field_always ''name'' p_name p_name_update,
      ptr_field ''request'' request_fields (decodeJSONStrict request_fields) zero_request p_request p_request_update,
      ptr_field ''rate_limit'' rate_fields (decodeJSONStrict rate_fields) zero_rate p_rateLimit p_rateLimit_update,
      ptr_field ''concurrency'' concurrency_fields (decodeJSONStrict concurrency_fields) zero_concurrency p_concurrency p_concurrency_update]"

definition zero_policy :: Policy where
  "zero_policy = \<lparr>p_name = [], p_request = None, p_rateLimit = None, p_concurrency = None\<rparr>"

definition policy_fits :: "Policy \<Rightarrow> bool" where
  "policy_fits p \<longleftrightarrow> pred_option request_fits (p_request p) \<and> pred_option rate_fits (p_rateLimit p) \<and>
     pred_option (\<lambda>r. int64 (cp_max r)) (p_concurrency p)"

interpretation policy: object_codec "enc_struct policy_fields" "decodeJSONStrict policy_fields" zero_policy policy_fits
proof (rule struct_codec)
  show "decodes_all policy_fields r zero_policy r" if "policy_fits r" for r
    unfolding policy_fields_def zero_policy_def
    by ((rule decodes_all_Cons,
         (rule kind_fields request_ptr.decodes_field rate_ptr.decodes_field concurrency_ptr.decodes_field;
          use that in \<open>simp add: policy_fits_def\<close>))+,
        rule decodes_all_Nil, simp)
qed (simp add: policy_fields_def field_def)

section \<open>Handlers\<close>

text \<open>A string stands for the main field of a handler.\<close>

definition unmarshalJSONShorthand :: "((string \<Rightarrow> string) \<Rightarrow> 'r \<Rightarrow> 'r) \<Rightarrow> 'r jfield list \<Rightarrow> 'r decoder" where
  "unmarshalJSONShorthand upd fs j r =
     (case j of JStr s \<Rightarrow> Inr (upd (\<lambda>_. s) r) | _ \<Rightarrow> decodeJSONStrict fs j r)"

lemma shorthand_codec:
  assumes "object_codec (enc_struct fs) (decodeJSONStrict fs) zero ok"
  shows "object_codec (enc_struct fs) (unmarshalJSONShorthand upd fs) zero ok"
  using assms
  by (simp add: object_codec_def object_codec_axioms_def json_codec_def unmarshalJSONShorthand_def enc_struct_def)

definition proxy_fields :: "Proxy jfield list" where
  "proxy_fields =
     [str_field_always ''upstream'' upstream upstream_update,
      str_field ''strip_prefix'' stripPrefix_of stripPrefix_of_update,
      str_field ''host_header'' hostHeader hostHeader_update,
      dur_field ''dial_timeout'' dialTimeout dialTimeout_update,
      dur_field ''response_header_timeout'' responseHeaderTimeout responseHeaderTimeout_update,
      int_field ''max_conns'' maxConns maxConns_update,
      bool_field ''insecure_skip_verify'' insecureSkipVerify insecureSkipVerify_update]"

definition zero_proxy :: Proxy where
  "zero_proxy = \<lparr>upstream = [], stripPrefix_of = [], hostHeader = [], dialTimeout = 0,
     responseHeaderTimeout = 0, maxConns = 0, insecureSkipVerify = False\<rparr>"

definition proxy_fits :: "Proxy \<Rightarrow> bool" where
  "proxy_fits p \<longleftrightarrow> int64 (dialTimeout p) \<and> int64 (responseHeaderTimeout p) \<and> int64 (maxConns p)"

definition Proxy_UnmarshalJSON :: "Proxy decoder" where
  "Proxy_UnmarshalJSON = unmarshalJSONShorthand upstream_update proxy_fields"

interpretation proxy: object_codec "enc_struct proxy_fields" Proxy_UnmarshalJSON zero_proxy proxy_fits
  unfolding Proxy_UnmarshalJSON_def
proof (rule shorthand_codec, rule struct_codec)
  show "decodes_all proxy_fields r zero_proxy r" if "proxy_fits r" for r
    unfolding proxy_fields_def zero_proxy_def
    by ((rule decodes_all_Cons, (rule kind_fields; use that in \<open>simp add: proxy_fits_def\<close>))+,
        rule decodes_all_Nil, simp)
qed (simp add: proxy_fields_def field_def)

definition files_fields :: "Files jfield list" where
  "files_fields =
     [str_field_always ''root'' f_root f_root_update,
      str_field ''strip_prefix'' f_stripPrefix f_stripPrefix_update,
      bool_field ''browse'' f_browse f_browse_update]"

definition zero_files :: Files where
  "zero_files = \<lparr>f_root = [], f_stripPrefix = [], f_browse = False\<rparr>"

definition Files_UnmarshalJSON :: "Files decoder" where
  "Files_UnmarshalJSON = unmarshalJSONShorthand f_root_update files_fields"

interpretation files: object_codec "enc_struct files_fields" Files_UnmarshalJSON zero_files "\<lambda>_. True"
  unfolding Files_UnmarshalJSON_def
proof (rule shorthand_codec, rule struct_codec)
  show "decodes_all files_fields r zero_files r" for r
    unfolding files_fields_def zero_files_def
    by ((rule decodes_all_Cons, (rule kind_fields; simp))+, rule decodes_all_Nil, simp)
qed (simp add: files_fields_def field_def)

definition respond_fields :: "Respond jfield list" where
  "respond_fields =
     [int_field ''status'' rs_status rs_status_update,
      field ''headers'' (\<lambda>m. m = []) enc_strings dec_strings rs_headers rs_headers_update,
      str_field ''body'' rs_body rs_body_update]"

definition zero_respond :: Respond where
  "zero_respond = \<lparr>rs_status = 0, rs_headers = [], rs_body = []\<rparr>"

definition respond_fits :: "Respond \<Rightarrow> bool" where
  "respond_fits r \<longleftrightarrow> int64 (rs_status r) \<and> sorted_keys (rs_headers r)"

definition Respond_UnmarshalJSON :: "Respond decoder" where
  "Respond_UnmarshalJSON = unmarshalJSONShorthand rs_body_update respond_fields"

interpretation respond: object_codec "enc_struct respond_fields" Respond_UnmarshalJSON zero_respond respond_fits
  unfolding Respond_UnmarshalJSON_def
proof (rule shorthand_codec, rule struct_codec)
  show "decodes_all respond_fields r zero_respond r" if "respond_fits r" for r
    unfolding respond_fields_def zero_respond_def
    by ((rule decodes_all_Cons, (rule kind_fields; use that in \<open>simp add: respond_fits_def\<close>))+,
        rule decodes_all_Nil, simp)
qed (simp add: respond_fields_def field_def)

definition redirect_fields :: "Redirect jfield list" where
  "redirect_fields =
     [str_field_always ''to'' rd_to rd_to_update,
      int_field ''status'' rd_status rd_status_update,
      bool_field ''preserve_path'' rd_preservePath rd_preservePath_update]"

definition zero_redirect :: Redirect where
  "zero_redirect = \<lparr>rd_to = [], rd_status = 0, rd_preservePath = False\<rparr>"

definition Redirect_UnmarshalJSON :: "Redirect decoder" where
  "Redirect_UnmarshalJSON = unmarshalJSONShorthand rd_to_update redirect_fields"

interpretation redirect: object_codec "enc_struct redirect_fields" Redirect_UnmarshalJSON zero_redirect
  "\<lambda>r. int64 (rd_status r)"
  unfolding Redirect_UnmarshalJSON_def
proof (rule shorthand_codec, rule struct_codec)
  show "decodes_all redirect_fields r zero_redirect r" if "int64 (rd_status r)" for r
    unfolding redirect_fields_def zero_redirect_def
    by ((rule decodes_all_Cons, (rule kind_fields; use that in simp))+, rule decodes_all_Nil, simp)
qed (simp add: redirect_fields_def field_def)

interpretation proxy_ptr: json_codec "enc_ptr (enc_struct proxy_fields)"
  "dec_ptr Proxy_UnmarshalJSON zero_proxy" None "pred_option proxy_fits"
  by (rule proxy.ptr_codec)

interpretation files_ptr: json_codec "enc_ptr (enc_struct files_fields)"
  "dec_ptr Files_UnmarshalJSON zero_files" None "\<lambda>_. True"
  using files.ptr_codec by (simp add: option.pred_True)

interpretation respond_ptr: json_codec "enc_ptr (enc_struct respond_fields)"
  "dec_ptr Respond_UnmarshalJSON zero_respond" None "pred_option respond_fits"
  by (rule respond.ptr_codec)

interpretation redirect_ptr: json_codec "enc_ptr (enc_struct redirect_fields)"
  "dec_ptr Redirect_UnmarshalJSON zero_redirect" None "pred_option (\<lambda>r. int64 (rd_status r))"
  by (rule redirect.ptr_codec)

lemmas promoted_fields =
  proxy_ptr.decodes_promoted_field files_ptr.decodes_promoted_field
  respond_ptr.decodes_promoted_field redirect_ptr.decodes_promoted_field

abbreviation handler_proxy :: "Handler jfield" where
  "handler_proxy \<equiv> ptr_field ''proxy'' proxy_fields Proxy_UnmarshalJSON zero_proxy h_proxy h_proxy_update"
abbreviation handler_files_field :: "Handler jfield" where
  "handler_files_field \<equiv> ptr_field ''files'' files_fields Files_UnmarshalJSON zero_files h_files h_files_update"
abbreviation handler_respond :: "Handler jfield" where
  "handler_respond \<equiv> ptr_field ''respond'' respond_fields Respond_UnmarshalJSON zero_respond h_respond h_respond_update"
abbreviation handler_redirect :: "Handler jfield" where
  "handler_redirect \<equiv> ptr_field ''redirect'' redirect_fields Redirect_UnmarshalJSON zero_redirect h_redirect h_redirect_update"

definition handler_fields :: "Handler jfield list" where
  "handler_fields = [handler_proxy, handler_files_field, handler_respond, handler_redirect]"

section \<open>Names of fields\<close>

text \<open>What \<open>jsonFieldNames\<close> sees of a type by reflection: of each field its name,
  its \<open>json\<close> tag, whether it is exported, whether it is embedded, and its type.\<close>

datatype gofield = GoField (gf_name: string) (gf_tag: string) (gf_exported: bool) (gf_anonymous: bool) (gf_type: gotype)
  and gotype = GoStruct "gofield list" | GoOther

fun jsonFieldNames :: "gotype \<Rightarrow> string list" and field_names :: "gofield \<Rightarrow> string list" where
  "jsonFieldNames GoOther = []"
| "jsonFieldNames (GoStruct fs) = concat (map field_names fs)"
| "field_names (GoField name tag exported anonymous t) =
     (if tag = ''-'' \<or> \<not> exported then []
      else if anonymous \<and> tag = [] \<and> t \<noteq> GoOther then jsonFieldNames t
      else (let n = (case cutString '','' tag of Some (a, _) \<Rightarrow> a | None \<Rightarrow> tag)
            in if n = [] then [name] else [n]))"

abbreviation tagged :: "string \<Rightarrow> string \<Rightarrow> gofield" where
  "tagged name tag \<equiv> GoField name tag True False GoOther"

definition handler_type :: gotype where
  "handler_type = GoStruct
     [tagged ''Proxy'' ''proxy,omitempty'', tagged ''Files'' ''files,omitempty'',
      tagged ''Respond'' ''respond,omitempty'', tagged ''Redirect'' ''redirect,omitempty'',
      tagged ''Extensions'' ''-'']"

definition route_type :: gotype where
  "route_type = GoStruct
     [tagged ''Name'' ''name,omitempty'', tagged ''Method'' ''method,omitempty'', tagged ''Path'' ''path,omitempty'',
      tagged ''Policies'' ''policies,omitempty'', GoField ''Handler'' [] True True handler_type]"

definition site_type :: gotype where
  "site_type = GoStruct
     [tagged ''Name'' ''name,omitempty'', tagged ''Hosts'' ''hosts'', tagged ''Listeners'' ''listeners,omitempty'',
      tagged ''AllowHTTP'' ''allow_http,omitempty'', tagged ''Policies'' ''policies,omitempty'',
      tagged ''Routes'' ''routes,omitempty'', GoField ''Handler'' [] True True handler_type]"

section \<open>Extensions\<close>

definition marshalJSONWithExtensions :: "'r jfield list \<Rightarrow> 'r \<Rightarrow> (string, json) gomap \<Rightarrow> json" where
  "marshalJSONWithExtensions fs plain extensions =
     (if extensions = [] then enc_struct fs plain
      else JObj (sorted_map (enc_fields fs plain @ map (map_prod (\<lambda>k. k) canon) extensions)))"

definition unmarshalJSONWithExtensions :: "gotype \<Rightarrow> 'r jfield list \<Rightarrow>
    (((string, json) gomap \<Rightarrow> (string, json) gomap) \<Rightarrow> 'r \<Rightarrow> 'r) \<Rightarrow> 'r decoder" where
  "unmarshalJSONWithExtensions t fs upd j r =
     (case j of
        JNull \<Rightarrow> decodeJSONStrict fs JNull (upd (\<lambda>_. []) r)
      | JObj kvs \<Rightarrow>
          (let fields = sorted_map kvs;
               known = (\<lambda>e. fst e \<in> set (jsonFieldNames t));
               extensions = map (map_prod (\<lambda>k. k) canon) (filter (\<lambda>e. \<not> known e) fields)
           in decodeJSONStrict fs (JObj (filter known fields)) (upd (\<lambda>_. extensions) r))
      | _ \<Rightarrow> Inl json_mismatch)"

text \<open>Extensions that survive: named unlike any field, in the order of their
  names, with values as they are after decoding.\<close>

definition extensions_fit :: "gotype \<Rightarrow> (string, json) gomap \<Rightarrow> bool" where
  "extensions_fit t m \<longleftrightarrow> sorted_keys m \<and> (\<forall>e \<in> set m. canonical (snd e) \<and> fst e \<notin> set (jsonFieldNames t))"

lemma set_sorted_map_distinct:
  assumes "distinct (map fst kvs)"
  shows "set (sorted_map kvs) = set kvs"
proof -
  have "map_of (rev kvs) = map_of kvs"
    using assms by (intro map_of_inject_set [THEN iffD2]) (simp_all add: rev_map [symmetric])
  then have "map_of (sorted_map kvs) = map_of kvs" by (simp add: fun_eq_iff mget_sorted_map)
  then show ?thesis
    by (rule map_of_inject_set [THEN iffD1, rotated 2])
      (simp_all add: assms sorted_keys_distinct sorted_map_sorted)
qed

lemma sorted_keys_filter: "sorted_keys m \<Longrightarrow> sorted_keys (filter P m)"
  by (induction m) auto

lemma canon_extensions:
  "extensions_fit t m \<Longrightarrow> map (map_prod (\<lambda>k. k) canon) m = m"
  by (rule map_idI) (auto simp: extensions_fit_def canon_canonical)

lemma extensions_roundtrip:
  assumes known: "set (jsonFieldNames t) = fst ` set fs" and distinct: "distinct (map fst fs)"
    and gs: "set gs = set fs" "sorted_wrt byteLess (map fst gs)"
    and fit: "extensions_fit t ext" and decodes: "decodes_all gs r (upd (\<lambda>_. ext) s) r"
  shows "unmarshalJSONWithExtensions t fs upd (marshalJSONWithExtensions fs r ext) s = Inr r"
proof -
  define kvs where "kvs = enc_fields fs r @ ext"
  define known where "known = (\<lambda>e :: string \<times> json. fst e \<in> set (jsonFieldNames t))"
  have k1: "known e" if "e \<in> set (enc_fields fs r)" for e
    using enc_fields_names [OF that] assms(1) by (simp add: known_def)
  have k2: "\<not> known e" if "e \<in> set ext" for e
    using fit that by (simp add: known_def extensions_fit_def)
  have "distinct (map fst ext)" "sorted_keys ext"
    using fit by (auto simp: extensions_fit_def sorted_keys_distinct)
  moreover have "fst ` set (enc_fields fs r) \<inter> fst ` set ext = {}"
    using k1 k2 by (fastforce simp: known_def)
  ultimately have d: "distinct (map fst kvs)" "sorted_keys ext"
    using enc_fields_distinct [OF distinct] by (simp_all add: kvs_def)
  define m where "m = sorted_map kvs"
  have m: "set m = set kvs" "sorted_keys m"
    using d by (simp_all add: m_def set_sorted_map_distinct sorted_map_sorted)
  have "sorted_map (enc_fields fs r) = filter known m"
    using m k1 k2 by (intro sorted_map_eqI enc_fields_distinct distinct sorted_keys_filter) (auto simp: kvs_def)
  then have plain: "filter known m = enc_fields gs r"
    using sorted_enc_fields [OF gs(1) distinct gs(2)] by simp
  have "sorted_map ext = filter (\<lambda>e. \<not> known e) m"
    using m k1 k2 d by (intro sorted_map_eqI sorted_keys_distinct sorted_keys_filter) (auto simp: kvs_def)
  then have exts: "map (map_prod (\<lambda>k. k) canon) (filter (\<lambda>e. \<not> known e) m) = ext"
    using sorted_map_id [OF d(2)] canon_extensions [OF fit] by simp
  have "\<exists>kvs'. marshalJSONWithExtensions fs r ext = JObj kvs' \<and> sorted_map kvs' = m"
  proof (cases "ext = []")
    case True
    then show ?thesis by (simp add: marshalJSONWithExtensions_def enc_struct_def m_def kvs_def)
  next
    case False
    then show ?thesis using canon_extensions [OF fit]
      by (simp add: marshalJSONWithExtensions_def m_def kvs_def sorted_map_id sorted_map_sorted)
  qed
  then obtain kvs' where kvs': "marshalJSONWithExtensions fs r ext = JObj kvs'" "sorted_map kvs' = m" by blast
  have "rfold (dec_key fs) (enc_fields gs r) (upd (\<lambda>_. ext) s) = Inr r"
    using gs(1) by (intro decode_fields decodes lookup_field_exact distinct) simp
  then show ?thesis
    using plain exts unfolding unmarshalJSONWithExtensions_def kvs' json.case Let_def known_def decodeJSONStrict_def
    by simp
qed

section \<open>Routes and sites\<close>

definition handler_fits :: "gotype \<Rightarrow> Handler \<Rightarrow> bool" where
  "handler_fits t h \<longleftrightarrow> pred_option proxy_fits (h_proxy h) \<and> pred_option respond_fits (h_respond h) \<and>
     pred_option (\<lambda>r. int64 (rd_status r)) (h_redirect h) \<and> extensions_fit t (h_extensions h)"

abbreviation route_extensions where
  "route_extensions f \<equiv> r_handler_update (h_extensions_update f)"

definition route_own_fields :: "Route jfield list" where
  "route_own_fields =
     [str_field ''name'' r_name r_name_update,
      str_field ''method'' r_meth r_meth_update,
      str_field ''path'' r_path r_path_update,
      strs_field ''policies'' r_policies r_policies_update]"

definition route_fields :: "Route jfield list" where
  "route_fields = route_own_fields @ map (promoted r_handler r_handler_update) handler_fields"

definition zero_route :: Route where
  "zero_route = \<lparr>r_name = [], r_meth = [], r_path = [], r_policies = [], r_handler = no_handler\<rparr>"

definition route_fits :: "Route \<Rightarrow> bool" where
  "route_fits r \<longleftrightarrow> handler_fits route_type (r_handler r)"

definition Route_MarshalJSON :: "Route \<Rightarrow> json" where
  "Route_MarshalJSON r = marshalJSONWithExtensions route_fields r (h_extensions (r_handler r))"

definition Route_UnmarshalJSON :: "Route decoder" where
  "Route_UnmarshalJSON = unmarshalJSONWithExtensions route_type route_fields route_extensions"

text \<open>The fields in the order in which a map of them is written.\<close>

definition route_sorted_fields :: "Route jfield list" where
  "route_sorted_fields =
     (let p = promoted r_handler r_handler_update
      in [p handler_files_field,
          str_field ''method'' r_meth r_meth_update,
          str_field ''name'' r_name r_name_update,
          str_field ''path'' r_path r_path_update,
          strs_field ''policies'' r_policies r_policies_update,
          p handler_proxy, p handler_redirect, p handler_respond])"

lemma marshal_not_null: "marshalJSONWithExtensions fs r ext \<noteq> JNull"
  by (simp add: marshalJSONWithExtensions_def enc_struct_def)

lemma route_names: "set (jsonFieldNames route_type) = fst ` set route_fields"
  by (simp add: route_type_def handler_type_def route_fields_def route_own_fields_def handler_fields_def
      promoted_def field_def cutString.simps cutPrefix_def hasPrefix_def insert_commute)

lemma route_distinct: "distinct (map fst route_fields)"
  by (simp add: route_fields_def route_own_fields_def handler_fields_def promoted_def field_def)

lemma route_sorted: "set route_sorted_fields = set route_fields" "sorted_wrt byteLess (map fst route_sorted_fields)"
  by (simp_all add: route_sorted_fields_def route_fields_def route_own_fields_def handler_fields_def Let_def
      insert_commute) (simp add: promoted_def field_def)

lemma route_decodes:
  assumes "route_fits r"
  shows "decodes_all route_sorted_fields r (route_extensions (\<lambda>_. h_extensions (r_handler r)) zero_route) r"
  unfolding route_sorted_fields_def zero_route_def no_handler_def Let_def
  by ((rule decodes_all_Cons,
       (rule kind_fields promoted_fields;
        use assms in \<open>simp add: route_fits_def handler_fits_def\<close>))+,
      rule decodes_all_Nil, cases r, cases "r_handler r") simp

interpretation route: object_codec Route_MarshalJSON Route_UnmarshalJSON zero_route route_fits
proof unfold_locales
  show "Route_UnmarshalJSON (Route_MarshalJSON r) zero_route = Inr r" if "route_fits r" for r
    unfolding Route_UnmarshalJSON_def Route_MarshalJSON_def
    by (rule extensions_roundtrip [OF route_names route_distinct route_sorted])
      (use that route_decodes in \<open>simp_all add: route_fits_def handler_fits_def\<close>)
qed (simp add: Route_MarshalJSON_def marshal_not_null)

interpretation route_list: json_codec "enc_list Route_MarshalJSON"
  "dec_list Route_UnmarshalJSON zero_route" "[]" "list_all route_fits"
  by (rule route.list_codec)

abbreviation site_extensions where
  "site_extensions f \<equiv> s_handler_update (h_extensions_update f)"

abbreviation site_routes_field :: "Site jfield" where
  "site_routes_field \<equiv> field ''routes'' (\<lambda>l. l = []) (enc_list Route_MarshalJSON)
     (dec_list Route_UnmarshalJSON zero_route) s_routes s_routes_update"

definition site_own_fields :: "Site jfield list" where
  "site_own_fields =
     [str_field ''name'' s_name s_name_update,
      field ''hosts'' always (enc_list JStr) (dec_list dec_string []) s_hosts s_hosts_update,
      strs_field ''listeners'' s_listeners s_listeners_update,
      bool_field ''allow_http'' s_allowHTTP s_allowHTTP_update,
      strs_field ''policies'' s_policies s_policies_update,
      site_routes_field]"

definition site_fields :: "Site jfield list" where
  "site_fields = site_own_fields @ map (promoted s_handler s_handler_update) handler_fields"

definition zero_site :: Site where
  "zero_site = \<lparr>s_name = [], s_hosts = [], s_listeners = [], s_allowHTTP = False, s_policies = [],
     s_routes = [], s_handler = no_handler\<rparr>"

definition site_fits :: "Site \<Rightarrow> bool" where
  "site_fits s \<longleftrightarrow> list_all route_fits (s_routes s) \<and> handler_fits site_type (s_handler s)"

definition Site_MarshalJSON :: "Site \<Rightarrow> json" where
  "Site_MarshalJSON s = marshalJSONWithExtensions site_fields s (h_extensions (s_handler s))"

definition Site_UnmarshalJSON :: "Site decoder" where
  "Site_UnmarshalJSON = unmarshalJSONWithExtensions site_type site_fields site_extensions"

definition site_sorted_fields :: "Site jfield list" where
  "site_sorted_fields =
     (let p = promoted s_handler s_handler_update
      in [bool_field ''allow_http'' s_allowHTTP s_allowHTTP_update,
          p handler_files_field,
          field ''hosts'' always (enc_list JStr) (dec_list dec_string []) s_hosts s_hosts_update,
          strs_field ''listeners'' s_listeners s_listeners_update,
          str_field ''name'' s_name s_name_update,
          strs_field ''policies'' s_policies s_policies_update,
          p handler_proxy, p handler_redirect, p handler_respond,
          site_routes_field])"

lemma site_names: "set (jsonFieldNames site_type) = fst ` set site_fields"
  by (simp add: site_type_def handler_type_def site_fields_def site_own_fields_def handler_fields_def
      promoted_def field_def cutString.simps cutPrefix_def hasPrefix_def insert_commute)

lemma site_distinct: "distinct (map fst site_fields)"
  by (simp add: site_fields_def site_own_fields_def handler_fields_def promoted_def field_def)

lemma site_sorted: "set site_sorted_fields = set site_fields" "sorted_wrt byteLess (map fst site_sorted_fields)"
  by (simp_all add: site_sorted_fields_def site_fields_def site_own_fields_def handler_fields_def Let_def
      insert_commute) (simp add: promoted_def field_def)

lemma site_decodes:
  assumes "site_fits s"
  shows "decodes_all site_sorted_fields s (site_extensions (\<lambda>_. h_extensions (s_handler s)) zero_site) s"
  unfolding site_sorted_fields_def zero_site_def no_handler_def Let_def
  by ((rule decodes_all_Cons,
       (rule kind_fields route_list.decodes_field promoted_fields;
        use assms in \<open>simp add: site_fits_def handler_fits_def\<close>))+,
      rule decodes_all_Nil, cases s, cases "s_handler s") simp

interpretation site: object_codec Site_MarshalJSON Site_UnmarshalJSON zero_site site_fits
proof unfold_locales
  show "Site_UnmarshalJSON (Site_MarshalJSON s) zero_site = Inr s" if "site_fits s" for s
    unfolding Site_UnmarshalJSON_def Site_MarshalJSON_def
    by (rule extensions_roundtrip [OF site_names site_distinct site_sorted])
      (use that site_decodes in \<open>simp_all add: site_fits_def handler_fits_def\<close>)
qed (simp add: Site_MarshalJSON_def marshal_not_null)

interpretation site_list: json_codec "enc_list Site_MarshalJSON"
  "dec_list Site_UnmarshalJSON zero_site" "[]" "list_all site_fits"
  by (rule site.list_codec)

section \<open>Configurations\<close>

interpretation listener_list: json_codec "enc_list (enc_struct listener_fields)"
  "dec_list (decodeJSONStrict listener_fields) zero_listener" "[]" "\<lambda>_. True"
  using listener.list_codec by (simp add: list.pred_True)

interpretation policy_list: json_codec "enc_list (enc_struct policy_fields)"
  "dec_list (decodeJSONStrict policy_fields) zero_policy" "[]" "list_all policy_fits"
  by (rule policy.list_codec)

definition config_fields :: "Config jfield list" where
  "config_fields =
     [int_field ''version'' c_version c_version_update,
      bool_field ''disabled'' c_disabled c_disabled_update,
      field ''server'' always (enc_struct server_fields) (decodeJSONStrict server_fields) c_server c_server_update,
      field ''tls'' always (enc_struct tls_fields) (decodeJSONStrict tls_fields) c_tls c_tls_update,
      field ''listeners'' (\<lambda>l. l = []) (enc_list (enc_struct listener_fields))
        (dec_list (decodeJSONStrict listener_fields) zero_listener) c_listeners c_listeners_update,
      field ''policies'' (\<lambda>l. l = []) (enc_list (enc_struct policy_fields))
        (dec_list (decodeJSONStrict policy_fields) zero_policy) c_policies c_policies_update,
      field ''sites'' always (enc_list Site_MarshalJSON)
        (dec_list Site_UnmarshalJSON zero_site) c_sites c_sites_update]"

definition zero_config :: Config where
  "zero_config = \<lparr>c_version = 0, c_disabled = False, c_server = zero_server, c_tls = zero_tls,
     c_listeners = [], c_policies = [], c_sites = []\<rparr>"

text \<open>Integers and durations of 64 bits; maps in order; extensions that fit.\<close>

definition config_fits :: "Config \<Rightarrow> bool" where
  "config_fits c \<longleftrightarrow> int64 (c_version c) \<and> server_fits (c_server c) \<and> list_all policy_fits (c_policies c) \<and>
     list_all site_fits (c_sites c)"

definition config_json :: "Config \<Rightarrow> json" where
  "config_json = enc_struct config_fields"

definition json_config :: "json \<Rightarrow> Config result" where
  "json_config j = decodeJSONStrict config_fields j zero_config"

interpretation config: object_codec "enc_struct config_fields" "decodeJSONStrict config_fields" zero_config config_fits
proof (rule struct_codec)
  show "decodes_all config_fields c zero_config c" if "config_fits c" for c
    unfolding config_fields_def zero_config_def
    by ((rule decodes_all_Cons,
         (rule kind_fields server.decodes_field tls.decodes_field listener_list.decodes_field
            policy_list.decodes_field site_list.decodes_field;
          use that in \<open>simp add: config_fits_def\<close>))+,
        rule decodes_all_Nil, simp)
qed (simp add: config_fields_def field_def)


definition json_sample :: Config where
  "json_sample = zero_config\<lparr>c_version := 1,
     c_server := zero_server\<lparr>idleTimeout := 90 * second, maxHeaderBytes := 4096\<rparr>,
     c_policies := [zero_policy\<lparr>p_name := ''slow'', p_rateLimit := Some (zero_rate\<lparr>rp_burst := 5\<rparr>)\<rparr>],
     c_sites := [zero_site\<lparr>s_hosts := [''a.example''], s_handler := no_handler\<lparr>
       h_respond := Some (zero_respond\<lparr>rs_status := 200, rs_headers := [(''A'', ''x''), (''B'', ''y'')]\<rparr>)\<rparr>,
       s_routes := [zero_route\<lparr>r_handler := no_handler\<lparr>
         h_extensions := [(''worker'', JObj [(''env'', JNull), (''script'', JStr ''w.js'')])]\<rparr>\<rparr>]\<rparr>]\<rparr>"

lemma route_type_names:
  "jsonFieldNames route_type =
     [''name'', ''method'', ''path'', ''policies'', ''proxy'', ''files'', ''respond'', ''redirect'']"
  by (simp add: route_type_def handler_type_def cutString.simps cutPrefix_def hasPrefix_def)


section \<open>Unknown keys\<close>

lemma lookup_field_Some:
  assumes "lookup_field fs key = Some dec"
  shows "\<exists>f \<in> set fs. dec = snd (snd f) \<and> toLower (fst f) = toLower key"
proof -
  have found: "find P fs = Some f \<Longrightarrow> f \<in> set fs \<and> P f" for P f
    by (metis find_Some_iff nth_mem)
  show ?thesis
  proof (cases "find (\<lambda>f. fst f = key) fs")
    case None
    with assms obtain f where "find (\<lambda>f. toLower (fst f) = toLower key) fs = Some f" "dec = snd (snd f)"
      by (auto simp: lookup_field_def)
    then show ?thesis using found by blast
  next
    case (Some f)
    then have "f \<in> set fs \<and> fst f = key" by (rule found)
    moreover have "dec = snd (snd f)" using assms Some by (simp add: lookup_field_def)
    ultimately show ?thesis by auto
  qed
qed

lemma dec_key_keeps_extensions:
  assumes "dec_key site_fields e s = Inr t"
  shows "h_extensions (s_handler t) = h_extensions (s_handler s)"
proof -
  obtain f where f: "f \<in> set site_fields" "snd (snd f) (snd e) s = Inr t"
    using assms lookup_field_Some [of site_fields "fst e"] by (auto simp: dec_key_def split: option.splits)
  then show ?thesis
    by (auto simp: site_fields_def site_own_fields_def handler_fields_def field_def promoted_def result_simps)
qed

text \<open>A key that no field has, whatever its letter case, is an error.\<close>

lemma unknown_key_rejected:
  assumes "k \<in> fst ` set kvs" "\<forall>f \<in> set fs. toLower (fst f) \<noteq> toLower k"
  shows "\<exists>e. decodeJSONStrict fs (JObj kvs) r = Inl e"
proof (rule ccontr)
  assume "\<nexists>e. decodeJSONStrict fs (JObj kvs) r = Inl e"
  then obtain t where t: "rfold (dec_key fs) kvs r = Inr t"
    by (cases "rfold (dec_key fs) kvs r") (auto simp: decodeJSONStrict_def)
  from assms(1) obtain v where "(k, v) \<in> set kvs" by auto
  from rfold_step [OF t this] obtain u w where "dec_key fs (k, v) u = Inr w" by blast
  then show False
    using assms(2) lookup_field_Some [of fs k] by (auto simp: dec_key_def split: option.splits)
qed

text \<open>C30: A decoded site has as extensions exactly the keys of the JSON object that
  are not names of its fields, promoted ones included, each with its last value,
  whatever extensions the site had before.\<close>

theorem site_unknown_keys:
  assumes "Site_UnmarshalJSON (JObj kvs) s = Inr t"
  shows "mget (h_extensions (s_handler t)) k =
           (if k \<in> set (jsonFieldNames site_type) then None else map_option canon (mget (rev kvs) k))"
proof -
  define ext where "ext = map (map_prod (\<lambda>k. k) canon)
    (filter (\<lambda>e. fst e \<notin> set (jsonFieldNames site_type)) (sorted_map kvs))"
  have "rfold (dec_key site_fields) (filter (\<lambda>e. fst e \<in> set (jsonFieldNames site_type)) (sorted_map kvs))
          (site_extensions (\<lambda>_. ext) s) = Inr t"
    using assms by (simp add: Site_UnmarshalJSON_def unmarshalJSONWithExtensions_def Let_def decodeJSONStrict_def ext_def)
  then have "h_extensions (s_handler t) = ext"
    by (rule rfold_invariant) (simp_all add: dec_key_keeps_extensions)
  moreover have "map_of (map (map_prod (\<lambda>k. k) canon) m) k = map_option canon (map_of m k)" for m
    by (induction m) auto
  moreover have "map_of (filter (\<lambda>e. fst e \<notin> X) m) k = (if k \<in> X then None else map_of m k)" for m :: "(string \<times> json) list" and X
    by (induction m) auto
  ultimately show "mget (h_extensions (s_handler t)) k =
       (if k \<in> set (jsonFieldNames site_type) then None else map_option canon (mget (rev kvs) k))"
    by (simp add: ext_def mget_sorted_map)
qed

theorem site_unknown_keys_witness:
  "case Site_UnmarshalJSON (JObj [(''worker'', JStr ''w.js''), (''proxy'', JStr ''http://u''), (''worker'', JNull)]) zero_site of
     Inl e \<Rightarrow> False
   | Inr t \<Rightarrow> mget (h_extensions (s_handler t)) ''worker'' = Some JNull"
proof -
  define j where "j = [(''worker'', JStr ''w.js''), (''proxy'', JStr ''http://u''), (''worker'', JNull)]"
  have names: "jsonFieldNames site_type = [''name'', ''hosts'', ''listeners'', ''allow_http'', ''policies'',
      ''routes'', ''proxy'', ''files'', ''respond'', ''redirect'']"
    by (simp add: site_type_def handler_type_def cutString.simps cutPrefix_def hasPrefix_def)
  have "\<exists>t. Site_UnmarshalJSON (JObj j) zero_site = Inr t"
    by (simp add: Site_UnmarshalJSON_def unmarshalJSONWithExtensions_def names j_def sorted_map_def Let_def
        decodeJSONStrict_def dec_key_def lookup_field_def site_fields_def site_own_fields_def handler_fields_def
        field_def promoted_def dec_ptr_def Proxy_UnmarshalJSON_def unmarshalJSONShorthand_def)
  then obtain t where t: "Site_UnmarshalJSON (JObj j) zero_site = Inr t" by blast
  have "mget (h_extensions (s_handler t)) ''worker'' = Some JNull"
    using site_unknown_keys [OF t, of "''worker''"] by (simp add: names j_def)
  then show ?thesis using t by (simp add: j_def)
qed

end
