(* ===== verification/Api_Json.thy ===== *)
theory Api_Json
  imports Api_Changes Encoding
begin

text \<open>
  The management API over the JSON form of the configuration: what a client reads
  from \<open>GET /config\<close> it may send back by \<open>PUT\<close>. The text of JSON values (what
  \<open>Encoder\<close> writes and how \<open>Decoder\<close> reads a value off a text) is a parameter; the
  tree a text stands for is decoded by \<open>json_config\<close>.
\<close>

text \<open>The decoder of configurations: a value off the front of the text, then its tree.\<close>

definition config_decoder :: "(bool \<Rightarrow> string \<Rightarrow> (json \<times> string) result) \<Rightarrow> bool \<Rightarrow> string \<Rightarrow> (Config \<times> string) result" where
  "config_decoder parse over text =
     rbind (parse over text) (\<lambda>(j, rest). rbind (json_config j) (\<lambda>c. Inr (c, rest)))"

text \<open>The response of \<open>GET /config\<close> to a client whose connection takes \<open>room\<close> bytes.\<close>

definition config_response :: "('l, 'w, 'f) api_env \<Rightarrow> request \<Rightarrow> nat \<Rightarrow> ('l, 'w, 'f) api_exchange \<Rightarrow> tracker" where
  "config_response env get room x = x_tracker (snd (getConfig env get (x\<lparr>x_tracker := newTracker room\<rparr>)))"

lemma config_response_body:
  assumes "length (ap_encode env (PConfig (api_config x))) \<le> room"
  shows "rw_body (config_response env get room x) = ap_encode env (PConfig (api_config x))"
  using assms
  by (simp add: config_response_def getConfig_def Let_def writeJSON_def writeBody_def writeHeader_def setHeader_def
      on_tracker_def newTracker_def tracker_Write_def tracker_WriteHeader_def under_write_def under_start_def
      under_writeHeader_def bodyAllowed_def final_code_def api_config_def)

lemma config_response_etag:
  "headerGet (rw_header (config_response env get room x)) ''ETag'' = etag env (api_config x)"
proof -
  have k: "canonicalKey ''ETag'' = ''Etag''" "canonicalKey ''Content-Type'' = ''Content-Type''"
    "canonicalKey ''Cache-Control'' = ''Cache-Control''" by code_simp+
  have c: "api_config (x\<lparr>x_tracker := t\<rparr>) = api_config x" for t by (simp add: api_config_def)
  show ?thesis
    by (simp add: config_response_def getConfig_def Let_def writeJSON_def writeBody_def writeHeader_def setHeader_def
        on_tracker_def newTracker_def tracker_Write_def tracker_WriteHeader_def under_write_def under_start_def
        under_writeHeader_def c k)
qed



end
