(* ===== verification/Web.thy ===== *)
theory Web
  imports Api_Changes
begin

text \<open>
  \<open>web/web.go\<close> and the admin listener of \<open>cmd/yabber/run.go\<close>: the management
  panel's assets and API behind one token, and the listener that adds the health
  and metrics endpoints. Of the standard library it models base64, HTTP basic
  authentication, \<open>http.StripPrefix\<close> and \<open>http.CrossOriginProtection\<close>; the file
  server is the one of the files handler. Writing a file's content is a parameter.
\<close>

section \<open>Authentication\<close>

text \<open>\<open>Request.BasicAuth\<close>: the user and the password.\<close>

definition basicAuth :: "request \<Rightarrow> (string \<times> string) option" where
  "basicAuth r =
     (let auth = headerGet (r_header r) ''Authorization'' in
      if toLower (take 6 auth) \<noteq> ''basic '' then None
      else case base64Decode (drop 6 auth) of None \<Rightarrow> None | Some c \<Rightarrow> cutChar CHR '':'' c)"

text \<open>\<open>authorized\<close>; comparing in constant time is comparing.\<close>

definition web_authorized :: "request \<Rightarrow> string \<Rightarrow> bool" where
  "web_authorized r token =
     (case cutPrefix (headerGet (r_header r) ''Authorization'') ''Bearer '' of
        Some bearer \<Rightarrow> bearer = token
      | None \<Rightarrow> (case basicAuth r of None \<Rightarrow> False | Some (_, password) \<Rightarrow> password = token))"

section \<open>Cross-origin requests\<close>

text \<open>\<open>CrossOriginProtection.Check\<close> without trusted origins or bypass patterns.\<close>

definition crossOrigin_check :: "request \<Rightarrow> string option" where
  "crossOrigin_check r =
     (let site = headerGet (r_header r) ''Sec-Fetch-Site''; origin = headerGet (r_header r) ''Origin'' in
      if r_method r \<in> {''GET'', ''HEAD'', ''OPTIONS''} then None
      else if site = ''same-origin'' \<or> site = ''none'' then None
      else if site \<noteq> [] then Some ''cross-origin request detected from Sec-Fetch-Site header''
      else if origin = [] then None
      else if (case urlParse origin of Some u \<Rightarrow> u_host u = r_host r | None \<Rightarrow> False) then None
      else Some ''cross-origin request detected, and/or browser is out of date: Sec-Fetch-Site is missing, and Origin does not match Host'')"

definition crossOriginProtection :: "'g middleware" where
  "crossOriginProtection h = (\<lambda>r x.
     case crossOrigin_check r of None \<Rightarrow> h r x | Some message \<Rightarrow> (Returned, httpError message 403 x))"

text \<open>\<open>http.StripPrefix\<close>, which cuts bytes and not whole segments.\<close>

definition httpStripPrefix :: "string \<Rightarrow> 'g middleware" where
  "httpStripPrefix prefix h = (\<lambda>r x.
     let u = r_url r; p = trimPrefix (u_path u) prefix; rp = trimPrefix (u_rawpath u) prefix in
     if prefix = [] then h r x
     else if length p < length (u_path u) \<and> (u_rawpath u = [] \<or> length rp < length (u_rawpath u))
     then h (r\<lparr>r_url := u\<lparr>u_path := p, u_rawpath := rp\<rparr>\<rparr>) x
     else httpNotFound r x)"

section \<open>The panel's assets\<close>

text \<open>The inline import maps: the shortest texts between the tags, from left to right.\<close>

definition importMap_open :: string where
  "importMap_open = ''<script type='' @ [CHR 0x22] @ ''importmap'' @ [CHR 0x22] @ ''>''"

function importMaps :: "string \<Rightarrow> string list" where
  "importMaps s =
     (case cutString importMap_open s of
        None \<Rightarrow> []
      | Some (_, t) \<Rightarrow>
          (case cutString ''</script>'' t of
             None \<Rightarrow> []
           | Some (m, u) \<Rightarrow> m # importMaps u))"
  by pat_completeness auto

text \<open>Every round cuts two tags off.\<close>

termination importMaps
  by (relation "measure length") (auto dest!: cutString_Some)

declare importMaps.simps [simp del]

definition sq :: "string \<Rightarrow> string" where
  "sq s = [CHR 0x27] @ s @ [CHR 0x27]"

definition web_policy :: string where
  "web_policy = ''default-src '' @ sq ''self'' @ ''; img-src '' @ sq ''self'' @ '' data:; style-src '' @ sq ''self'' @ '' '' @
     sq ''unsafe-inline'' @ ''; '' @ ''connect-src '' @ sq ''self'' @ ''; object-src '' @ sq ''none'' @ ''; base-uri '' @
     sq ''self'' @ ''; form-action '' @ sq ''self'' @ ''; frame-ancestors '' @ sq ''none''"

definition csp :: "(string \<Rightarrow> string) \<Rightarrow> string \<Rightarrow> string" where
  "csp sha256 index =
     ''script-src '' @ foldl (\<lambda>scripts m. scripts @ '' '' @ sq (''sha256-'' @ base64Encode (sha256 m))) (sq ''self'') (importMaps index) @
     ''; '' @ web_policy"

text \<open>The embedded files, by path; directories are the paths above them.\<close>

type_synonym assets = "(string \<times> string) list"

definition assets_open :: "assets \<Rightarrow> fileSystem" where
  "assets_open ui name =
     (let p = (if name = ''/'' then ''.'' else trimPrefix name ''/'') in
      if mhas ui p then Inr \<lparr>fl_name = p, fl_isDir = False, fl_statFails = False\<rparr>
      else if p = ''.'' \<or> list_ex (\<lambda>(q, _). hasPrefix q (p @ ''/'')) ui
      then Inr \<lparr>fl_name = p, fl_isDir = True, fl_statFails = False\<rparr>
      else Inl FsNotExist)"

definition asset_etag :: "(string \<Rightarrow> string) \<Rightarrow> string \<Rightarrow> string" where
  "asset_etag sha256 data = [CHR 0x22] @ hexEncode (take 8 (sha256 data)) @ [CHR 0x22]"

definition containsDotDot :: "string \<Rightarrow> bool" where
  "containsDotDot p = list_ex (\<lambda>q. ''..'' \<in> set (splitChar CHR 0x5C q)) (splitChar CHR ''/'' p)"

text \<open>\<open>http.ServeFileFS\<close> of a file that exists: the name is given, the URL is only checked.\<close>

definition serveFileFS :: "(openFile \<Rightarrow> 'g handler) \<Rightarrow> fileSystem \<Rightarrow> string \<Rightarrow> 'g handler" where
  "serveFileFS content fs name r x =
     (if containsDotDot (u_path (r_url r)) then (Returned, httpError ''invalid URL path'' 400 x)
      else if hasSuffix (u_path (r_url r)) ''/index.html'' then (Returned, localRedirect r ''./'' x)
      else case fs name of Inl e \<Rightarrow> (Returned, fsErrorPage e x) | Inr f \<Rightarrow> content f r x)"

text \<open>\<open>static\<close>.\<close>

definition web_static :: "(string \<Rightarrow> string) \<Rightarrow> (openFile \<Rightarrow> 'g handler) \<Rightarrow> (openFile \<Rightarrow> 'g handler) \<Rightarrow> assets \<Rightarrow> 'g handler" where
  "web_static sha256 content listing ui r x =
     (let index = (case mget ui ''index.html'' of Some d \<Rightarrow> d | None \<Rightarrow> []);
          clean = trimPrefix (pathClean (CHR ''/'' # u_path (r_url r))) ''/'';
          name = (if clean = [] then ''index.html'' else clean) in
      if r_method r \<noteq> ''GET'' \<and> r_method r \<noteq> ''HEAD''
      then (Returned, httpError ''method not allowed'' 405 (setHeader ''Allow'' ''GET, HEAD'' x))
      else case mget ui name of
        None \<Rightarrow> httpNotFound r x
      | Some data \<Rightarrow>
          (let x1 = setHeader ''X-Content-Type-Options'' ''nosniff'' (setHeader ''Cache-Control'' ''no-cache''
                 (setHeader ''ETag'' (asset_etag sha256 data) x))
           in if name = ''index.html''
              then serveFileFS content (assets_open ui) name r (setHeader ''Content-Security-Policy'' (csp sha256 index) x1)
              else fileServer content listing (assets_open ui) r x1))"

section \<open>The panel and the admin listener\<close>

text \<open>What is outside: the API's environment, the embedded files, and the writers of \<open>net/http\<close>.\<close>

record ('l, 'w, 'f) web_env =
  wb_api :: "('l, 'w, 'f) api_env"
  wb_files :: assets
  wb_content :: "openFile \<Rightarrow> ('l, 'w, 'f) api_handler"
  wb_listing :: "openFile \<Rightarrow> ('l, 'w, 'f) api_handler"
  wb_seconds :: "64 word \<Rightarrow> string"

definition web_assets :: "('l, 'w, 'f) web_env \<Rightarrow> ('l, 'w, 'f) api_handler" where
  "web_assets env = web_static (ap_sha256 (wb_api env)) (wb_content env) (wb_listing env) (wb_files env)"

definition web_mux :: "('l, 'w, 'f) web_env \<Rightarrow> ('l, 'w, 'f) api_handler serveMux result" where
  "web_mux env = rfold (\<lambda>(pattern, h). mux_register pattern h)
     [(''/api/'', httpStripPrefix ''/api'' (api_serve (wb_api env))), (''/'', web_assets env)] []"

definition mux_or_panic :: "'g handler serveMux result \<Rightarrow> 'g handler" where
  "mux_or_panic m r x = (case m of Inl e \<Rightarrow> (Panicked (PanicValue []), x) | Inr mux \<Rightarrow> mux_serve mux r x)"

definition Standalone :: "('l, 'w, 'f) web_env \<Rightarrow> string \<Rightarrow> ('l, 'w, 'f) api_handler" where
  "Standalone env token r x =
     (if \<not> web_authorized r token
      then (Returned, httpError ''unauthorized: use the token from admin.token'' 401
             (setHeader ''WWW-Authenticate'' (''Basic realm='' @ [CHR 0x22] @ ''yabber'' @ [CHR 0x22] @ '', charset='' @
                [CHR 0x22] @ ''UTF-8'' @ [CHR 0x22]) x))
      else crossOriginProtection (mux_or_panic (web_mux env)) r x)"

text \<open>A handler of the server, run on the server in the API's state.\<close>

definition on_server :: "('l, 'w) server handler \<Rightarrow> ('l, 'w, 'f) api_handler" where
  "on_server h r x =
     (let (out, y) = h r \<lparr>x_tracker = x_tracker x, x_state = x_state x, x_now = x_now x, x_shared = aw_server (x_shared x)\<rparr>
      in (out, x\<lparr>x_tracker := x_tracker y, x_state := x_state y, x_now := x_now y,
                 x_shared := (x_shared x)\<lparr>aw_server := x_shared y\<rparr>\<rparr>))"

text \<open>The handler of the admin listener in \<open>runCommand\<close>.\<close>

definition admin_mux :: "('l, 'w, 'f) web_env \<Rightarrow> string \<Rightarrow> ('l, 'w, 'f) api_handler serveMux result" where
  "admin_mux env token = rfold (\<lambda>(pattern, h). mux_register pattern h)
     [(''GET /healthz'', on_server Healthz),
      (''GET /metrics'', on_server (Prometheus (wb_seconds env) (ap_metrics (wb_api env)))),
      (''/'', Standalone env token)] []"

definition admin_serve :: "('l, 'w, 'f) web_env \<Rightarrow> string \<Rightarrow> ('l, 'w, 'f) api_handler" where
  "admin_serve env token = mux_or_panic (admin_mux env token)"


section \<open>What a mux serves\<close>

text \<open>The path a mux matches, and what becomes of a request: a registered handler, or an answer of the mux's own.\<close>

definition mux_path :: "request \<Rightarrow> string" where
  "mux_path r = (if r_method r = ''CONNECT'' then escapedPath (r_url r) else cleanPath (escapedPath (r_url r)))"

lemma plain_shared [simp]:
  "x_shared (setHeader n v x) = x_shared x" "x_shared (writeHeader c x) = x_shared x" "x_shared (writeBody d x) = x_shared x"
  "x_shared (httpRedirect r u c x) = x_shared x"
  by (simp_all add: httpRedirect_def Let_def writeHeader_def writeBody_def setHeader_def)

lemma tracker_only [simp]:
  "x_tracker (httpRedirect r u c (x\<lparr>x_shared := w\<rparr>)) = x_tracker (httpRedirect r u c x)"
  "x_tracker (httpError m c (x\<lparr>x_shared := w\<rparr>)) = x_tracker (httpError m c x)"
  "x_tracker (writeHeader c (x\<lparr>x_shared := w\<rparr>)) = x_tracker (writeHeader c x)"
  "setHeader n v (x\<lparr>x_shared := w\<rparr>) = (setHeader n v x)\<lparr>x_shared := w\<rparr>"
  by (simp_all add: httpRedirect_def httpError_def Let_def writeHeader_def writeBody_def setHeader_def delHeader_def on_tracker_def)

text \<open>An answer that neither changes the state nor shows it.\<close>

definition blind :: "'g handler \<Rightarrow> request \<Rightarrow> bool" where
  "blind h r \<longleftrightarrow> (\<forall>x. x_shared (snd (h r x)) = x_shared x) \<and>
     (\<forall>x w. x_tracker (snd (h r (x\<lparr>x_shared := w\<rparr>))) = x_tracker (snd (h r x)))"

lemma findHandler_Serve: "findHandler mux r = Serve e \<Longrightarrow> tree_match mux (r_method r) (mux_path r) = Some e"
  by (auto simp: findHandler_def matchOrRedirect_def mux_path_def Let_def split: if_splits option.splits)

lemma mux_serve_cases:
  obtains (entry) p h where "tree_match mux (r_method r) (mux_path r) = Some (p, h)" and "mux_serve mux r = h r"
    | (own) "blind (mux_serve mux) r"
proof (cases "u_path (r_url r) = ''*''")
  case True
  then have "blind (mux_serve mux) r" by (simp add: blind_def mux_serve_def)
  then show ?thesis by (rule own)
next
  case star: False
  show ?thesis
  proof (cases "findHandler mux r")
    case (Serve e)
    then show ?thesis using findHandler_Serve [OF Serve] star entry [of "fst e" "snd e"] by (cases e) (simp add: mux_serve_def fun_eq_iff)
  next
    case (RedirectTo u)
    then have "blind (mux_serve mux) r" using star by (simp add: blind_def mux_serve_def)
    then show ?thesis by (rule own)
  next
    case (NoMatch ms)
    then have "blind (mux_serve mux) r" using star by (simp add: blind_def mux_serve_def httpNotFound_def)
    then show ?thesis by (rule own)
  qed
qed

lemma tree_match_pathless:
  assumes "\<forall>(p, h) \<in> set mux. pt_segs p \<noteq> []"
  shows "tree_match mux m [] = None"
proof -
  have "atNode [] (methodNode n mux) = None" for n
    using assms by (auto simp: atNode_None methodNode_def)
  then show ?thesis by (simp add: tree_match_def pathSegs_def)
qed

lemma pathSegs_pos: "path \<noteq> [] \<Longrightarrow> pathSegs path \<noteq> []"
  using pathSegs_slash [of "drop 1 path"] by (simp add: pathSegs_def)

section \<open>Reads of the API change nothing\<close>

lemma tree_api_index:
  assumes "tree_match (api_mux env) m path = Some e"
  shows "e = api_mux env ! api_index m (pathSegs path)"
proof -
  have "\<forall>p \<in> set api_patterns. pt_segs p \<noteq> []" by (simp add: api_patterns_def)
  then have "\<forall>(p, h) \<in> set (api_mux env). pt_segs p \<noteq> []" by (auto simp: api_mux_def dest: set_zip_leftD)
  from tree_match_pathless [OF this] have "path \<noteq> []" using assms by auto
  then show ?thesis using tree_api [OF pathSegs_pos, of path env m] assms by simp
qed

lemma api_read_index:
  assumes "m \<notin> {''PUT'', ''POST'', ''DELETE''}"
  shows "api_index m segs \<in> {0, 1, 3, 5, 8, 9, 10, 11}"
proof -
  define g where "g = (if m = ''HEAD'' then ''GET'' else m)"
  have n: "g \<noteq> ''PUT''" "g \<noteq> ''POST''" "g \<noteq> ''DELETE''" using assms by (simp_all add: g_def)
  have i: "(if c then x else y) \<in> S" if "x \<in> S" "y \<in> S" for c x y and S :: "nat set" using that by simp
  show ?thesis
  proof (cases segs rule: remdups_adj.cases)
    case (3 s j rest)
    show ?thesis
    proof (cases rest)
      case Nil
      show ?thesis unfolding 3 Nil api_index_def Let_def g_def [symmetric] list.case
        by (simp only: n simp_thms if_False) (intro i; simp)
    qed (simp add: 3 api_index_def)
  next
    case (2 s)
    show ?thesis unfolding 2 api_index_def Let_def g_def [symmetric] list.case
      by (simp only: n simp_thms if_False) (intro i; simp)
  qed (simp add: api_index_def)
qed

lemma api_read_endpoint:
  assumes "n \<in> {0, 1, 3, 5, 8, 9, 10, 11}"
  shows "x_shared (snd (snd (api_endpoints env ! n) r x)) = x_shared x"
proof -
  have "x_shared (snd (api_status env r x)) = x_shared x" "x_shared (snd (getConfig env r x)) = x_shared x"
    "x_shared (snd (listSites env r x)) = x_shared x" "x_shared (snd (getSite env i r x)) = x_shared x"
    "x_shared (snd (api_certificates env r x)) = x_shared x" "x_shared (snd (api_events env r x)) = x_shared x"
    "x_shared (snd (api_metrics env r x)) = x_shared x" "x_shared (snd (no_endpoint env r x)) = x_shared x" for i
    by (simp_all add: api_status_def getConfig_def listSites_def getSite_def api_certificates_def api_events_def
        api_metrics_def no_endpoint_def Let_def split: option.split)
  then show ?thesis using assms by (auto simp: endpoints_nth simp del: One_nat_def)
qed

lemma api_serve_mux: "api_serve env r x = mux_serve (api_mux env) r x"
  by (simp add: api_serve_def api_New_mux api_mux_def)

lemma api_reads:
  assumes "r_method r \<notin> {''PUT'', ''POST'', ''DELETE''}"
  shows "x_shared (snd (api_serve env r x)) = x_shared x"
proof (cases rule: mux_serve_cases [of "api_mux env" r])
  case (entry p h)
  define n where "n = api_index (r_method r) (pathSegs (mux_path r))"
  have "(p, h) = api_mux env ! n" unfolding n_def by (rule tree_api_index [OF entry(1)])
  then have h: "h = api_handle env (snd (api_endpoints env ! n))"
    using api_entry [of n env] api_index_bound by (simp add: n_def)
  have "x_shared (snd (snd (api_endpoints env ! n) r x)) = x_shared x"
    unfolding n_def by (rule api_read_endpoint [OF api_read_index [OF assms]])
  then show ?thesis by (simp add: api_serve_mux entry(2) h api_handle_def)
next
  case own
  then show ?thesis by (simp add: blind_def api_serve_mux)
qed


section \<open>The muxes of the panel and of the admin listener\<close>

definition web_patterns :: "pattern list" where
  "web_patterns = map (\<lambda>ss. \<lparr>pt_method = [], pt_segs = ss\<rparr>) [[Lit ''api'', Multi []], [Multi []]]"

definition admin_patterns :: "pattern list" where
  "admin_patterns = map (\<lambda>(m, ss). \<lparr>pt_method = m, pt_segs = ss\<rparr>)
     [(''GET'', [Lit ''healthz'']), (''GET'', [Lit ''metrics'']), ([], [Multi []])]"

lemma web_patterns_ok:
  "sorted_wrt apart web_patterns" "map parsePattern [''/api/'', ''/''] = map Inr web_patterns"
  "sorted_wrt apart admin_patterns" "map parsePattern [''GET /healthz'', ''GET /metrics'', ''/''] = map Inr admin_patterns"
  unfolding apart_def by code_simp+

definition web_entries :: "('l, 'w, 'f) web_env \<Rightarrow> ('l, 'w, 'f) api_handler serveMux" where
  "web_entries env = zip web_patterns [httpStripPrefix ''/api'' (api_serve (wb_api env)), web_assets env]"

definition admin_entries :: "('l, 'w, 'f) web_env \<Rightarrow> string \<Rightarrow> ('l, 'w, 'f) api_handler serveMux" where
  "admin_entries env token = zip admin_patterns
     [on_server Healthz, on_server (Prometheus (wb_seconds env) (ap_metrics (wb_api env))), Standalone env token]"

lemma web_mux_entries: "web_mux env = Inr (web_entries env)"
  using mux_register_all [of "[(''/api/'', httpStripPrefix ''/api'' (api_serve (wb_api env))), (''/'', web_assets env)]"
      web_patterns "[]" "\<lambda>h. h"] web_patterns_ok(1,2)
  by (simp add: web_mux_def web_entries_def web_patterns_def)

lemma admin_mux_entries: "admin_mux env token = Inr (admin_entries env token)"
  using mux_register_all [of "[(''GET /healthz'', on_server Healthz),
      (''GET /metrics'', on_server (Prometheus (wb_seconds env) (ap_metrics (wb_api env)))), (''/'', Standalone env token)]"
      admin_patterns "[]" "\<lambda>h. h"] web_patterns_ok(3,4)
  by (simp add: admin_mux_def admin_entries_def admin_patterns_def)

lemma web_match:
  "pathSegs path \<noteq> [] \<Longrightarrow> tree_match (web_entries env) m path =
     Some (web_entries env ! (if hd (pathSegs path) = ''api'' \<and> tl (pathSegs path) \<noteq> [] then 0 else 1))"
proof -
  assume "pathSegs path \<noteq> []"
  then obtain s ss where p: "pathSegs path = s # ss" by (cases "pathSegs path") auto
  have n: "methodNode n (web_entries env) = (if n = [] then
      [([K ''api'', KMulti], web_entries env ! 0), ([KMulti], web_entries env ! 1)] else [])" for n
    by (simp add: methodNode_def web_entries_def web_patterns_def)
  show ?thesis by (cases ss) (simp_all add: tree_match_def n p)
qed

definition admin_index :: "string \<Rightarrow> string list \<Rightarrow> nat" where
  "admin_index m segs = (if m \<in> {''GET'', ''HEAD''} \<and> segs = [''healthz''] then 0
     else if m \<in> {''GET'', ''HEAD''} \<and> segs = [''metrics''] then 1 else 2)"

lemma admin_match:
  "pathSegs path \<noteq> [] \<Longrightarrow> tree_match (admin_entries env token) m path =
     Some (admin_entries env token ! admin_index m (pathSegs path))"
proof -
  assume "pathSegs path \<noteq> []"
  then obtain s ss where p: "pathSegs path = s # ss" by (cases "pathSegs path") auto
  have n: "methodNode n (admin_entries env token) = (if n = ''GET'' then
        [([K ''healthz''], admin_entries env token ! 0), ([K ''metrics''], admin_entries env token ! 1)]
      else if n = [] then [([KMulti], admin_entries env token ! 2)] else [])" for n
    by (simp add: methodNode_def admin_entries_def admin_patterns_def)
  show ?thesis by (cases ss) (simp_all add: tree_match_def n p admin_index_def matchPath_leaf)
qed

lemma entries_nth:
  "snd (web_entries env ! 0) = httpStripPrefix ''/api'' (api_serve (wb_api env))" "snd (web_entries env ! 1) = web_assets env"
  "snd (admin_entries env token ! 0) = on_server Healthz"
  "snd (admin_entries env token ! 1) = on_server (Prometheus (wb_seconds env) (ap_metrics (wb_api env)))"
  "snd (admin_entries env token ! 2) = Standalone env token"
  by (simp_all add: web_entries_def web_patterns_def admin_entries_def admin_patterns_def)

text \<open>A matched path is not empty.\<close>

lemma matched_path:
  "tree_match (web_entries env) m path = Some e \<Longrightarrow> path \<noteq> []"
  "tree_match (admin_entries env token) m path = Some e \<Longrightarrow> path \<noteq> []"
  using tree_match_pathless [of "web_entries env" m] tree_match_pathless [of "admin_entries env token" m]
  by (auto simp: web_entries_def web_patterns_def admin_entries_def admin_patterns_def)

lemma web_served:
  obtains (api) "mux_serve (web_entries env) r = httpStripPrefix ''/api'' (api_serve (wb_api env)) r"
    | (assets) "mux_serve (web_entries env) r = web_assets env r"
    | (own) "blind (mux_serve (web_entries env)) r"
proof (cases rule: mux_serve_cases [of "web_entries env" r])
  case (entry p h)
  have "Some (p, h) = Some (web_entries env ! (if hd (pathSegs (mux_path r)) = ''api'' \<and> tl (pathSegs (mux_path r)) \<noteq> [] then 0 else 1))"
    using web_match [OF pathSegs_pos [OF matched_path(1) [OF entry(1)]], of env "r_method r"] entry(1) by (simp only:)
  then have "web_entries env ! 0 = (p, h) \<or> web_entries env ! 1 = (p, h)" by (simp split: if_splits)
  then have "h = httpStripPrefix ''/api'' (api_serve (wb_api env)) \<or> h = web_assets env"
    using entries_nth(1,2) [of env] by auto
  then show ?thesis using api assets entry(2) by blast
qed (rule own)

lemma admin_served:
  obtains (open_endpoint) "admin_index (r_method r) (pathSegs (mux_path r)) \<noteq> 2"
      and "mux_serve (admin_entries env token) r = snd (admin_entries env token ! admin_index (r_method r) (pathSegs (mux_path r))) r"
    | (panel) "mux_serve (admin_entries env token) r = Standalone env token r"
    | (own) "blind (mux_serve (admin_entries env token)) r"
proof (cases rule: mux_serve_cases [of "admin_entries env token" r])
  case (entry p h)
  have e: "(p, h) = admin_entries env token ! admin_index (r_method r) (pathSegs (mux_path r))"
    using admin_match [OF pathSegs_pos [OF matched_path(2) [OF entry(1)]], of env token "r_method r"] entry(1) by simp
  show ?thesis
  proof (cases "admin_index (r_method r) (pathSegs (mux_path r)) = 2")
    case True
    then show ?thesis using panel entry(2) e entries_nth(5) by (metis snd_conv)
  next
    case False
    then show ?thesis using open_endpoint entry(2) e by (metis snd_conv)
  qed
qed (rule own)


section \<open>Who changes and sees what\<close>

definition same_origin :: "request \<Rightarrow> bool" where
  "same_origin r \<longleftrightarrow>
     (let site = headerGet (r_header r) ''Sec-Fetch-Site''; origin = headerGet (r_header r) ''Origin'' in
      site \<in> {''same-origin'', ''none''} \<or>
      site = [] \<and> (origin = [] \<or> (\<exists>u. urlParse origin = Some u \<and> u_host u = r_host r)))"

lemma crossOrigin_same:
  assumes "crossOrigin_check r = None" and "r_method r \<in> {''PUT'', ''POST'', ''DELETE''}"
  shows "same_origin r"
proof -
  have "r_method r \<notin> {''GET'', ''HEAD'', ''OPTIONS''}" using assms(2) by auto
  then show ?thesis using assms(1)
    unfolding crossOrigin_check_def same_origin_def Let_def
    by (cases "urlParse (headerGet (r_header r) ''Origin'')") (auto split: if_splits)
qed

definition keeps_shared :: "(openFile \<Rightarrow> 'g handler) \<Rightarrow> bool" where
  "keeps_shared w \<longleftrightarrow> (\<forall>f r x. x_shared (snd (w f r x)) = x_shared x)"

lemma serveFile_keeps:
  "keeps_shared c \<Longrightarrow> keeps_shared l \<Longrightarrow> x_shared (snd (serveFile c l fs name r x)) = x_shared x"
proof -
  have e: "x_shared (fsErrorPage e x) = x_shared x" "x_shared (localRedirect r q x) = x_shared x" for e q
    by (simp_all add: fsErrorPage_def localRedirect_def split: fsError.split)
  assume "keeps_shared c" "keeps_shared l"
  then show ?thesis unfolding serveFile_def Let_def keeps_shared_def by (simp add: e split: sum.split)
qed

lemma assets_keep:
  assumes "keeps_shared (wb_content env)" and "keeps_shared (wb_listing env)"
  shows "x_shared (snd (web_assets env r x)) = x_shared x"
proof -
  have e: "x_shared (fsErrorPage e x) = x_shared x" "x_shared (localRedirect r q x) = x_shared x" for e q and x :: "('a, 'b, 'c) api_exchange"
    by (simp_all add: fsErrorPage_def localRedirect_def split: fsError.split)
  have "x_shared (snd (serveFileFS (wb_content env) fs name r y)) = x_shared y" for fs name y
    using assms(1) by (simp add: serveFileFS_def keeps_shared_def e split: sum.split)
  moreover have "x_shared (snd (fileServer (wb_content env) (wb_listing env) fs r y)) = x_shared y" for fs y
    by (simp add: fileServer_def Let_def serveFile_keeps [OF assms])
  ultimately show ?thesis
    by (simp add: web_assets_def web_static_def Let_def httpNotFound_def split: option.split)
qed

lemma open_endpoints_keep:
  "x_shared (snd (on_server Healthz r x)) = x_shared x"
  "x_shared (snd (on_server (Prometheus s m) r x)) = x_shared x"
  by (simp_all add: on_server_def Healthz_def Prometheus_def)

lemma Standalone_guard:
  assumes "keeps_shared (wb_content env)" and "keeps_shared (wb_listing env)"
    and "x_shared (snd (Standalone env token r x)) \<noteq> x_shared x"
  shows "web_authorized r token \<and> same_origin r \<and> r_method r \<in> {''PUT'', ''POST'', ''DELETE''} \<and> hasPrefix (u_path (r_url r)) ''/api''"
proof -
  have auth: "web_authorized r token" using assms(3) by (auto simp: Standalone_def split: if_splits)
  have check: "crossOrigin_check r = None" and ch: "x_shared (snd (mux_serve (web_entries env) r x)) \<noteq> x_shared x"
    using assms(3) by (auto simp: Standalone_def crossOriginProtection_def mux_or_panic_def web_mux_entries split: option.splits if_splits)
  show ?thesis
  proof (cases rule: web_served [of env r])
    case api
    define r' where "r' = r\<lparr>r_url := (r_url r)\<lparr>u_path := trimPrefix (u_path (r_url r)) ''/api'', u_rawpath := trimPrefix (u_rawpath (r_url r)) ''/api''\<rparr>\<rparr>"
    have p: "length (trimPrefix (u_path (r_url r)) ''/api'') < length (u_path (r_url r))"
      and a: "x_shared (snd (api_serve (wb_api env) r' x)) \<noteq> x_shared x"
      using ch by (auto simp: api httpStripPrefix_def Let_def httpNotFound_def r'_def split: if_splits)
    have "r_method r' \<in> {''PUT'', ''POST'', ''DELETE''}" using api_reads [of r' "wb_api env" x] a by blast
    moreover have "hasPrefix (u_path (r_url r)) ''/api''" using p by (simp add: trimPrefix_def split: if_splits)
    ultimately show ?thesis using auth crossOrigin_same [OF check] by (simp add: r'_def)
  next
    case assets
    then show ?thesis using ch assets_keep [OF assms(1,2)] by simp
  next
    case own
    then show ?thesis using ch by (simp add: blind_def)
  qed
qed

lemma Standalone_blind: "\<not> web_authorized r token \<Longrightarrow> blind (Standalone env token) r"
  by (simp add: blind_def Standalone_def)



text \<open>A panel over the sample API, which leaves authentication to it.\<close>

definition web_sample_env :: "(rat \<times> int \<times> rat \<times> int option, int, Config option) web_env" where
  "web_sample_env = \<lparr>wb_api = api_sample_env\<lparr>ap_token := []\<rparr>, wb_files = [(''index.html'', ''<html>'')],
     wb_content = (\<lambda>f r x. (Returned, writeBody (fl_name f) x)), wb_listing = (\<lambda>f r x. (Returned, x)), wb_seconds = (\<lambda>_. [])\<rparr>"

lemma web_sample_keeps: "keeps_shared (wb_content web_sample_env)" "keeps_shared (wb_listing web_sample_env)"
  by (simp_all add: keeps_shared_def web_sample_env_def)

definition admin_request :: "string \<Rightarrow> header \<Rightarrow> request" where
  "admin_request m hdr = (get_request ''h'' ''/api/config'' ''1.2.3.4:5'' hdr)\<lparr>r_method := m\<rparr>"


section \<open>What gets through\<close>

lemma mux_serve_direct:
  assumes "cleanPath (escapedPath (r_url r)) = escapedPath (r_url r)" and "r_method r \<noteq> ''CONNECT''" and "u_path (r_url r) \<noteq> ''*''"
    and "tree_match mux (r_method r) (escapedPath (r_url r)) = Some (p, h)"
    and "\<not> exactMatch (tree_match mux (r_method r) (escapedPath (r_url r) @ ''/'')) (escapedPath (r_url r) @ ''/'')"
  shows "mux_serve mux r = h r"
  using assms by (simp add: mux_serve_def findHandler_def matchOrRedirect_def Let_def fun_eq_iff)

lemma escapeWith_append: "escapeWith keep (a @ b) = escapeWith keep a @ escapeWith keep b"
  by (simp add: escapeWith_def)

lemma api_path_segs: "\<exists>s ss. pathSegs (''/api/'' @ q) = ''api'' # s # ss"
proof -
  have "splitChar CHR ''/'' (''api/'' @ q) = ''api'' # splitChar CHR ''/'' q" by simp
  moreover obtain t ts where "splitChar CHR ''/'' q = t # ts" by (cases "splitChar CHR ''/'' q") auto
  moreover have "pathUnescape ''api'' = ''api''" by code_simp
  ultimately show ?thesis by (auto simp: pathSegs_def)
qed

lemma crossOrigin_passes:
  assumes "same_origin r \<or> r_method r \<in> {''GET'', ''HEAD''}"
  shows "crossOrigin_check r = None"
proof (cases "r_method r \<in> {''GET'', ''HEAD'', ''OPTIONS''}")
  case True
  then show ?thesis unfolding crossOrigin_check_def Let_def by (simp only: if_True)
next
  case False
  then have "same_origin r" using assms by blast
  then consider (site) "headerGet (r_header r) ''Sec-Fetch-Site'' = ''same-origin'' \<or> headerGet (r_header r) ''Sec-Fetch-Site'' = ''none''"
    | (origin) "headerGet (r_header r) ''Sec-Fetch-Site'' = []" and "headerGet (r_header r) ''Origin'' = []"
    | (host) u where "headerGet (r_header r) ''Sec-Fetch-Site'' = []" and "urlParse (headerGet (r_header r) ''Origin'') = Some u" and "u_host u = r_host r"
    unfolding same_origin_def Let_def by blast
  then show ?thesis
    by cases (simp_all add: crossOrigin_check_def Let_def)
qed

lemma web_authorized_header:
  assumes "headerGet (r_header r) ''Authorization'' \<in> {''Bearer '' @ token, ''Basic '' @ base64Encode (user @ '':'' @ token)}"
    and "CHR '':'' \<notin> set user"
  shows "web_authorized r token"
proof (cases "headerGet (r_header r) ''Authorization'' = ''Bearer '' @ token")
  case True
  then show ?thesis by (simp add: web_authorized_def cutPrefix_def hasPrefix_def)
next
  case False
  then have a: "headerGet (r_header r) ''Authorization'' = ''Basic '' @ base64Encode (user @ '':'' @ token)" using assms(1) by blast
  have "toLower ''Basic '' = ''basic ''" by code_simp
  moreover have "cutChar CHR '':'' (user @ '':'' @ token) = Some (user, token)" using assms(2) by (induction user) auto
  ultimately have "basicAuth r = Some (user, token)" by (simp add: basicAuth_def a b64_roundtrip)
  then show ?thesis by (simp add: web_authorized_def a cutPrefix_def hasPrefix_def)
qed




end
