(* ===== verification/Self_Update.thy ===== *)
theory Self_Update
  imports Save Base64
begin

text \<open>
  \<open>cmd/yabber/update.go\<close>: replacing the running binary by a release. What the
  network answers, the signature and hash functions, the platform, running the
  staged binary and the operating system's answers are fields of \<open>update_env\<close>;
  the file system is the map of \<open>Save\<close>.
\<close>

section \<open>The environment\<close>

text \<open>A response: its status, its body and the error reading the body ends with, if any.\<close>

type_synonym http_response = "nat \<times> string \<times> gerror option"

record update_env =
  ue_do :: "string \<Rightarrow> http_response result"
  ue_verify :: "string \<Rightarrow> string \<Rightarrow> string \<Rightarrow> bool"
  ue_sha256 :: "string \<Rightarrow> string"
  ue_goos :: string
  ue_goarch :: string
  ue_settings :: "(string \<times> string) list"
  ue_executable :: "string result"
  ue_temp :: "string option"
  ue_write :: write_result
  ue_close :: bool
  ue_chmod :: bool
  ue_run :: "string \<Rightarrow> string \<times> gerror option"
  ue_rename :: "string \<Rightarrow> string \<Rightarrow> bool"

text \<open>\<open>releaseKey\<close>, decoded: 32 bytes, so the program does not panic at its start.\<close>

definition releaseKey :: string where
  "releaseKey = ''ZD30+ASsK/qKYEJ6xj2S7qb/sBKa/p6giw4fxjHNVfE=''"

definition mustDecodeKey :: "string \<Rightarrow> string option" where
  "mustDecodeKey encoded = (case base64Decode encoded of None \<Rightarrow> None | Some key \<Rightarrow> if length key \<noteq> 32 then None else Some key)"

definition releasePublicKey :: string where
  "releasePublicKey = the (mustDecodeKey releaseKey)"

lemma releaseKey_decodes: "mustDecodeKey releaseKey \<noteq> None"
  by code_simp

section \<open>Fetching\<close>

definition ue_get :: "update_env \<Rightarrow> string \<Rightarrow> (string \<times> gerror option) result" where
  "ue_get env url =
     rbind (ue_do env url) (\<lambda>(status, body, err).
       if status \<noteq> 200 then Inl (Errorf ''GET %s: %s'' [url, itoa_nat status]) else Inr (body, err))"

text \<open>\<open>io.ReadAll\<close> of a \<open>LimitReader\<close>: at most \<open>limit\<close> bytes, and an error only if it comes before them.\<close>

definition fetch :: "update_env \<Rightarrow> string \<Rightarrow> nat \<Rightarrow> string result" where
  "fetch env url limit =
     rbind (ue_get env url) (\<lambda>(body, err).
       if limit \<le> length body then Inr (take limit body)
       else case err of None \<Rightarrow> Inr body | Some e \<Rightarrow> Inl e)"

definition releasesURL :: string where
  "releasesURL = ''https://github.com/lsongdev/yabber/releases''"

definition releaseBase :: "string \<Rightarrow> string \<Rightarrow> string result" where
  "releaseBase mirror tag =
     (if mirror \<noteq> [] \<and> tag \<noteq> [] then Inl (Errorf ''-version does not apply to a mirror; point -mirror at that release's files'' [])
      else if mirror \<noteq> [] then Inr (trimSuffix mirror ''/'')
      else if tag \<noteq> [] then Inr (releasesURL @ ''/download/'' @ tag)
      else Inr (releasesURL @ ''/latest/download''))"

definition parse_checksums :: "string \<Rightarrow> (string, string) gomap" where
  "parse_checksums sumfile =
     foldl (\<lambda>m line. case cutString ''  '' line of None \<Rightarrow> m | Some (digest, name) \<Rightarrow> mput name digest m) [] (splitChar CHR 0x0A sumfile)"

definition verifiedChecksums :: "update_env \<Rightarrow> string \<Rightarrow> string \<Rightarrow> (string, string) gomap result" where
  "verifiedChecksums env base key =
     rbind (fetch env (base @ ''/SHA256SUMS'') (2 ^ 20)) (\<lambda>sumfile.
     rbind (fetch env (base @ ''/SHA256SUMS.sig'') (2 ^ 10)) (\<lambda>encoded.
       case base64Decode (trimSpace encoded) of
         None \<Rightarrow> Inl (Errorf ''SHA256SUMS is not signed by the yabber release key; refusing to update'' [])
       | Some signature \<Rightarrow>
           if ue_verify env key sumfile signature then Inr (parse_checksums sumfile)
           else Inl (Errorf ''SHA256SUMS is not signed by the yabber release key; refusing to update'' [])))"

section \<open>The platform\<close>

definition buildSetting :: "update_env \<Rightarrow> string \<Rightarrow> string \<Rightarrow> string" where
  "buildSetting env key fallback_value =
     (case List.find (\<lambda>(k, v). k = key \<and> v \<noteq> []) (ue_settings env) of Some (_, v) \<Rightarrow> v | None \<Rightarrow> fallback_value)"

definition assetName :: "update_env \<Rightarrow> string" where
  "assetName env =
     (let name = ''yabber_'' @ ue_goos env @ ''_'' @ ue_goarch env;
          name1 = (if ue_goarch env = ''arm'' then name @ ''_v'' @ buildSetting env ''GOARM'' ''7''
                   else if ue_goarch env = ''mips'' \<or> ue_goarch env = ''mipsle''
                   then name @ ''_'' @ buildSetting env ''GOMIPS'' ''softfloat'' else name)
      in if ue_goos env = ''windows'' then name1 @ ''.exe'' else name1)"

section \<open>Files\<close>

definition fileSHA256 :: "update_env \<Rightarrow> string \<Rightarrow> files \<Rightarrow> string result" where
  "fileSHA256 env path fs =
     (case mget fs path of None \<Rightarrow> Inl ErrNotExist | Some (data, _) \<Rightarrow> Inr (hexEncode (ue_sha256 env data)))"

text \<open>
  \<open>io.Copy\<close> to the file and the hash stops at the first failing write or read. The hash
  is only looked at without an error, when it is that of the whole body.
\<close>

definition download :: "update_env \<Rightarrow> string \<Rightarrow> string \<Rightarrow> (files, string) action" where
  "download env url want fs =
     (case ue_get env url of
        Inl e \<Rightarrow> (Inl e, fs)
      | Inr (body, readErr) \<Rightarrow>
          (case ue_temp env of
             None \<Rightarrow> (Inl (Wrapf ''stage update next to the binary: %w'' [] (osError ''createtemp'')), fs)
           | Some name \<Rightarrow>
               (let data = written (ue_write env) body;
                    err = (case ue_write env of
                        FailedAfter _ \<Rightarrow> Some (osError ''write'')
                      | Written \<Rightarrow> (case readErr of
                            Some e \<Rightarrow> Some e
                          | None \<Rightarrow>
                              if \<not> ue_close env then Some (osError ''close'')
                              else if hexEncode (ue_sha256 env body) \<noteq> want
                              then Some (Errorf ''checksum mismatch: got %s, want %s'' [hexEncode (ue_sha256 env body), want])
                              else if \<not> ue_chmod env then Some (osError ''chmod'') else None))
                in case err of
                     Some e \<Rightarrow> (Inl e, mdel name fs)
                   | None \<Rightarrow> (Inr name, mput name (data, 0x1ED) fs))))"

definition os_rename :: "update_env \<Rightarrow> string \<Rightarrow> string \<Rightarrow> (files, unit) action" where
  "os_rename env a b fs =
     (case mget fs a of
        None \<Rightarrow> (Inl ErrNotExist, fs)
      | Some f \<Rightarrow> if ue_rename env a b then (Inr (), mput b f (mdel a fs)) else (Inl (osError ''rename''), fs))"

definition replaceExecutable :: "update_env \<Rightarrow> string \<Rightarrow> string \<Rightarrow> (files, unit) action" where
  "replaceExecutable env staged executable =
     (if ue_goos env = ''windows''
      then abind (aupd (mdel (executable @ ''.old''))) (\<lambda>_.
           abind (os_rename env executable (executable @ ''.old'')) (\<lambda>_.
             os_rename env staged executable))
      else os_rename env staged executable)"

section \<open>The command\<close>

datatype update_outcome = UpToDate | Available | Updated

text \<open>\<open>defer os.Remove (staged)\<close> runs on every path after the download.\<close>

definition install :: "update_env \<Rightarrow> string \<Rightarrow> string \<Rightarrow> (files, update_outcome) action" where
  "install env staged executable =
     adefer (mdel staged)
       (case ue_run env staged of (out, err) \<Rightarrow>
          if err \<noteq> None \<or> \<not> hasPrefix out ''yabber ''
          then afail (Errorf ''the downloaded binary failed `version`: %s'' [trimSpace out])
          else abind (replaceExecutable env staged executable) (\<lambda>_. aok Updated))"

definition updateCommand :: "update_env \<Rightarrow> bool \<Rightarrow> string \<Rightarrow> string \<Rightarrow> (files, update_outcome) action" where
  "updateCommand env check tag mirror fs =
     (case rbind (releaseBase mirror tag) (\<lambda>base.
           rbind (ue_executable env) (\<lambda>executable.
           rbind (verifiedChecksums env base releasePublicKey) (\<lambda>sumfile.
             case mget sumfile (assetName env) of
               None \<Rightarrow> Inl (Errorf ''the release has no %s'' [assetName env])
             | Some want \<Rightarrow> Inr (base, executable, want)))) of
        Inl e \<Rightarrow> (Inl e, fs)
      | Inr (base, executable, want) \<Rightarrow>
          if fileSHA256 env executable fs = Inr want then (Inr UpToDate, fs)
          else if check then (Inr Available, fs)
          else abind (download env (base @ ''/'' @ assetName env) want) (\<lambda>staged. install env staged executable) fs)"

section \<open>Only signed releases are installed\<close>

lemma abind_eq: "abind m f s = (case m s of (Inl e, t) \<Rightarrow> (Inl e, t) | (Inr x, t) \<Rightarrow> f x t)"
  by (simp add: abind_def)

text \<open>What a completed download leaves: the staged file, with the wanted hash.\<close>

lemma download_effect:
  assumes "download env url want fs = (res, fs')"
  shows "case res of
      Inl e \<Rightarrow> fs' = fs \<or> (\<exists>t. ue_temp env = Some t \<and> fs' = mdel t fs)
    | Inr t \<Rightarrow> ue_temp env = Some t \<and> (\<exists>data. fs' = mput t (data, 0x1ED) fs \<and> hexEncode (ue_sha256 env data) = want)"
  using assms by (auto simp: download_def Let_def written_def split: sum.splits option.splits write_result.splits if_splits prod.splits)

text \<open>The files that matter: the executable, its old copy and everything else.\<close>

lemma replace_effect:
  assumes "replaceExecutable env staged exe fs = (res, fs')" and "mget fs staged = Some new"
    and "staged \<noteq> exe" and "staged \<noteq> exe @ ''.old''"
  shows "(\<forall>p. p \<notin> {staged, exe, exe @ ''.old''} \<longrightarrow> mget fs' p = mget fs p) \<and>
    (ue_goos env \<noteq> ''windows'' \<longrightarrow> mget fs' (exe @ ''.old'') = mget fs (exe @ ''.old'')) \<and>
    (case res of
       Inr _ \<Rightarrow> mget fs' exe = Some new
     | Inl _ \<Rightarrow> mget fs' exe = mget fs exe \<or>
         ue_goos env = ''windows'' \<and> mget fs' exe = None \<and> mget fs' (exe @ ''.old'') = mget fs exe)"
  using assms
  by (auto simp: replaceExecutable_def abind_eq aupd_def os_rename_def split: if_splits option.splits prod.splits sum.splits)

definition signed_release :: "update_env \<Rightarrow> string \<Rightarrow> bool" where
  "signed_release env data \<longleftrightarrow> (\<exists>sumfile signature. ue_verify env releasePublicKey sumfile signature \<and>
     mget (parse_checksums sumfile) (assetName env) = Some (hexEncode (ue_sha256 env data)))"

lemma verifiedChecksums_Inr:
  "verifiedChecksums env base key = Inr m \<Longrightarrow> \<exists>sumfile signature. ue_verify env key sumfile signature \<and> m = parse_checksums sumfile"
  by (auto simp: verifiedChecksums_def rbind_Inr_iff split: option.splits if_splits)

definition stage_fresh :: "update_env \<Rightarrow> string \<Rightarrow> files \<Rightarrow> bool" where
  "stage_fresh env exe fs \<longleftrightarrow> (\<forall>t. ue_temp env = Some t \<longrightarrow> mget fs t = None \<and> t \<noteq> exe \<and> t \<noteq> exe @ ''.old'')"

lemma install_effect:
  assumes "install env staged exe fs = (res, fs')" and "mget fs staged = Some new"
    and "staged \<noteq> exe" and "staged \<noteq> exe @ ''.old''"
  shows "mget fs' staged = None \<and>
    (\<forall>p. p \<notin> {staged, exe, exe @ ''.old''} \<longrightarrow> mget fs' p = mget fs p) \<and>
    (ue_goos env \<noteq> ''windows'' \<longrightarrow> mget fs' (exe @ ''.old'') = mget fs (exe @ ''.old'')) \<and>
    (case res of
       Inr u \<Rightarrow> u = Updated \<and> mget fs' exe = Some new \<and> (case ue_run env staged of (out, err) \<Rightarrow> err = None \<and> hasPrefix out ''yabber '')
     | Inl _ \<Rightarrow> mget fs' exe = mget fs exe \<or>
         ue_goos env = ''windows'' \<and> mget fs' exe = None \<and> mget fs' (exe @ ''.old'') = mget fs exe)"
proof -
  obtain out err where run: "ue_run env staged = (out, err)" by fastforce
  show ?thesis
  proof (cases "err \<noteq> None \<or> \<not> hasPrefix out ''yabber ''")
    case True
    then have "fs' = mdel staged fs" "\<exists>e. res = Inl e" using assms(1) by (auto simp: install_def adefer_def run afail_def)
    then show ?thesis using assms(3,4) by auto
  next
    case False
    obtain rr fs1 where rep: "replaceExecutable env staged exe fs = (rr, fs1)" by fastforce
    have out: "fs' = mdel staged fs1" "res = (case rr of Inl e \<Rightarrow> Inl e | Inr _ \<Rightarrow> Inr Updated)"
      using assms(1) False by (auto simp: install_def adefer_def run abind_eq aok_def rep split: sum.splits)
    from replace_effect [OF rep assms(2-4)] show ?thesis
      using assms(3,4) False by (cases rr) (auto simp: out run)
  qed
qed

lemma command_cases:
  assumes "updateCommand env check tag mirror fs = (res, fs')" and "ue_executable env = Inr exe"
  shows "(fs' = fs \<and> res \<noteq> Inr Updated) \<or> \<not> check \<and>
    (\<exists>sumfile signature want url rd fs1. ue_verify env releasePublicKey sumfile signature \<and>
      mget (parse_checksums sumfile) (assetName env) = Some want \<and> download env url want fs = (rd, fs1) \<and>
      (case rd of Inl e \<Rightarrow> res = Inl e \<and> fs' = fs1 | Inr staged \<Rightarrow> install env staged exe fs1 = (res, fs')))"
proof (cases "rbind (releaseBase mirror tag) (\<lambda>base. rbind (ue_executable env) (\<lambda>executable.
    rbind (verifiedChecksums env base releasePublicKey) (\<lambda>sumfile. case mget sumfile (assetName env) of
      None \<Rightarrow> Inl (Errorf ''the release has no %s'' [assetName env]) | Some want \<Rightarrow> Inr (base, executable, want))))")
  case (Inl e)
  then show ?thesis using assms(1) by (auto simp: updateCommand_def)
next
  case (Inr p)
  obtain base exe' want where p: "p = (base, exe', want)" by (cases p) auto
  from Inr obtain m where m: "verifiedChecksums env base releasePublicKey = Inr m" "mget m (assetName env) = Some want" "exe' = exe"
    by (auto simp: p rbind_Inr_iff assms(2) split: option.splits)
  from verifiedChecksums_Inr [OF m(1)] obtain sumfile signature where s: "ue_verify env releasePublicKey sumfile signature" "m = parse_checksums sumfile"
    by blast
  show ?thesis
  proof (cases "fileSHA256 env exe fs = Inr want \<or> check")
    case True
    then show ?thesis using assms(1) by (auto simp: updateCommand_def Inr p m(3) split: if_splits)
  next
    case False
    define url where "url = base @ ''/'' @ assetName env"
    obtain rd fs1 where d: "download env url want fs = (rd, fs1)" by fastforce
    have "case rd of Inl e \<Rightarrow> res = Inl e \<and> fs' = fs1 | Inr staged \<Rightarrow> install env staged exe fs1 = (res, fs')"
      using assms(1) False unfolding updateCommand_def Inr p m(3) sum.case prod.case url_def [symmetric]
      by (auto simp: abind_eq d split: sum.splits)
    then show ?thesis using False s m(2) d by blast
  qed
qed


definition sample_update :: update_env where
  "sample_update = \<lparr>ue_do = (\<lambda>url. Inr (200, if hasSuffix url ''/SHA256SUMS'' then ''626f6f  yabber_linux_amd64'' @ [CHR 0x0A]
       else if hasSuffix url ''.sig'' then ''c2ln'' else ''new'', None)),
     ue_verify = (\<lambda>key m s. s = ''sig''), ue_sha256 = (\<lambda>d. if d = ''new'' then ''boo'' else ''old''), ue_goos = ''linux'', ue_goarch = ''amd64'',
     ue_settings = [], ue_executable = Inr ''/bin/yabber'', ue_temp = Some ''/bin/.yabber-update-1'', ue_write = Written,
     ue_close = True, ue_chmod = True, ue_run = (\<lambda>_. (''yabber v2'', None)), ue_rename = (\<lambda>_ _. True)\<rparr>"

lemma sample_update_run:
  "updateCommand sample_update False [] [] [(''/bin/yabber'', ''old'', 0x1ED)] = (Inr Updated, [(''/bin/yabber'', ''new'', 0x1ED)])"
proof -
  let ?base = "releasesURL @ ''/latest/download''"
  have urls: "hasSuffix (?base @ ''/SHA256SUMS'') ''/SHA256SUMS''" "\<not> hasSuffix (?base @ ''/SHA256SUMS.sig'') ''/SHA256SUMS''"
    "hasSuffix (?base @ ''/SHA256SUMS.sig'') ''.sig''" "\<not> hasSuffix (?base @ ''/yabber_linux_amd64'') ''/SHA256SUMS''"
    "\<not> hasSuffix (?base @ ''/yabber_linux_amd64'') ''.sig''" by code_simp+
  have parts: "base64Decode (trimSpace ''c2ln'') = Some ''sig''" "assetName sample_update = ''yabber_linux_amd64''"
    "parse_checksums (''626f6f  yabber_linux_amd64'' @ [CHR 0x0A]) = [(''yabber_linux_amd64'', ''626f6f'')]"
    "releaseBase [] [] = Inr ?base" "hexEncode ''boo'' = ''626f6f''" "hexEncode ''old'' \<noteq> ''626f6f''" "hasPrefix ''yabber v2'' ''yabber ''" by code_simp+
  have got: "fetch sample_update (?base @ ''/SHA256SUMS'') (2 ^ 20) = Inr (''626f6f  yabber_linux_amd64'' @ [CHR 0x0A])"
    "fetch sample_update (?base @ ''/SHA256SUMS.sig'') (2 ^ 10) = Inr ''c2ln''"
    "ue_get sample_update (?base @ ''/yabber_linux_amd64'') = Inr (''new'', None)"
    using urls by (simp_all add: fetch_def ue_get_def sample_update_def)
  have f: "ue_executable sample_update = Inr ''/bin/yabber''" "ue_run sample_update s = (''yabber v2'', None)"
    "ue_goos sample_update = ''linux''" "ue_rename sample_update a b" "ue_sha256 sample_update ''old'' = ''old''" for s a b
    by (simp_all add: sample_update_def)
  have v: "verifiedChecksums sample_update ?base releasePublicKey = Inr [(''yabber_linux_amd64'', ''626f6f'')]"
    unfolding verifiedChecksums_def got rbind.simps parts by (simp add: sample_update_def parts(3) [simplified])
  have "download sample_update (?base @ ''/yabber_linux_amd64'') ''626f6f'' fs = (Inr ''/bin/.yabber-update-1'', mput ''/bin/.yabber-update-1'' (''new'', 0x1ED) fs)" for fs
    unfolding download_def got sum.case prod.case by (simp add: sample_update_def written_def parts)
  then have d: "download sample_update (releasesURL @ ''/latest/download/yabber_linux_amd64'') ''626f6f'' fs =
      (Inr ''/bin/.yabber-update-1'', mput ''/bin/.yabber-update-1'' (''new'', 0x1ED) fs)" for fs by simp
  have i: "install sample_update ''/bin/.yabber-update-1'' ''/bin/yabber'' (mput ''/bin/.yabber-update-1'' (''new'', 0x1ED) [(''/bin/yabber'', ''old'', 0x1ED)]) =
      (Inr Updated, [(''/bin/yabber'', ''new'', 0x1ED)])"
    by (simp add: install_def adefer_def f parts abind_eq replaceExecutable_def os_rename_def aok_def)
  show ?thesis
    unfolding updateCommand_def parts(4) rbind.simps f(1) v parts(2)
    by (simp add: parts(6) fileSHA256_def f abind_eq d i [simplified])
qed


text \<open>The Windows case does occur: with the second rename failing there is no executable left.\<close>

lemma windows_rename_failure:
  "mget (snd (replaceExecutable (sample_update\<lparr>ue_goos := ''windows'', ue_rename := (\<lambda>a b. a = ''yabber.exe'')\<rparr>)
     ''staged'' ''yabber.exe'' [(''yabber.exe'', ''old'', 0x1ED), (''staged'', ''new'', 0x1ED)])) ''yabber.exe'' = None"
  by code_simp

text \<open>Updating again after an update that succeeded, from the same release, finds nothing to do.\<close>

lemma updateCommand_Updated:
  assumes "updateCommand env check tag mirror fs = (Inr Updated, fs')" and "ue_executable env = Inr exe" and "stage_fresh env exe fs"
  shows "updateCommand env check' tag mirror fs' = (Inr UpToDate, fs')"
proof -
  let ?plan = "rbind (releaseBase mirror tag) (\<lambda>base. rbind (ue_executable env) (\<lambda>executable.
    rbind (verifiedChecksums env base releasePublicKey) (\<lambda>sumfile. case mget sumfile (assetName env) of
      None \<Rightarrow> Inl (Errorf ''the release has no %s'' [assetName env]) | Some want \<Rightarrow> Inr (base, executable, want))))"
  obtain p where p: "?plan = Inr p" using assms(1) by (cases ?plan) (auto simp: updateCommand_def)
  obtain base exe' want where q: "p = (base, exe', want)" by (cases p) auto
  have exe: "exe' = exe" using p assms(2) by (auto simp: q rbind_Inr_iff split: option.splits)
  define url where "url = base @ ''/'' @ assetName env"
  have run: "abind (download env url want) (\<lambda>staged. install env staged exe) fs = (Inr Updated, fs')"
    using assms(1) unfolding updateCommand_def p q sum.case prod.case url_def exe by (simp split: if_splits)
  obtain rd fs1 where d: "download env url want fs = (rd, fs1)" by fastforce
  obtain staged where rd: "rd = Inr staged" using run by (cases rd) (auto simp: abind_eq d)
  then have i: "install env staged exe fs1 = (Inr Updated, fs')" using run by (simp add: abind_eq d)
  from download_effect [OF d] obtain data where "ue_temp env = Some staged" "fs1 = mput staged (data, 0x1ED) fs"
    and hash: "hexEncode (ue_sha256 env data) = want" by (auto simp: rd)
  then have "mget fs1 staged = Some (data, 0x1ED)" "staged \<noteq> exe" "staged \<noteq> exe @ ''.old''"
    using assms(3) by (auto simp: stage_fresh_def)
  from install_effect [OF i this] have "mget fs' exe = Some (data, 0x1ED)" by simp
  then have "fileSHA256 env exe fs' = Inr want" by (simp add: fileSHA256_def hash)
  then show ?thesis unfolding updateCommand_def p q sum.case prod.case exe by simp
qed

text \<open>Updating settles: when an update has installed a release, running it again from the same release, with
  \<open>-check\<close> or without, reports that the binary is up to date and changes nothing.\<close>

theorem update_settles:
  assumes "updateCommand env check tag mirror fs = (Inr Updated, fs')" and "ue_executable env = Inr exe" and "stage_fresh env exe fs"
  shows "updateCommand env check' tag mirror fs' = (Inr UpToDate, fs')"
  by (rule updateCommand_Updated [OF assms])

theorem update_settles_witness:
  "updateCommand sample_update True [] [] (snd (updateCommand sample_update False [] [] [(''/bin/yabber'', ''old'', 0x1ED)])) =
   (Inr UpToDate, [(''/bin/yabber'', ''new'', 0x1ED)])"
proof -
  let ?fs = "[(''/bin/yabber'', ''old'', 0x1ED)]"
  have r: "updateCommand sample_update False [] [] ?fs = (Inr Updated, [(''/bin/yabber'', ''new'', 0x1ED)])" by (rule sample_update_run)
  have e: "ue_executable sample_update = Inr ''/bin/yabber''" by (simp add: sample_update_def)
  have f: "stage_fresh sample_update ''/bin/yabber'' ?fs" by (simp add: stage_fresh_def sample_update_def)
  from update_settles [OF r e f, of True] show ?thesis unfolding r by simp
qed

end
