(* ===== verification/Pid_File.thy ===== *)
theory Pid_File
  imports Go_Strings
begin

text \<open>
  \<open>cmd/yabber/pidfile_unix.go\<close>: the pid file that makes one instance own a data
  directory. Processes interleave, so each system call is a step of a transition
  system: file_opens or creating the file, taking the lock, writing the pid,
  removing the path, closing the descriptor, and exiting without any of it. The
  kernel's side is the inode at the path and the inodes' contents; a process
  holds the lock of the inode it has locked until it closes it or exits.
\<close>

section \<open>Processes and files\<close>

text \<open>Where a process is in \<open>acquirePidFile\<close>, the run between, and \<open>release\<close>.\<close>

datatype phase =
    Outside
  | Opened nat
  | Locked nat
  | Running nat
  | Removed nat

record pid_world =
  pw_path :: "nat option"
  pw_content :: "nat \<Rightarrow> string"
  pw_next :: nat
  pw_phase :: "nat \<Rightarrow> phase"

definition holds :: "pid_world \<Rightarrow> nat \<Rightarrow> nat \<Rightarrow> bool" where
  "holds w p i \<longleftrightarrow> pw_phase w p \<in> {Locked i, Running i, Removed i}"

definition set_phase :: "nat \<Rightarrow> phase \<Rightarrow> pid_world \<Rightarrow> pid_world" where
  "set_phase p ph w = w\<lparr>pw_phase := (pw_phase w)(p := ph)\<rparr>"

section \<open>System calls\<close>

text \<open>\<open>open\<close> with \<open>O_CREATE\<close>: the inode at the path, or a new one.\<close>

definition pid_open :: "nat \<Rightarrow> pid_world \<Rightarrow> pid_world" where
  "pid_open p w =
     (case pw_path w of
        Some i \<Rightarrow> set_phase p (Opened i) w
      | None \<Rightarrow> set_phase p (Opened (pw_next w))
          (w\<lparr>pw_path := Some (pw_next w), pw_content := (pw_content w)(pw_next w := []), pw_next := Suc (pw_next w)\<rparr>))"

text \<open>\<open>flock\<close> without blocking; when another process holds the lock the file is closed and the start fails.\<close>

definition pid_lock :: "nat \<Rightarrow> nat \<Rightarrow> bool \<Rightarrow> pid_world \<Rightarrow> pid_world" where
  "pid_lock p i held w = set_phase p (if held then Outside else Locked i) w"

definition pid_text :: "nat \<Rightarrow> string" where
  "pid_text p = itoa_nat p @ [CHR 0x0A]"

definition pid_write :: "nat \<Rightarrow> nat \<Rightarrow> pid_world \<Rightarrow> pid_world" where
  "pid_write p i w = set_phase p (Running i) (w\<lparr>pw_content := (pw_content w)(i := pid_text p)\<rparr>)"

definition pid_remove :: "nat \<Rightarrow> nat \<Rightarrow> pid_world \<Rightarrow> pid_world" where
  "pid_remove p i w = set_phase p (Removed i) (w\<lparr>pw_path := None\<rparr>)"

definition pid_close :: "nat \<Rightarrow> pid_world \<Rightarrow> pid_world" where
  "pid_close p w = set_phase p Outside w"

definition lock_held :: "nat \<Rightarrow> nat \<Rightarrow> pid_world \<Rightarrow> bool" where
  "lock_held p i w \<longleftrightarrow> (\<exists>q. q \<noteq> p \<and> holds w q i)"

inductive pid_step :: "pid_world \<Rightarrow> pid_world \<Rightarrow> bool" where
  file_opens: "pw_phase w p = Outside \<Longrightarrow> pid_step w (pid_open p w)"
| locking: "pw_phase w p = Opened i \<Longrightarrow> pid_step w (pid_lock p i (lock_held p i w) w)"
| writing: "pw_phase w p = Locked i \<Longrightarrow> pid_step w (pid_write p i w)"
| removing: "pw_phase w p = Running i \<Longrightarrow> pid_step w (pid_remove p i w)"
| file_closes: "pw_phase w p = Removed i \<Longrightarrow> pid_step w (pid_close p w)"
| dying: "pid_step w (pid_close p w)"

definition pid_start :: pid_world where
  "pid_start = \<lparr>pw_path = None, pw_content = (\<lambda>_. []), pw_next = 0, pw_phase = (\<lambda>_. Outside)\<rparr>"

definition pid_reachable :: "pid_world \<Rightarrow> bool" where
  "pid_reachable w \<longleftrightarrow> pid_step\<^sup>*\<^sup>* pid_start w"

text \<open>\<open>runningPid\<close>; \<open>locked\<close> says whether the shared lock is refused.\<close>

definition runningPid :: "(nat \<Rightarrow> bool) \<Rightarrow> pid_world \<Rightarrow> string + nat" where
  "runningPid locked w =
     (case pw_path w of
        None \<Rightarrow> Inl ''yabber is not running with this data directory''
      | Some i \<Rightarrow>
          if \<not> locked i then Inl ''yabber is not running with this data directory (stale pid file)''
          else case atoi_nat (trimSpace (take 32 (pw_content w i))) of
            None \<Rightarrow> Inl ''unreadable pid file''
          | Some p \<Rightarrow> Inr p)"

definition some_holder :: "pid_world \<Rightarrow> nat \<Rightarrow> bool" where
  "some_holder w i \<longleftrightarrow> (\<exists>q. holds w q i)"

section \<open>The invariant\<close>

definition pid_ok :: "pid_world \<Rightarrow> bool" where
  "pid_ok w \<longleftrightarrow>
     (\<forall>p q i. holds w p i \<and> holds w q i \<longrightarrow> p = q) \<and>
     (\<forall>p i. pw_phase w p = Running i \<longrightarrow> pw_content w i = pid_text p) \<and>
     (\<forall>p i. pw_phase w p \<in> {Opened i, Locked i, Running i, Removed i} \<longrightarrow> i < pw_next w) \<and>
     (\<forall>i. pw_path w = Some i \<longrightarrow> i < pw_next w)"

lemma phase_set [simp]: "pw_phase (set_phase p ph w) = (pw_phase w)(p := ph)"
  "pw_path (set_phase p ph w) = pw_path w" "pw_content (set_phase p ph w) = pw_content w" "pw_next (set_phase p ph w) = pw_next w"
  by (simp_all add: set_phase_def)

lemma pid_ok_start: "pid_ok pid_start"
  by (simp add: pid_ok_def pid_start_def holds_def)

lemma pid_ok_step: "pid_step w w' \<Longrightarrow> pid_ok w \<Longrightarrow> pid_ok w'"
proof (induction rule: pid_step.induct)
  case (file_opens w p)
  then show ?case by (auto simp: pid_ok_def pid_open_def holds_def less_Suc_eq split: option.splits)
next
  case (locking w p i)
  then show ?case by (auto simp: pid_ok_def pid_lock_def holds_def lock_held_def)
next
  case (writing w p i)
  then show ?case unfolding pid_ok_def pid_write_def holds_def by (auto; metis)
next
  case (removing w p i)
  then show ?case by (auto simp: pid_ok_def pid_remove_def holds_def)
next
  case (file_closes w p i)
  then show ?case by (auto simp: pid_ok_def pid_close_def holds_def)
next
  case (dying w p)
  then show ?case by (auto simp: pid_ok_def pid_close_def holds_def)
qed

lemma pid_reachable_ok: "pid_reachable w \<Longrightarrow> pid_ok w"
  unfolding pid_reachable_def
  by (induction rule: rtranclp_induct) (auto intro: pid_ok_start pid_ok_step)

lemma trimSpace_pid: "trimSpace (pid_text p) = itoa_nat p"
proof -
  have d: "\<not> is_space c" if "c \<in> set (itoa_nat p)" for c
    using itoa_nat_digits [of p] that by (fastforce simp: list_all_iff is_digit_def is_space_def Let_def)
  have n: "itoa_nat p \<noteq> []" using itoa_nat_digits by simp
  then obtain c cs where c: "itoa_nat p = c # cs" by (cases "itoa_nat p") auto
  obtain e es where e: "rev (itoa_nat p) = e # es" using n by (cases "rev (itoa_nat p)") auto
  have "e \<in> set (itoa_nat p)" by (metis e list.set_intros(1) set_rev)
  then have l: "dropWhile is_space (rev (itoa_nat p)) = rev (itoa_nat p)" using d by (simp add: e)
  have "dropWhile is_space (itoa_nat p @ [CHR 0x0A]) = itoa_nat p @ [CHR 0x0A]" using d by (simp add: c)
  then show ?thesis using l by (simp add: pid_text_def trimSpace_def trimWhile_def is_space_def)
qed

lemma itoa_length: "n < 10 ^ Suc k \<Longrightarrow> length (itoa_nat n) \<le> Suc k"
proof (induction k arbitrary: n)
  case 0
  then show ?case by (simp add: itoa_nat.simps [of n])
next
  case (Suc k)
  show ?case
  proof (cases "n < 10")
    case False
    have "n div 10 < 10 ^ Suc k" using Suc.prems by (simp add: less_mult_imp_div_less)
    from Suc.IH [OF this] show ?thesis using False by (simp add: itoa_nat.simps [of n])
  qed (simp add: itoa_nat.simps [of n])
qed

section \<open>What the lock gives\<close>


text \<open>The run of one instance: open, lock, write.\<close>

definition pid_run :: "nat \<Rightarrow> nat \<Rightarrow> pid_world \<Rightarrow> pid_world" where
  "pid_run p i w = pid_write p i (pid_lock p i False (pid_open p w))"

lemma pid_run_steps:
  assumes "pw_phase w p = Outside" and "pw_phase (pid_open p w) p = Opened i" and "\<not> lock_held p i (pid_open p w)"
  shows "pid_step\<^sup>*\<^sup>* w (pid_run p i w)"
proof -
  have "pid_step (pid_open p w) (pid_lock p i False (pid_open p w))" using locking [OF assms(2)] assms(3) by simp
  moreover have "pid_step (pid_lock p i False (pid_open p w)) (pid_run p i w)"
    unfolding pid_run_def by (rule writing) (simp add: pid_lock_def)
  ultimately show ?thesis using file_opens [OF assms(1)] by (meson converse_rtranclp_into_rtranclp rtranclp.rtrancl_refl)
qed


text \<open>
  Two instances can run all the same. \<open>release\<close> removes the path before it closes the file: a process that opened the
  file before gets its lock after, on an inode that has no name any more, and the next start creates a new file.
\<close>

lemma pid_two_instances: "\<exists>w. pid_reachable w \<and> pw_phase w 200 = Running 0 \<and> pw_phase w 300 = Running 1"
proof -
  define w1 where "w1 = pid_run 100 0 pid_start"
  define w2 where "w2 = pid_open 200 w1"
  define w3 where "w3 = pid_remove 100 0 w2"
  define w4 where "w4 = pid_close 100 w3"
  define w5 where "w5 = pid_lock 200 0 False w4"
  define w6 where "w6 = pid_write 200 0 w5"
  define w7 where "w7 = pid_run 300 1 w6"
  note defs = pid_run_def pid_start_def pid_open_def pid_lock_def pid_write_def pid_remove_def pid_close_def
  have f1: "pw_path w1 = Some 0" "pw_phase w1 = (\<lambda>_. Outside)(100 := Running 0)" "pw_next w1 = 1" by (simp_all add: w1_def defs)
  have f2: "pw_path w2 = Some 0" "pw_phase w2 = (\<lambda>_. Outside)(100 := Running 0, 200 := Opened 0)" "pw_next w2 = 1"
    using f1 by (simp_all add: w2_def pid_open_def)
  have f3: "pw_path w3 = None" "pw_phase w3 = (\<lambda>_. Outside)(100 := Removed 0, 200 := Opened 0)" "pw_next w3 = 1"
    using f2 by (auto simp: w3_def pid_remove_def set_phase_def)
  have f4: "pw_path w4 = None" "pw_phase w4 = (\<lambda>_. Outside)(200 := Opened 0)" "pw_next w4 = 1"
    using f3 by (auto simp: w4_def pid_close_def)
  have f6: "pw_path w6 = None" "pw_phase w6 = (\<lambda>_. Outside)(200 := Running 0)" "pw_next w6 = 1" "pw_phase w5 200 = Locked 0"
    using f4 by (auto simp: w6_def w5_def pid_write_def pid_lock_def)
  have f7: "pw_phase w7 300 = Running 1" "pw_phase w7 200 = Running 0"
    using f6 by (simp_all add: w7_def defs)
  have "pid_step\<^sup>*\<^sup>* pid_start w1"
    unfolding w1_def by (rule pid_run_steps) (simp_all add: pid_start_def pid_open_def lock_held_def holds_def)
  moreover have "pid_step w1 w2" unfolding w2_def by (rule file_opens) (simp add: f1)
  moreover have "pid_step w2 w3" unfolding w3_def by (rule removing) (simp add: f2)
  moreover have "pid_step w3 w4" unfolding w4_def by (rule file_closes [of _ _ 0]) (simp add: f3)
  moreover have "pid_step w4 w5"
  proof -
    have "\<not> lock_held 200 0 w4" by (simp add: lock_held_def holds_def f4)
    then show ?thesis unfolding w5_def using locking [of w4 200 0] by (simp add: f4)
  qed
  moreover have "pid_step w5 w6" unfolding w6_def by (rule writing) (simp add: f6)
  moreover have "pid_step\<^sup>*\<^sup>* w6 w7"
    unfolding w7_def by (rule pid_run_steps) (auto simp: f6 pid_open_def lock_held_def holds_def)
  ultimately have "pid_step\<^sup>*\<^sup>* pid_start w7" by (meson rtranclp.rtrancl_into_rtrancl rtranclp_trans)
  then show ?thesis using f7 by (auto simp: pid_reachable_def)
qed

text \<open>Between taking the lock and writing its pid an instance is taken for the dead one whose file it reuses.\<close>

lemma pid_misdirected:
  "\<exists>w. pid_reachable w \<and> runningPid (some_holder w) w = Inr 100 \<and> pw_phase w 100 = Outside"
proof -
  define w1 where "w1 = pid_run 100 0 pid_start"
  define w2 where "w2 = pid_close 100 w1"
  define w3 where "w3 = pid_open 200 w2"
  define w4 where "w4 = pid_lock 200 0 False w3"
  have f2: "pw_path w2 = Some 0" "pw_phase w2 = (\<lambda>_. Outside)" "pw_content w2 0 = pid_text 100"
    by (auto simp: w2_def w1_def pid_run_def pid_start_def pid_open_def pid_lock_def pid_write_def pid_close_def)
  have f3: "pw_path w3 = Some 0" "pw_phase w3 = (\<lambda>_. Outside)(200 := Opened 0)" "pw_content w3 0 = pid_text 100"
    using f2 by (simp_all add: w3_def pid_open_def)
  have f4: "pw_path w4 = Some 0" "pw_phase w4 200 = Locked 0" "pw_phase w4 100 = Outside" "pw_content w4 0 = pid_text 100"
    using f3 by (simp_all add: w4_def pid_lock_def)
  have "pid_step\<^sup>*\<^sup>* pid_start w1"
    unfolding w1_def by (rule pid_run_steps) (simp_all add: pid_start_def pid_open_def lock_held_def holds_def)
  moreover have "pid_step w1 w2" unfolding w2_def by (rule dying)
  moreover have "pid_step w2 w3" unfolding w3_def by (rule file_opens) (simp add: f2)
  moreover have "pid_step w3 w4"
  proof -
    have "\<not> lock_held 200 0 w3" by (simp add: lock_held_def holds_def f3)
    then show ?thesis unfolding w4_def using locking [of w3 200 0] by (simp add: f3)
  qed
  ultimately have r: "pid_step\<^sup>*\<^sup>* pid_start w4" by (meson rtranclp.rtrancl_into_rtrancl)
  have "some_holder w4 0" using f4(2) by (auto simp: some_holder_def holds_def)
  moreover have "take 32 (pid_text 100) = pid_text 100" by code_simp
  ultimately have "runningPid (some_holder w4) w4 = Inr 100"
    using f4(1,4) by (simp add: runningPid_def trimSpace_pid atoi_itoa_nat)
  then show ?thesis using r f4(3) by (auto simp: pid_reachable_def)
qed

end
