(* ===== verification/Command.thy ===== *)
theory Command
  imports Web Self_Update Pid_File
begin

text \<open>
  \<open>cmd/yabber/main.go\<close>, \<open>run.go\<close> and \<open>admin.go\<close>: choosing the command, the paths of
  an instance, the management token, and the run of a gateway from start to exit
  with what happens in between: reloads, edits of the configuration file by
  others and requests to the admin listener. Reading and decoding the file,
  creating directories and random text are parameters; the pid file is reduced
  to whether it could be acquired (its theory is \<open>Pid_File\<close>).
\<close>

section \<open>Choosing the command\<close>

datatype command = RunCmd | CheckCmd | ReloadCmd | UpdateCmd | VersionCmd | HelpCmd | UnknownCmd string

definition select_command :: "string list \<Rightarrow> command \<times> string list" where
  "select_command args =
     (let (name, rest) =
        (case args of a # as \<Rightarrow> if hasPrefix a ''-'' then (''run'', args) else (a, as) | [] \<Rightarrow> (''run'', []))
      in (if name = ''run'' then RunCmd else if name = ''check'' then CheckCmd else if name = ''reload'' then ReloadCmd
          else if name = ''update'' then UpdateCmd else if name = ''version'' then VersionCmd
          else if name = ''help'' then HelpCmd else UnknownCmd name, rest))"

section \<open>The paths of an instance\<close>

record paths =
  p_dir :: string
  p_config :: string

definition paths_resolve :: "paths \<Rightarrow> paths" where
  "paths_resolve p =
     (let p1 = (if p_dir p = [] \<and> p_config p = [] then p\<lparr>p_dir := ''.''\<rparr>
                else if p_dir p = [] then p\<lparr>p_dir := pathDir (p_config p)\<rparr> else p)
      in if p_config p1 = [] then p1\<lparr>p_config := pathJoin (p_dir p1) ''config.yaml''\<rparr> else p1)"

definition pidFile :: "paths \<Rightarrow> string" where
  "pidFile p = pathJoin (p_dir p) ''yabber.pid''"

definition tokenFile :: "paths \<Rightarrow> string" where
  "tokenFile p = pathJoin (p_dir p) ''admin.token''"

text \<open>What was given stays, what was not is filled in, and doing it again changes nothing.\<close>

lemma pathClean_nonempty: "pathClean p \<noteq> []"
  by (simp add: pathClean_def Let_def)

lemma pathDir_nonempty: "pathDir p \<noteq> []"
  by (simp add: pathDir_def pathClean_nonempty split: option.split)

lemma paths_resolve_given:
  "p_dir (paths_resolve p) = (if p_dir p \<noteq> [] then p_dir p else if p_config p = [] then ''.'' else pathDir (p_config p))"
  "p_config (paths_resolve p) = (if p_config p \<noteq> [] then p_config p else pathJoin (p_dir (paths_resolve p)) ''config.yaml'')"
  by (simp_all add: paths_resolve_def Let_def)

lemma paths_resolve_idem: "paths_resolve (paths_resolve p) = paths_resolve p"
proof -
  have "p_dir (paths_resolve p) \<noteq> []" by (simp add: paths_resolve_given pathDir_nonempty)
  moreover have "p_config (paths_resolve p) \<noteq> []" by (simp add: paths_resolve_given(2) pathJoin_def pathClean_nonempty)
  ultimately show ?thesis by (simp add: paths_resolve_def [of "paths_resolve p"] Let_def)
qed

section \<open>check and version\<close>

definition checkCommand ::
  "(string \<Rightarrow> Config result) \<Rightarrow> (string \<Rightarrow> ('l, 'w) options) \<Rightarrow> paths \<Rightarrow> ('l, 'w) heap \<Rightarrow> string result" where
  "checkCommand load opts p0 h =
     (let p = paths_resolve p0 in
      rbind (load (p_config p)) (\<lambda>config.
      rbind (Validate (opts (p_dir p)) config h) (\<lambda>_. Inr (''configuration ok: '' @ p_config p))))"

definition versionString :: "update_env \<Rightarrow> string \<Rightarrow> string \<Rightarrow> string \<Rightarrow> string" where
  "versionString env version goos goversion =
     (let commit = buildSetting env ''vcs.revision'' [];
          revision = (if 7 \<le> length commit
             then '' ('' @ take 7 commit @ (if buildSetting env ''vcs.modified'' [] = ''true'' then ''+dirty'' else []) @ '')'' else [])
      in ''yabber '' @ version @ revision @ '' '' @ goos @ ''/'' @ ue_goarch env @ '' '' @ goversion)"

text \<open>What passes \<open>check\<close> is what a server can be made from.\<close>

lemma check_then_New:
  "checkCommand load opts p h = Inr m \<Longrightarrow>
   \<exists>config s. load (p_config (paths_resolve p)) = Inr config \<and> New ops (opts (p_dir (paths_resolve p))) config h = Inr s"
  by (auto simp: checkCommand_def Let_def Validate_def New_def rbind_Inr_iff split_beta)

section \<open>The management token\<close>

datatype read_error = NotExist | ReadFails gerror

definition generate_token :: "string \<Rightarrow> (string \<Rightarrow> unit result) \<Rightarrow> string result" where
  "generate_token random write = rbind (write (random @ [CHR 0x0A])) (\<lambda>_. Inr random)"

text \<open>\<open>adminToken\<close>; \<open>write\<close> writes the file with mode 0600.\<close>

definition adminToken :: "(read_error + string) \<Rightarrow> string \<Rightarrow> (string \<Rightarrow> unit result) \<Rightarrow> string result" where
  "adminToken data random write =
     (case data of
        Inr d \<Rightarrow> if trimSpace d \<noteq> [] then Inr (trimSpace d) else generate_token random write
      | Inl NotExist \<Rightarrow> generate_token random write
      | Inl (ReadFails e) \<Rightarrow> Inl e)"

text \<open>A token that was generated is the one the next start reads.\<close>

lemma trimSpace_line:
  assumes "t \<noteq> []" and "\<forall>c \<in> set t. \<not> is_space c"
  shows "trimSpace (t @ [CHR 0x0A]) = t"
proof -
  have "dropWhile is_space (t @ [CHR 0x0A]) = t @ [CHR 0x0A]" using assms by (cases t) simp_all
  moreover have "dropWhile is_space (rev t) = rev t"
    using assms by (cases "rev t") (auto simp: rev_eq_Cons_iff)
  moreover have "is_space (CHR 0x0A)" by (simp add: is_space_def)
  ultimately show ?thesis by (simp add: trimSpace_def trimWhile_def)
qed

lemma adminToken_stable:
  assumes "adminToken data random write = Inr t" and "random \<noteq> []" and "\<forall>c \<in> set random. \<not> is_space c"
    and "data = Inl NotExist \<or> (\<exists>d. data = Inr d \<and> trimSpace d = [])"
  shows "t = random" and "adminToken (Inr (random @ [CHR 0x0A])) random' write' = Inr t"
proof -
  show "t = random" using assms(1,4) by (auto simp: adminToken_def generate_token_def rbind_Inr_iff split: if_splits)
  then show "adminToken (Inr (random @ [CHR 0x0A])) random' write' = Inr t"
    by (simp add: adminToken_def trimSpace_line [OF assms(2,3)] assms(2))
qed


section \<open>The configuration file\<close>

text \<open>\<open>Load\<close>, over \<open>Parse\<close> as a parameter, and the callback that saves API changes to the same file.\<close>

definition Load :: "(string \<Rightarrow> Config result) \<Rightarrow> string \<Rightarrow> files \<Rightarrow> Config result" where
  "Load parse path fs =
     (case mget fs path of
        None \<Rightarrow> Inl (osError ''open'')
      | Some (data, _) \<Rightarrow>
          rbind (wrap_err (Wrapf ''%s: %w'' [path]) (parse data)) (\<lambda>cfg. Inr (resolvePaths (pathDir path) cfg)))"

definition saver :: "(Config \<Rightarrow> string result) \<Rightarrow> io \<Rightarrow> string \<Rightarrow> Config \<Rightarrow> (files, unit) action" where
  "saver encode os path config = Save encode os path config"

text \<open>What is documented of the YAML codec: a saved configuration parses to itself, header and all.\<close>

definition yaml_roundtrip :: "(Config \<Rightarrow> string result) \<Rightarrow> (string \<Rightarrow> Config result) \<Rightarrow> bool" where
  "yaml_roundtrip encode parse \<longleftrightarrow> (\<forall>c y base. encode c = Inr y \<longrightarrow> parse (savedHeader base @ y) = Inr c)"

lemma Save_Load:
  assumes "yaml_roundtrip encode parse" and "temp_fresh os [path, path @ ''.bak''] fs" and "saver encode os path c fs = (res, fs')"
  shows "Load parse path fs' = (if isOk res then Inr (resolvePaths (pathDir path) c) else Load parse path fs)"
    and "q \<noteq> path \<Longrightarrow> q \<noteq> path @ ''.bak'' \<Longrightarrow> mget fs' q = mget fs q"
proof -
  have e: "(\<forall>q. q \<noteq> path \<and> q \<noteq> path @ ''.bak'' \<longrightarrow> mget fs' q = mget fs q) \<and>
    (if isOk res then \<exists>yaml. encode c = Inr yaml \<and> map_option fst (mget fs' path) = Some (savedHeader (pathBase path) @ yaml)
     else mget fs' path = mget fs path)"
    using Save_effect [OF assms(2) assms(3) [unfolded saver_def]] by (cases res) auto
  then show "q \<noteq> path \<Longrightarrow> q \<noteq> path @ ''.bak'' \<Longrightarrow> mget fs' q = mget fs q" by blast
  show "Load parse path fs' = (if isOk res then Inr (resolvePaths (pathDir path) c) else Load parse path fs)"
  proof (cases "isOk res")
    case True
    then obtain yaml m where y: "encode c = Inr yaml" "mget fs' path = Some (savedHeader (pathBase path) @ yaml, m)"
      using e by auto
    then have "parse (savedHeader (pathBase path) @ yaml) = Inr c" using assms(1) by (simp add: yaml_roundtrip_def)
    then show ?thesis using True y(2) by (simp add: Load_def wrap_err_def)
  qed (use e in \<open>simp add: Load_def\<close>)
qed

section \<open>The run of a gateway\<close>

text \<open>
  What happens while a gateway runs: a hangup signal, another program editing the configuration file, and a request
  to the admin listener; with what the network and the operating system answer at that time.
\<close>

datatype run_event =
    Hangup net
  | Edit string
  | Request net io request nat

record ('l, 'w) run_env =
  re_web :: "('l, 'w, files) web_env"
  re_encode :: "Config \<Rightarrow> string result"
  re_parse :: "string \<Rightarrow> Config result"
  re_path :: string

type_synonym ('l, 'w) run_world = "('l, 'w, files) api_world"

definition event_web :: "('l, 'w) run_env \<Rightarrow> net \<Rightarrow> io \<Rightarrow> ('l, 'w, files) web_env" where
  "event_web env nt os = (re_web env)\<lparr>wb_api := (wb_api (re_web env))
     \<lparr>ap_token := [], ap_net := nt, ap_save := Some (saver (re_encode env) os (re_path env))\<rparr>\<rparr>"

text \<open>A reload; with an admin listener it goes through the API's write lock.\<close>

definition reload :: "('l, 'w) run_env \<Rightarrow> string option \<Rightarrow> net \<Rightarrow> ('l, 'w) run_world \<Rightarrow> ('l, 'w) run_world" where
  "reload env token nt w =
     (case Load (re_parse env) (re_path env) (aw_saved w) of
        Inl e \<Rightarrow> w
      | Inr config \<Rightarrow>
          (let api = (wb_api (re_web env))\<lparr>ap_net := nt\<rparr> in
           case token of
             Some _ \<Rightarrow> snd (api_Apply api config w)
           | None \<Rightarrow> w\<lparr>aw_server := snd (Apply (ap_ops api) (ap_net api) (ap_opts api) config (aw_server w))\<rparr>))"

definition new_exchange :: "nat \<Rightarrow> ('l, 'w) run_world \<Rightarrow> ('l, 'w) run_world exchange" where
  "new_exchange room w = \<lparr>x_tracker = newTracker room, x_state = None, x_now = 0, x_shared = w\<rparr>"

definition edit_file :: "string \<Rightarrow> string \<Rightarrow> files \<Rightarrow> files" where
  "edit_file path data fs = mput path (data, case mget fs path of Some (_, m) \<Rightarrow> m | None \<Rightarrow> 0x180) fs"

text \<open>The loop, with the statuses of the responses; without a token there is no admin listener.\<close>

fun run_loop :: "('l, 'w) run_env \<Rightarrow> string option \<Rightarrow> run_event list \<Rightarrow> ('l, 'w) run_world \<Rightarrow> int list \<times> ('l, 'w) run_world" where
  "run_loop env token [] w = ([], w)"
| "run_loop env token (Hangup nt # es) w = run_loop env token es (reload env token nt w)"
| "run_loop env token (Edit data # es) w = run_loop env token es (w\<lparr>aw_saved := edit_file (re_path env) data (aw_saved w)\<rparr>)"
| "run_loop env token (Request nt os r room # es) w =
     (case token of
        None \<Rightarrow> run_loop env token es w
      | Some t \<Rightarrow>
          (let x = snd (admin_serve (event_web env nt os) t r (new_exchange room w));
               (codes, w') = run_loop env token es (x_shared x)
           in (status_of x # codes, w')))"

text \<open>
  \<open>runCommand\<close>: the steps up to \<open>Start\<close>, each of which may end the program, the loop until SIGINT or SIGTERM, and
  \<open>Close\<close>. \<open>mkdir\<close>, \<open>acquire\<close> and \<open>token\<close> are the results of creating the data directory, acquiring the pid file
  and \<open>adminToken\<close>; \<open>shut\<close> and \<open>drained\<close> those of waiting for connections.
\<close>

definition runCommand ::
  "('l, 'w) run_env \<Rightarrow> unit result \<Rightarrow> unit result \<Rightarrow> ('l, 'w) heap \<Rightarrow> net \<Rightarrow> string result option \<Rightarrow> run_event list \<Rightarrow>
   (string \<Rightarrow> gerror option) \<Rightarrow> gerror option \<Rightarrow> files \<Rightarrow> (unit result \<times> int list \<times> ('l, 'w) run_world) result" where
  "runCommand env mkdir acquire h nt token events shut drained fs =
     (let api = wb_api (re_web env) in
      rbind mkdir (\<lambda>_.
      rbind acquire (\<lambda>_.
      rbind (Load (re_parse env) (re_path env) fs) (\<lambda>config.
      rbind (New (ap_ops api) (ap_opts api) config h) (\<lambda>s0.
      case Start nt s0 of
        (Inl e, _) \<Rightarrow> Inl e
      | (Inr _, s1) \<Rightarrow>
          rbind (case token of None \<Rightarrow> Inr None | Some t \<Rightarrow> rbind t (\<lambda>t. Inr (Some t))) (\<lambda>tok.
            let (codes, w) = run_loop env tok events \<lparr>aw_server = s1, aw_saved = fs\<rparr>;
                (res, s2) = Shutdown shut drained (aw_server w)
            in Inr (res, codes, w\<lparr>aw_server := s2\<rparr>)))))))"

end
