(* ===== verification/Run.thy ===== *)
theory Run
  imports Command
begin

text \<open>
  The run of a gateway keeps the configuration file and the running configuration together: whatever reloads and
  requests to the admin listener come, the file loads to what is running, as long as nobody else edits it and no
  client was told that saving failed.
\<close>

section \<open>Changes and the file\<close>

text \<open>What one request may do: change neither the configuration nor the file, save what it applied, or answer 500.\<close>

definition synced :: "('l, 'w, 'f) api_env \<Rightarrow> ('l, 'w, 'f) api_world \<Rightarrow> ('l, 'w, 'f) api_world \<Rightarrow> int \<Rightarrow> bool" where
  "synced env w w' code \<longleftrightarrow> server_ok (aw_server w') \<and>
     (server_config (aw_server w') = server_config (aw_server w) \<and> aw_saved w' = aw_saved w \<or>
      saved env (server_config (aw_server w')) (aw_saved w) = (Inr (), aw_saved w') \<or> code = 500)"

definition syncing :: "('l, 'w, 'f) api_env \<Rightarrow> ('l, 'w, 'f) api_handler \<Rightarrow> request \<Rightarrow> bool" where
  "syncing env h r \<longleftrightarrow> (\<forall>x. fresh x \<and> server_ok (aw_server (x_shared x)) \<longrightarrow>
     synced env (x_shared x) (x_shared (snd (h r x))) (status_of (snd (h r x))))"

lemma syncing_keeps: "(\<And>x. x_shared (snd (h r x)) = x_shared x) \<Longrightarrow> syncing env h r"
  by (simp add: syncing_def synced_def)

lemma syncing_blind: "blind h r \<Longrightarrow> syncing env h r"
  by (rule syncing_keeps) (simp add: blind_def)

lemma change_synced:
  assumes "fresh x" and "server_ok (aw_server (x_shared x))" and "change env r modify x = (res, x1)"
  shows "synced env (x_shared x) (x_shared x1) (if res then c else status_of x1)"
proof -
  note o = change_outcome [OF assms(2,3)]
  have "status_of x1 = 500" if u: "unsaved env x x1"
  proof -
    obtain e y where y: "x1 = writeError env 500 e y" "x_tracker y = x_tracker x" using u by (auto simp: unsaved_def)
    then show ?thesis using assms(1) status_writeError [of y 500] by (simp add: fresh_def)
  qed
  then show ?thesis
    using o by (cases res) (auto simp: synced_def change_ends_def applied_def refused_def api_config_server)
qed

text \<open>An endpoint that reads, or that answers after a change without touching the state again.\<close>

lemma syncing_change:
  assumes "\<And>x. h r x = (let (ok, x1) = change env r m x in (Returned, if ok then after x1 else x1))"
    and "\<And>x. x_shared (after x) = x_shared x"
  shows "syncing env h r"
  unfolding syncing_def
proof (intro allI impI)
  fix x :: "('a, 'b, 'c) api_exchange" assume x: "fresh x \<and> server_ok (aw_server (x_shared x))"
  obtain ok x1 where c: "change env r m x = (ok, x1)" by fastforce
  show "synced env (x_shared x) (x_shared (snd (h r x))) (status_of (snd (h r x)))"
    using change_synced [OF conjunct1 [OF x] conjunct2 [OF x] c, of "status_of (after x1)"]
    by (cases ok) (simp_all add: assms c)
qed

lemma endpoint_syncing:
  assumes "n < 12"
  shows "syncing env (snd (api_endpoints env ! n)) r"
proof -
  have err: "syncing env (\<lambda>r x. (Returned, writeError env c e x)) r" for c e
    by (rule syncing_keeps) simp
  have cong: "syncing env h r" if "h r = h' r" and "syncing env h' r" for h h' :: "('a, 'b, 'c) api_handler"
    using that by (simp add: syncing_def)
  have put: "syncing env (putConfig env) r"
  proof (cases "readJSON (ap_decodeConfig env) r")
    case (Inl e)
    then show ?thesis by (intro cong [OF _ err [of 400 e]]) (simp add: putConfig_def fun_eq_iff)
  next
    case (Inr c)
    then show ?thesis by (intro syncing_change [where m = "\<lambda>_. Inr c" and after = "\<lambda>x. writeJSON env 200 (PConfig (api_config x)) x"])
        (simp_all add: putConfig_def)
  qed
  have create: "syncing env (createSite env) r"
  proof (cases "readJSON (ap_decodeSite env) r")
    case (Inl e)
    then show ?thesis by (intro cong [OF _ err [of 400 e]]) (simp add: createSite_def fun_eq_iff)
  next
    case (Inr s)
    show ?thesis
    proof (cases "site_ID s = []")
      case True
      then show ?thesis using Inr
        by (intro cong [OF _ err [of 400 "Errorf ''a site needs a name or at least one host'' []"]]) (simp add: createSite_def fun_eq_iff)
    next
      case False
      then show ?thesis using Inr
        by (intro syncing_change [where m = "add_site s (site_ID s)" and after = "\<lambda>x. writeJSON env 201 (PSite s)
             (setHeader ''Location'' (''/api/sites/'' @ escapeWith segmentKeep (site_ID s)) x)"]) (simp_all add: createSite_def)
    qed
  qed
  have update: "syncing env (putSite env i) r" for i
  proof (cases "readJSON (ap_decodeSite env) r")
    case (Inl e)
    then show ?thesis by (intro cong [OF _ err [of 400 e]]) (simp add: putSite_def fun_eq_iff)
  next
    case (Inr b)
    define s where "s = (if s_name b = [] \<and> site_ID b \<noteq> i then b\<lparr>s_name := i\<rparr> else b)"
    show ?thesis
    proof (cases "site_ID s = i")
      case False
      then show ?thesis using Inr
        by (intro cong [OF _ err [of 400 "Errorf ''site name %q does not match %q in the URL'' [site_ID s, i]"]])
          (simp add: putSite_def fun_eq_iff s_def Let_def)
    next
      case True
      then show ?thesis using Inr
        by (intro syncing_change [where m = "replace_site s i" and after = "\<lambda>x. writeJSON env 200 (PSite s) x"])
          (simp_all add: putSite_def Let_def s_def [symmetric])
    qed
  qed
  have delete: "syncing env (deleteSite env i) r" for i
    by (intro syncing_change [where m = "remove_site i" and after = "writeHeader 204"]) (simp_all add: deleteSite_def)
  have reads: "syncing env (snd (api_endpoints env ! n)) r" if "n \<in> {0, 1, 3, 5, 8, 9, 10, 11}"
    by (rule syncing_keeps [OF api_read_endpoint [OF that]])
  have "n = 0 \<or> n = 1 \<or> n = 3 \<or> n = 5 \<or> n = 8 \<or> n = 9 \<or> n = 10 \<or> n = 11 \<or> n = 2 \<or> n = 4 \<or> n = 6 \<or> n = 7"
    using assms by presburger
  then have "n \<in> {0, 1, 3, 5, 8, 9, 10, 11} \<or> n = 2 \<or> n = 4 \<or> n = 6 \<or> n = 7" by blast
  then show ?thesis
    using reads put create update [of "pathID r"] delete [of "pathID r"] by (elim disjE) (simp_all add: endpoints_nth syncing_def)
qed


text \<open>Through the API's mux, its authentication, the panel and the admin listener.\<close>

lemma api_handle_syncing: "syncing env h r \<Longrightarrow> syncing env (api_handle env h) r"
  by (simp add: syncing_def api_handle_def) (simp add: synced_def)

lemma api_serve_syncing: "syncing env (api_serve env) r"
proof (cases rule: mux_serve_cases [of "api_mux env" r])
  case (entry p h)
  define n where "n = api_index (r_method r) (pathSegs (mux_path r))"
  have n: "n < 12" unfolding n_def by (rule api_index_bound)
  have "(p, h) = api_mux env ! n" unfolding n_def by (rule tree_api_index [OF entry(1)])
  then have "h = api_handle env (snd (api_endpoints env ! n))" using api_entry [OF n, of env] by simp
  then have "syncing env h r" using api_handle_syncing [OF endpoint_syncing [OF n]] by simp
  then show ?thesis by (simp add: syncing_def api_serve_mux entry(2))
next
  case own
  then show ?thesis using syncing_blind by (simp add: syncing_def api_serve_mux)
qed

lemma stripped_syncing: "syncing env (httpStripPrefix ''/api'' (api_serve env)) r"
proof -
  define r' where "r' = r\<lparr>r_url := (r_url r)\<lparr>u_path := trimPrefix (u_path (r_url r)) ''/api'', u_rawpath := trimPrefix (u_rawpath (r_url r)) ''/api''\<rparr>\<rparr>"
  have "httpStripPrefix ''/api'' (api_serve env) r = (\<lambda>x. api_serve env r' x) \<or>
      httpStripPrefix ''/api'' (api_serve env) r = httpNotFound r"
    by (auto simp: httpStripPrefix_def Let_def r'_def fun_eq_iff)
  then show ?thesis
  proof
    assume e: "httpStripPrefix ''/api'' (api_serve env) r = (\<lambda>x. api_serve env r' x)"
    show ?thesis using api_serve_syncing [of env r'] unfolding syncing_def e .
  next
    assume "httpStripPrefix ''/api'' (api_serve env) r = httpNotFound r"
    then show ?thesis by (intro syncing_keeps) (simp add: httpNotFound_def)
  qed
qed

lemma Standalone_syncing:
  assumes "keeps_shared (wb_content env)" and "keeps_shared (wb_listing env)"
  shows "syncing (wb_api env) (Standalone env token) r"
proof -
  consider (refused) "\<not> web_authorized r token" | (cross) m where "web_authorized r token" and "crossOrigin_check r = Some m"
    | (mux) "Standalone env token r = mux_serve (web_entries env) r"
  proof (cases "web_authorized r token")
    case True
    then have "crossOrigin_check r = None \<Longrightarrow> Standalone env token r = mux_serve (web_entries env) r"
      by (simp add: Standalone_def crossOriginProtection_def mux_or_panic_def web_mux_entries fun_eq_iff)
    then show ?thesis using that True by (cases "crossOrigin_check r") auto
  qed (use that in blast)
  then show ?thesis
  proof cases
    case refused
    then show ?thesis by (rule syncing_blind [OF Standalone_blind])
  next
    case cross
    then show ?thesis by (intro syncing_keeps) (simp add: Standalone_def crossOriginProtection_def)
  next
    case mux
    show ?thesis
    proof (cases rule: web_served [of env r])
      case api
      show ?thesis using stripped_syncing [of "wb_api env" r] unfolding syncing_def mux api .
    next
      case assets
      show ?thesis by (rule syncing_keeps) (simp only: mux assets assets_keep [OF assms])
    next
      case own
      show ?thesis using syncing_blind [OF own] unfolding syncing_def mux .
    qed
  qed
qed

lemma admin_syncing:
  assumes "keeps_shared (wb_content env)" and "keeps_shared (wb_listing env)"
  shows "syncing (wb_api env) (admin_serve env token) r"
proof -
  have s: "admin_serve env token r = mux_serve (admin_entries env token) r"
    by (simp add: admin_serve_def mux_or_panic_def admin_mux_entries fun_eq_iff)
  show ?thesis
  proof (cases rule: admin_served [of r env token])
    case open_endpoint
    have "admin_index (r_method r) (pathSegs (mux_path r)) \<in> {0, 1}"
      using open_endpoint(1) by (auto simp: admin_index_def split: if_splits)
    then have "x_shared (snd (snd (admin_entries env token ! admin_index (r_method r) (pathSegs (mux_path r))) r x)) = x_shared x" for x
      using open_endpoints_keep by (auto simp: entries_nth simp del: One_nat_def)
    then show ?thesis by (intro syncing_keeps) (simp only: s open_endpoint(2))
  next
    case panel
    show ?thesis using Standalone_syncing [OF assms, of token r] unfolding syncing_def s panel .
  next
    case own
    show ?thesis using syncing_blind [OF own] unfolding syncing_def s .
  qed
qed

section \<open>The loop\<close>

text \<open>The file loads to the running configuration, up to the resolution of relative paths that loading does.\<close>

definition in_sync :: "('l, 'w) run_env \<Rightarrow> ('l, 'w) run_world \<Rightarrow> bool" where
  "in_sync env w \<longleftrightarrow> server_ok (aw_server w) \<and>
     Load (re_parse env) (re_path env) (aw_saved w) = Inr (resolvePaths (pathDir (re_path env)) (server_config (aw_server w)))"

fun event_ok :: "('l, 'w) run_env \<Rightarrow> string set \<Rightarrow> run_event \<Rightarrow> bool" where
  "event_ok env used (Hangup nt) = True"
| "event_ok env used (Edit data) = False"
| "event_ok env used (Request nt os r room) = (\<forall>t. io_temp os = Some t \<longrightarrow> t \<notin> used \<union> {re_path env, re_path env @ ''.bak''})"

definition other_files :: "('l, 'w) run_env \<Rightarrow> string set \<Rightarrow> files \<Rightarrow> bool" where
  "other_files env used fs \<longleftrightarrow> (\<forall>q. q \<noteq> re_path env \<and> q \<noteq> re_path env @ ''.bak'' \<and> q \<notin> used \<longrightarrow> mget fs q = None)"

lemma resolvePaths_twice: "isAbs base \<Longrightarrow> resolvePaths base (resolvePaths base c) = resolvePaths base c"
  by (cases "acme (c_tls c)") (simp_all add: resolvePaths_def resolvePath_twice resolveFiles_twice)

lemma isAbs_pathDir: "isAbs path \<Longrightarrow> isAbs (pathDir path)"
proof -
  assume a: "isAbs path"
  then have "CHR ''/'' \<in> set path" by (auto simp: isAbs_def hasPrefix_iff)
  then obtain p q where p: "path = p @ CHR ''/'' # q" "CHR ''/'' \<notin> set q" by (meson split_list_last)
  have "isAbs (p @ ''/'')" using a p(1) by (cases p) (auto simp: isAbs_def hasPrefix_def)
  then show ?thesis using isAbs_pathClean by (simp add: pathDir_def p lastIndexChar_append)
qed

lemma reload_sync:
  assumes "isAbs (re_path env)" and "in_sync env w"
  shows "in_sync env (reload env token nt w)" and "aw_saved (reload env token nt w) = aw_saved w"
proof -
  let ?api = "(wb_api (re_web env))\<lparr>ap_net := nt\<rparr>" and ?base = "pathDir (re_path env)"
  let ?c = "resolvePaths ?base (server_config (aw_server w))"
  obtain res s' where a: "Apply (ap_ops ?api) (ap_net ?api) (ap_opts ?api) ?c (aw_server w) = (res, s')" by fastforce
  have l: "Load (re_parse env) (re_path env) (aw_saved w) = Inr ?c" using assms(2) by (simp add: in_sync_def)
  have r: "reload env token nt w = w\<lparr>aw_server := s'\<rparr>"
    using a l by (cases token) (simp_all add: reload_def api_Apply_def Let_def)
  have ok: "server_ok (aw_server w)" using assms(2) by (simp add: in_sync_def)
  have "server_ok s'" using apply_keeps [OF ok] a by (simp add: Apply_def)
  moreover have "server_config s' = ?c \<or> server_config s' = server_config (aw_server w)"
  proof (cases res)
    case (Inl e)
    then show ?thesis using apply_failed(1) [OF ok] a by (simp add: Apply_def held_def server_config_def)
  next
    case (Inr u)
    then show ?thesis using Apply_success(1) [OF ok] a by (simp add: server_config_def)
  qed
  ultimately show "in_sync env (reload env token nt w)"
    using l resolvePaths_twice [OF isAbs_pathDir [OF assms(1)]] by (auto simp: r in_sync_def)
  show "aw_saved (reload env token nt w) = aw_saved w" by (simp add: r)
qed


lemma keeps_sync:
  assumes "in_sync env w" and "server_ok (aw_server w')"
    and "server_config (aw_server w') = server_config (aw_server w)" and "aw_saved w' = aw_saved w"
  shows "in_sync env w'"
  using assms by (simp add: in_sync_def)

lemma request_sync:
  assumes yaml: "yaml_roundtrip (re_encode env) (re_parse env)"
    and keep: "keeps_shared (wb_content (re_web env))" "keeps_shared (wb_listing (re_web env))"
    and w: "in_sync env w" "other_files env used (aw_saved w)"
    and os: "event_ok env used (Request nt os r room)"
    and code: "status_of (snd (admin_serve (event_web env nt os) t r (new_exchange room w))) \<noteq> 500"
  shows "in_sync env (x_shared (snd (admin_serve (event_web env nt os) t r (new_exchange room w)))) \<and>
    other_files env used (aw_saved (x_shared (snd (admin_serve (event_web env nt os) t r (new_exchange room w)))))"
proof -
  let ?web = "event_web env nt os" and ?x = "new_exchange room w"
  let ?w' = "x_shared (snd (admin_serve ?web t r ?x))"
  have x: "fresh ?x" "x_shared ?x = w" by (simp_all add: fresh_def new_exchange_def newTracker_def)
  have "syncing (wb_api ?web) (admin_serve ?web t) r" by (rule admin_syncing) (simp_all add: event_web_def keep)
  then have s: "synced (wb_api ?web) w ?w' (status_of (snd (admin_serve ?web t r ?x)))"
    using x w(1) unfolding syncing_def in_sync_def by (metis x(2))
  have sv: "saved (wb_api ?web) c f = saver (re_encode env) os (re_path env) c f" for c f
    by (simp add: saved_def event_web_def)
  consider (same) "server_config (aw_server ?w') = server_config (aw_server w)" and "aw_saved ?w' = aw_saved w"
    | (save) "saver (re_encode env) os (re_path env) (server_config (aw_server ?w')) (aw_saved w) = (Inr (), aw_saved ?w')"
    using s code by (auto simp: synced_def sv)
  then show ?thesis
  proof cases
    case same
    then show ?thesis using keeps_sync [OF w(1)] s w(2) by (simp add: synced_def)
  next
    case save
    have "temp_fresh os [re_path env, re_path env @ ''.bak''] (aw_saved w)"
      using os w(2) by (auto simp: temp_fresh_def other_files_def)
    note l = Save_Load [OF yaml this save]
    show ?thesis using s w(2) l by (simp add: in_sync_def synced_def other_files_def)
  qed
qed

lemma loop_sync:
  assumes "isAbs (re_path env)" and "yaml_roundtrip (re_encode env) (re_parse env)"
    and "keeps_shared (wb_content (re_web env))" and "keeps_shared (wb_listing (re_web env))"
    and "in_sync env w" and "other_files env used (aw_saved w)" and "\<forall>e \<in> set es. event_ok env used e"
    and "500 \<notin> set (fst (run_loop env token es w))"
  shows "in_sync env (snd (run_loop env token es w))"
  using assms(5-8)
proof (induction es arbitrary: w)
  case (Cons e es)
  note rest = Cons.prems(1,2)
  show ?case
  proof (cases e)
    case (Hangup nt)
    have "in_sync env (snd (run_loop env token es (reload env token nt w)))"
      by (rule Cons.IH) (use Cons.prems reload_sync [OF assms(1) Cons.prems(1)] in \<open>simp_all add: Hangup\<close>)
    then show ?thesis by (simp add: Hangup)
  next
    case (Edit data)
    then show ?thesis using Cons.prems(3) by simp
  next
    case (Request nt os r room)
    show ?thesis
    proof (cases token)
      case None
      then show ?thesis using Cons by (simp add: Request)
    next
      case (Some t)
      define x where "x = snd (admin_serve (event_web env nt os) t r (new_exchange room w))"
      have loop: "run_loop env token (e # es) w =
          (status_of x # fst (run_loop env token es (x_shared x)), snd (run_loop env token es (x_shared x)))"
        by (simp add: Request Some x_def split_beta Let_def)
      have "event_ok env used (Request nt os r room)" "status_of x \<noteq> 500" "500 \<notin> set (fst (run_loop env token es (x_shared x)))"
        using Cons.prems(3,4) loop by (auto simp: Request)
      note step = request_sync [OF assms(2-4) rest this(1), of t, folded x_def, OF this(2)] and codes = this(3)
      have "in_sync env (snd (run_loop env token es (x_shared x)))"
        by (rule Cons.IH) (use step codes Cons.prems(3) in simp_all)
      then show ?thesis by (simp only: loop snd_conv)
    qed
  qed
qed simp

section \<open>What a restart finds\<close>

lemma runCommand_Inr:
  assumes "runCommand env mkdir acquire h nt token events shut drained fs = Inr (res, codes, w)"
  obtains config s0 s1 tok w1 where "Load (re_parse env) (re_path env) fs = Inr config"
    and "New (ap_ops (wb_api (re_web env))) (ap_opts (wb_api (re_web env))) config h = Inr s0"
    and "Start nt s0 = (Inr (), s1)"
    and "run_loop env tok events \<lparr>aw_server = s1, aw_saved = fs\<rparr> = (codes, w1)"
    and "Shutdown shut drained (aw_server w1) = (res, aw_server w)" and "aw_saved w = aw_saved w1"
proof -
  obtain config s0 where c: "Load (re_parse env) (re_path env) fs = Inr config"
    and n: "New (ap_ops (wb_api (re_web env))) (ap_opts (wb_api (re_web env))) config h = Inr s0"
    and r: "(case Start nt s0 of
        (Inl e, _) \<Rightarrow> Inl e
      | (Inr _, s1) \<Rightarrow>
          rbind (case token of None \<Rightarrow> Inr None | Some t \<Rightarrow> rbind t (\<lambda>t. Inr (Some t))) (\<lambda>tok.
            let (codes, w) = run_loop env tok events \<lparr>aw_server = s1, aw_saved = fs\<rparr>;
                (res, s2) = Shutdown shut drained (aw_server w)
            in Inr (res, codes, w\<lparr>aw_server := s2\<rparr>))) = Inr (res, codes, w)"
    using assms unfolding runCommand_def Let_def rbind_Inr_iff by blast
  obtain u s1 where st: "Start nt s0 = (Inr u, s1)" using r by (auto split: prod.splits sum.splits)
  obtain tok where "(let (codes, w) = run_loop env tok events \<lparr>aw_server = s1, aw_saved = fs\<rparr>;
                (res, s2) = Shutdown shut drained (aw_server w)
            in Inr (res, codes, w\<lparr>aw_server := s2\<rparr>)) = (Inr (res, codes, w) :: (unit result \<times> int list \<times> ('a, 'b) run_world) result)"
    using r unfolding st prod.case sum.case rbind_Inr_iff by blast
  then show ?thesis using that [OF c n] st by (cases u) (auto simp: Let_def split: prod.splits)
qed




text \<open>A file that holds the sample configuration, and a codec for it alone.\<close>

definition run_sample_env :: "(rat \<times> int \<times> rat \<times> int option, int) run_env" where
  "run_sample_env = \<lparr>
     re_web = \<lparr>wb_api = \<lparr>ap_token = [], ap_save = None, ap_ops = sample_ops, ap_net = sample_net, ap_opts = sample_options,
         ap_events = newEventLog, ap_metrics = newMetrics, ap_encode = (\<lambda>_. ''{}''), ap_marshal = (\<lambda>_. Inr []), ap_sha256 = (\<lambda>d. d),
         ap_decodeConfig = (\<lambda>_ _. Inr (sample_config, [])), ap_decodeSite = (\<lambda>_ _. Inr (sample_site, []))\<rparr>,
       wb_files = [(''index.html'', ''<html>'')], wb_content = (\<lambda>f r x. (Returned, writeBody (fl_name f) x)),
       wb_listing = (\<lambda>f r x. (Returned, x)), wb_seconds = (\<lambda>_. [])\<rparr>,
     re_encode = (\<lambda>c. if c = sample_config then Inr ''version: 1'' else Inl (Errorf ''other'' [])),
     re_parse = (\<lambda>_. Inr sample_config), re_path = ''/etc/yabber/config.yaml''\<rparr>"



text \<open>
  With a relative path the file drifts: loading makes a relative name relative to the working directory, an API change
  saves that name, and the next load resolves it again.
\<close>

lemma relative_path_drifts:
  "resolvePath (pathDir ''etc/config.yaml'') ''www'' = ''etc/www''"
  "resolvePath (pathDir ''etc/config.yaml'') (resolvePath (pathDir ''etc/config.yaml'') ''www'') = ''etc/etc/www''"
  by code_simp+

end
