(* ===== verification/Sign.thy ===== *)
theory Sign
  imports Self_Update
begin

text \<open>
  \<open>tools/sign/main.go\<close>: signing release checksums, and that an update accepts what it prints. The ed25519
  signature of a message under a seed is a parameter.
\<close>

definition seedSize :: nat where
  "seedSize = 32"

text \<open>\<open>run\<close>: the environment variable, what reading standard input gives, and the line printed.\<close>

definition sign_run :: "(string \<Rightarrow> string \<Rightarrow> string) \<Rightarrow> string \<Rightarrow> string result \<Rightarrow> string result" where
  "sign_run sign key stdin =
     (case base64Decode (trimSpace key) of
        None \<Rightarrow> Inl (Errorf ''YABBER_SIGNING_KEY must be a base64 Ed25519 seed'' [])
      | Some seed \<Rightarrow>
          if length seed \<noteq> seedSize then Inl (Errorf ''YABBER_SIGNING_KEY must be a base64 Ed25519 seed'' [])
          else rbind stdin (\<lambda>message. Inr (base64Encode (sign seed message) @ [CHR 0x0A])))"

lemma b64_not_space: "\<forall>c \<in> set b64_alphabet. \<not> is_space c"
  by (simp add: b64_alphabet_def is_space_def)

lemma b64_char_not_space [simp]: "n < 64 \<Longrightarrow> \<not> is_space (b64_char n)"
proof -
  have "length b64_alphabet = 64" by (simp add: b64_alphabet_def)
  then show "n < 64 \<Longrightarrow> \<not> is_space (b64_char n)" using b64_not_space by (simp add: b64_char_def)
qed

lemma base64Encode_plain: "c \<in> set (base64Encode s) \<Longrightarrow> \<not> is_space c"
proof -
  have e: "\<not> is_space (CHR ''='')" by (simp add: is_space_def)
  have "\<forall>c \<in> set (base64Encode s). \<not> is_space c"
    by (induction s rule: base64Encode.induct) (simp_all add: e)
  then show "c \<in> set (base64Encode s) \<Longrightarrow> \<not> is_space c" by blast
qed

lemma trimSpace_encoded: "trimSpace (base64Encode s @ [CHR 0x0A]) = base64Encode s"
proof -
  have n: "is_space (CHR 0x0A)" by (simp add: is_space_def)
  have d: "dropWhile is_space (base64Encode s @ t) = (if base64Encode s = [] then dropWhile is_space t else base64Encode s @ t)" for t
    using base64Encode_plain [of _ s] by (cases "base64Encode s") auto
  have "dropWhile is_space (rev (base64Encode s)) = rev (base64Encode s)"
    using base64Encode_plain [of _ s] by (cases "rev (base64Encode s)") (auto simp: rev_eq_Cons_iff)
  then show ?thesis by (simp add: trimSpace_def trimWhile_def d n)
qed

text \<open>C34: what the signing tool prints for a release's checksums is what an update accepts: when the server has both files
  and the signature of the message under the seed verifies, \<open>verifiedChecksums\<close> yields the checksums.\<close>

theorem signed_release_verifies:
  assumes "sign_run sign key (Inr message) = Inr printed"
    and "ue_do env (base @ ''/SHA256SUMS'') = Inr (200, message, None)"
    and "ue_do env (base @ ''/SHA256SUMS.sig'') = Inr (200, printed, None)"
    and "length message \<le> 2 ^ 20" and "length printed \<le> 2 ^ 10"
    and "\<And>seed. base64Decode (trimSpace key) = Some seed \<Longrightarrow> ue_verify env public message (sign seed message)"
  shows "verifiedChecksums env base public = Inr (parse_checksums message)"
proof -
  obtain seed where seed: "base64Decode (trimSpace key) = Some seed" and p: "printed = base64Encode (sign seed message) @ [CHR 0x0A]"
    using assms(1) by (auto simp: sign_run_def split: option.splits if_splits)
  have "fetch env (base @ ''/SHA256SUMS'') (2 ^ 20) = Inr message" "fetch env (base @ ''/SHA256SUMS.sig'') (2 ^ 10) = Inr printed"
    using assms(2-5) by (auto simp: fetch_def ue_get_def)
  then show ?thesis using assms(6) [OF seed] by (simp add: verifiedChecksums_def p trimSpace_encoded b64_roundtrip)
qed

text \<open>A signature scheme where the signature is the seed followed by the message.\<close>

definition sample_seed :: string where
  "sample_seed = replicate 32 CHR ''k''"

lemma length_base64Encode: "length (base64Encode s) = 4 * ((length s + 2) div 3)"
proof (induction s rule: base64Encode.induct)
  case (4 a b c s)
  have "(5 + length s) div 3 = Suc (Suc (Suc (length s)) div 3)" by presburger
  then show ?case using 4 by simp
qed simp_all

lemma trimSpace_base64: "trimSpace (base64Encode s) = base64Encode s"
proof -
  have "dropWhile is_space (base64Encode s) = base64Encode s"
    using base64Encode_plain [of _ s] by (cases "base64Encode s") auto
  moreover have "dropWhile is_space (rev (base64Encode s)) = rev (base64Encode s)"
    using base64Encode_plain [of _ s] by (cases "rev (base64Encode s)") (auto simp: rev_eq_Cons_iff)
  ultimately show ?thesis by (simp add: trimSpace_def trimWhile_def)
qed

theorem signed_release_verifies_witness:
  "verifiedChecksums (sample_update\<lparr>ue_verify := (\<lambda>k m s. s = sample_seed @ m),
      ue_do := (\<lambda>u. Inr (200, if hasSuffix u ''.sig'' then base64Encode (sample_seed @ ''d  yabber'') @ [CHR 0x0A] else ''d  yabber'', None))\<rparr>)
     ''b'' ''public'' = Inr [(''yabber'', ''d'')]"
proof -
  let ?env = "sample_update\<lparr>ue_verify := (\<lambda>k m s. s = sample_seed @ m),
      ue_do := (\<lambda>u. Inr (200, if hasSuffix u ''.sig'' then base64Encode (sample_seed @ ''d  yabber'') @ [CHR 0x0A] else ''d  yabber'', None))\<rparr>"
  note k = trimSpace_base64 [of sample_seed]
  have suffixes: "hasSuffix ''b/SHA256SUMS.sig'' ''.sig''" "\<not> hasSuffix ''b/SHA256SUMS'' ''.sig''" by code_simp+
  have s: "sign_run (\<lambda>seed m. seed @ m) (base64Encode sample_seed) (Inr ''d  yabber'') = Inr (base64Encode (sample_seed @ ''d  yabber'') @ [CHR 0x0A])"
    by (simp only: sign_run_def k b64_roundtrip) (simp add: seedSize_def sample_seed_def)
  have len: "length (base64Encode (sample_seed @ ''d  yabber'') @ [CHR 0x0A]) = 57"
    by (simp add: length_base64Encode sample_seed_def)
  have sums: "parse_checksums ''d  yabber'' = [(''yabber'', ''d'')]" by code_simp
  show ?thesis
    unfolding sums [symmetric]
  proof (rule signed_release_verifies [OF s])
    show "ue_do ?env (''b'' @ ''/SHA256SUMS'') = Inr (200, ''d  yabber'', None)" using suffixes(2) by simp
    show "ue_do ?env (''b'' @ ''/SHA256SUMS.sig'') = Inr (200, base64Encode (sample_seed @ ''d  yabber'') @ [CHR 0x0A], None)"
      using suffixes(1) by simp
    show "length ''d  yabber'' \<le> 2 ^ 20" by simp
    show "length (base64Encode (sample_seed @ ''d  yabber'') @ [CHR 0x0A]) \<le> 2 ^ 10" unfolding len by simp
    show "ue_verify ?env ''public'' ''d  yabber'' (seed @ ''d  yabber'')" if "base64Decode (trimSpace (base64Encode sample_seed)) = Some seed" for seed
    proof -
      have "seed = sample_seed" using that unfolding k b64_roundtrip by simp
      then show ?thesis by simp
    qed
  qed
qed

end
