(* ===== verification/Clone.thy ===== *)
theory Clone
  imports Prelude "HOL-Library.Monad_Syntax"
begin

text \<open>
  \<open>clone.go\<close>: the deep copy by reflection that a server makes of every
  configuration it is given. A value is what \<open>reflect\<close> sees: its kind, with
  pointers, slices and maps as references into a heap of cells, so that sharing
  between the original and its copy can be stated. \<open>deepCopy\<close> follows
  references without remembering them; fuel bounds how deep.
\<close>

section \<open>Values, cells and the heap\<close>

datatype gscalar = GoBool bool | GoInt int | GoString string

text \<open>
  A slice is an array cell, an offset and a length; a struct is its fields,
  each with the flag that it is exported (\<open>CanSet\<close>).
\<close>

datatype gval =
    Scalar gscalar
  | Pointer "nat option"
  | Slice "(nat \<times> nat \<times> nat) option"
  | GoMap "nat option"
  | Iface "gval option"
  | Struct "(bool \<times> gval) list"

datatype cell =
    Pointee gval
  | Elements "gval list"
  | Entries "(gscalar \<times> gval) list"

type_synonym cells = "nat \<Rightarrow> cell option"

record gheap =
  g_cells :: cells
  g_next :: nat

definition fresh_above :: "gheap \<Rightarrow> bool" where
  "fresh_above h \<longleftrightarrow> (\<forall>a\<ge>g_next h. g_cells h a = None)"

definition alloc :: "cell \<Rightarrow> gheap \<Rightarrow> nat \<times> gheap" where
  "alloc c h = (g_next h, h\<lparr>g_cells := (g_cells h)(g_next h \<mapsto> c), g_next := Suc (g_next h)\<rparr>)"

text \<open>The zero value of the type a value has.\<close>

fun zero_scalar :: "gscalar \<Rightarrow> gscalar" where
  "zero_scalar (GoBool _) = GoBool False"
| "zero_scalar (GoInt _) = GoInt 0"
| "zero_scalar (GoString _) = GoString []"

fun zero_value :: "gval \<Rightarrow> gval" where
  "zero_value (Scalar s) = Scalar (zero_scalar s)"
| "zero_value (Pointer _) = Pointer None"
| "zero_value (Slice _) = Slice None"
| "zero_value (GoMap _) = GoMap None"
| "zero_value (Iface _) = Iface None"
| "zero_value (Struct fs) = Struct (map (map_prod id zero_value) fs)"

section \<open>The copy\<close>

text \<open>The loops over elements, entries and fields: one copy after the other, through the heap.\<close>

fun copy_all :: "('a \<Rightarrow> gheap \<Rightarrow> ('b \<times> gheap) option) \<Rightarrow> 'a list \<Rightarrow> gheap \<Rightarrow> ('b list \<times> gheap) option" where
  "copy_all f [] h = Some ([], h)"
| "copy_all f (x # xs) h = do {
     (y, h) \<leftarrow> f x h;
     (ys, h) \<leftarrow> copy_all f xs h;
     Some (y # ys, h)
   }"

text \<open>A map entry keeps its key; a field that cannot be set keeps the zero value of the new struct.\<close>

definition copy_entry ::
  "(gval \<Rightarrow> gheap \<Rightarrow> (gval \<times> gheap) option) \<Rightarrow> 'k \<times> gval \<Rightarrow> gheap \<Rightarrow> (('k \<times> gval) \<times> gheap) option" where
  "copy_entry f e h = do { (v, h) \<leftarrow> f (snd e) h; Some ((fst e, v), h) }"

definition copy_field ::
  "(gval \<Rightarrow> gheap \<Rightarrow> (gval \<times> gheap) option) \<Rightarrow> bool \<times> gval \<Rightarrow> gheap \<Rightarrow> ((bool \<times> gval) \<times> gheap) option" where
  "copy_field f e h = (if fst e then copy_entry f e h else Some ((False, zero_value (snd e)), h))"

text \<open>
  \<open>deepCopy\<close>. A new cell is written once its contents are copied; nothing
  reads it before. A reference to a cell of another kind, which Go's types
  exclude, has no result.
\<close>

primrec deepCopy :: "nat \<Rightarrow> gval \<Rightarrow> gheap \<Rightarrow> (gval \<times> gheap) option" where
  "deepCopy 0 = (\<lambda>_ _. None)"
| "deepCopy (Suc n) = (\<lambda>value h.
     case value of
       Pointer None \<Rightarrow> Some (value, h)
     | Pointer (Some a) \<Rightarrow>
         (case g_cells h a of
            Some (Pointee v) \<Rightarrow> do {
              (v', h) \<leftarrow> deepCopy n v h;
              let (a', h) = alloc (Pointee v') h;
              Some (Pointer (Some a'), h)
            }
          | _ \<Rightarrow> None)
     | Slice None \<Rightarrow> Some (value, h)
     | Slice (Some (a, offset, len)) \<Rightarrow>
         (case g_cells h a of
            Some (Elements vs) \<Rightarrow>
              if length vs < offset + len then None
              else do {
                (vs', h) \<leftarrow> copy_all (deepCopy n) (take len (drop offset vs)) h;
                let (a', h) = alloc (Elements vs') h;
                Some (Slice (Some (a', 0, len)), h)
              }
          | _ \<Rightarrow> None)
     | GoMap None \<Rightarrow> Some (value, h)
     | GoMap (Some a) \<Rightarrow>
         (case g_cells h a of
            Some (Entries es) \<Rightarrow> do {
              (es', h) \<leftarrow> copy_all (copy_entry (deepCopy n)) es h;
              let (a', h) = alloc (Entries es') h;
              Some (GoMap (Some a'), h)
            }
          | _ \<Rightarrow> None)
     | Iface None \<Rightarrow> Some (value, h)
     | Iface (Some v) \<Rightarrow> do { (v', h) \<leftarrow> deepCopy n v h; Some (Iface (Some v'), h) }
     | Struct fs \<Rightarrow> do { (fs', h) \<leftarrow> copy_all (copy_field (deepCopy n)) fs h; Some (Struct fs', h) }
     | Scalar s \<Rightarrow> Some (value, h))"

section \<open>What a value stands for\<close>

text \<open>The tree a value unfolds to when references are followed: what a reader of the value can see.\<close>

datatype gtree =
    TScalar gscalar
  | TPointer "gtree option"
  | TSlice "gtree list option"
  | TMap "(gscalar \<times> gtree) list option"
  | TIface "gtree option"
  | TStruct "(bool \<times> gtree) list"

inductive denotes :: "cells \<Rightarrow> gval \<Rightarrow> gtree \<Rightarrow> bool" for c where
  scalar: "denotes c (Scalar s) (TScalar s)"
| nil_pointer: "denotes c (Pointer None) (TPointer None)"
| pointer: "c a = Some (Pointee v) \<Longrightarrow> denotes c v t \<Longrightarrow> denotes c (Pointer (Some a)) (TPointer (Some t))"
| nil_slice: "denotes c (Slice None) (TSlice None)"
| slice: "c a = Some (Elements vs) \<Longrightarrow> offset + len \<le> length vs \<Longrightarrow>
    list_all2 (denotes c) (take len (drop offset vs)) ts \<Longrightarrow> denotes c (Slice (Some (a, offset, len))) (TSlice (Some ts))"
| nil_map: "denotes c (GoMap None) (TMap None)"
| map_entries: "c a = Some (Entries es) \<Longrightarrow>
    list_all2 (\<lambda>e t. fst e = fst t \<and> denotes c (snd e) (snd t)) es ts \<Longrightarrow> denotes c (GoMap (Some a)) (TMap (Some ts))"
| nil_iface: "denotes c (Iface None) (TIface None)"
| iface: "denotes c v t \<Longrightarrow> denotes c (Iface (Some v)) (TIface (Some t))"
| struct: "list_all2 (\<lambda>f t. fst f = fst t \<and> denotes c (snd f) (snd t)) fs ts \<Longrightarrow> denotes c (Struct fs) (TStruct ts)"

text \<open>The zero tree, and the tree a copy has: unexported fields are zeroed.\<close>

fun zero_tree :: "gtree \<Rightarrow> gtree" where
  "zero_tree (TScalar s) = TScalar (zero_scalar s)"
| "zero_tree (TPointer _) = TPointer None"
| "zero_tree (TSlice _) = TSlice None"
| "zero_tree (TMap _) = TMap None"
| "zero_tree (TIface _) = TIface None"
| "zero_tree (TStruct fs) = TStruct (map (map_prod id zero_tree) fs)"

fun wipe :: "gtree \<Rightarrow> gtree" where
  "wipe (TScalar s) = TScalar s"
| "wipe (TPointer t) = TPointer (map_option wipe t)"
| "wipe (TSlice ts) = TSlice (map_option (map wipe) ts)"
| "wipe (TMap ts) = TMap (map_option (map (map_prod id wipe)) ts)"
| "wipe (TIface t) = TIface (map_option wipe t)"
| "wipe (TStruct fs) = TStruct (map (\<lambda>(e, t). (e, if e then wipe t else zero_tree t)) fs)"

fun all_exported :: "gtree \<Rightarrow> bool" where
  "all_exported (TScalar s) \<longleftrightarrow> True"
| "all_exported (TPointer t) \<longleftrightarrow> pred_option all_exported t"
| "all_exported (TSlice ts) \<longleftrightarrow> pred_option (list_all all_exported) ts"
| "all_exported (TMap ts) \<longleftrightarrow> pred_option (list_all (\<lambda>e. all_exported (snd e))) ts"
| "all_exported (TIface t) \<longleftrightarrow> pred_option all_exported t"
| "all_exported (TStruct fs) \<longleftrightarrow> list_all (\<lambda>f. fst f \<and> all_exported (snd f)) fs"


lemma denotes_mono:
  assumes "denotes c v t" and "c \<subseteq>\<^sub>m c'"
  shows "denotes c' v t"
  using assms(1)
proof (induction rule: denotes.induct)
  case (pointer a v t)
  then show ?case using assms(2) by (auto intro!: denotes.pointer simp: map_le_def dom_def)
next
  case (slice a vs offset len ts)
  have "c' a = Some (Elements vs)" using slice(1) assms(2) by (force simp: map_le_def)
  then show ?case using slice(2,3) by (auto intro!: denotes.slice elim: list_all2_mono)
next
  case (map_entries a es ts)
  have "c' a = Some (Entries es)" using map_entries(1) assms(2) by (force simp: map_le_def)
  then show ?case using map_entries(2) by (auto intro!: denotes.map_entries elim: list_all2_mono)
next
  case (struct fs ts)
  then show ?case by (auto intro!: denotes.struct elim: list_all2_mono)
qed (auto intro: denotes.intros)

section \<open>Extending the heap\<close>

definition extends :: "gheap \<Rightarrow> gheap \<Rightarrow> bool" where
  "extends h h' \<longleftrightarrow> g_next h \<le> g_next h' \<and> (\<forall>a<g_next h. g_cells h' a = g_cells h a) \<and> fresh_above h'"

definition holds_cells :: "cells \<Rightarrow> gheap \<Rightarrow> bool" where
  "holds_cells c h \<longleftrightarrow> fresh_above h \<and> c \<subseteq>\<^sub>m g_cells h"

definition new_cells :: "gheap \<Rightarrow> gheap \<Rightarrow> cells" where
  "new_cells h h' = g_cells h' |` {g_next h..}"

lemma extends_refl: "fresh_above h \<Longrightarrow> extends h h"
  by (simp add: extends_def)

lemma extends_trans: "extends h h1 \<Longrightarrow> extends h1 h2 \<Longrightarrow> extends h h2"
  by (auto simp: extends_def)

lemma holds_cells_extends:
  assumes "holds_cells c h" and "extends h h'"
  shows "holds_cells c h'"
proof -
  have "g_cells h' a = c a" if "a \<in> dom c" for a
  proof -
    have "g_cells h a = c a" using assms(1) that by (auto simp: holds_cells_def map_le_def)
    then have "a < g_next h" using assms(1) that by (metis domIff fresh_above_def holds_cells_def not_less)
    then show ?thesis using assms(2) \<open>g_cells h a = c a\<close> by (simp add: extends_def)
  qed
  then show ?thesis using assms(2) by (simp add: holds_cells_def extends_def map_le_def)
qed

lemma new_cells_later: "extends h h1 \<Longrightarrow> new_cells h1 h2 \<subseteq>\<^sub>m new_cells h h2"
  by (auto simp: new_cells_def extends_def map_le_def restrict_map_def)

lemma new_cells_earlier: "extends h h1 \<Longrightarrow> extends h1 h2 \<Longrightarrow> new_cells h h1 \<subseteq>\<^sub>m new_cells h h2"
proof -
  assume a: "extends h h1" "extends h1 h2"
  have "g_cells h2 x = g_cells h1 x" if "g_cells h1 x \<noteq> None" for x
  proof -
    have "x < g_next h1" using a(1) that by (metis extends_def fresh_above_def not_less)
    then show ?thesis using a(2) by (simp add: extends_def)
  qed
  then show ?thesis by (auto simp: new_cells_def map_le_def restrict_map_def dom_def)
qed

lemma alloc_cell:
  assumes "fresh_above h" and "alloc cl h = (a, h')"
  shows "extends h h'" and "g_cells h' a = Some cl" and "g_next h \<le> a"
  using assms by (auto simp: alloc_def extends_def fresh_above_def)

section \<open>The copy returns\<close>

text \<open>
  With enough fuel \<open>f\<close> returns on \<open>x\<close> in every heap that holds the cells \<open>c\<close>: the same for every larger
  fuel, leaving the old cells alone, and with a result that \<open>Q\<close> holds of in the new cells.
\<close>

definition runs ::
  "cells \<Rightarrow> (nat \<Rightarrow> 'a \<Rightarrow> gheap \<Rightarrow> ('b \<times> gheap) option) \<Rightarrow> (cells \<Rightarrow> 'b \<Rightarrow> bool) \<Rightarrow> 'a \<Rightarrow> bool" where
  "runs c f Q x \<longleftrightarrow> (\<exists>n0. \<forall>h. holds_cells c h \<longrightarrow>
     (\<exists>y h'. (\<forall>n\<ge>n0. f n x h = Some (y, h')) \<and> extends h h' \<and> Q (new_cells h h') y))"

lemma runs_copy_all:
  assumes "list_all2 (\<lambda>x t. runs c f (\<lambda>c y. Q c y t) x) xs ts"
    and mono: "\<And>c c' y t. Q c y t \<Longrightarrow> c \<subseteq>\<^sub>m c' \<Longrightarrow> Q c' y t"
  shows "runs c (\<lambda>n. copy_all (f n)) (\<lambda>c ys. list_all2 (Q c) ys ts) xs"
  using assms(1)
proof (induction rule: list_all2_induct)
  case Nil
  show ?case by (auto simp: runs_def holds_cells_def intro: extends_refl)
next
  case (Cons x xs t ts)
  obtain n1 where n1: "\<And>h. holds_cells c h \<Longrightarrow>
      \<exists>y h'. (\<forall>n\<ge>n1. f n x h = Some (y, h')) \<and> extends h h' \<and> Q (new_cells h h') y t"
    using Cons.hyps(1) unfolding runs_def by blast
  obtain n2 where n2: "\<And>h. holds_cells c h \<Longrightarrow>
      \<exists>ys h'. (\<forall>n\<ge>n2. copy_all (f n) xs h = Some (ys, h')) \<and> extends h h' \<and> list_all2 (Q (new_cells h h')) ys ts"
    using Cons.IH unfolding runs_def by blast
  have "\<exists>ys h'. (\<forall>n\<ge>max n1 n2. copy_all (f n) (x # xs) h = Some (ys, h')) \<and> extends h h' \<and>
      list_all2 (Q (new_cells h h')) ys (t # ts)" if h: "holds_cells c h" for h
  proof -
    obtain y h1 where y: "\<forall>n\<ge>n1. f n x h = Some (y, h1)" "extends h h1" "Q (new_cells h h1) y t"
      using n1 [OF h] by blast
    obtain ys h2 where ys: "\<forall>n\<ge>n2. copy_all (f n) xs h1 = Some (ys, h2)" "extends h1 h2"
        "list_all2 (Q (new_cells h1 h2)) ys ts"
      using n2 [OF holds_cells_extends [OF h y(2)]] by blast
    have "Q (new_cells h h2) y t" by (rule mono [OF y(3) new_cells_earlier [OF y(2) ys(2)]])
    moreover have "list_all2 (Q (new_cells h h2)) ys ts"
      by (rule list_all2_mono [OF ys(3)]) (blast intro: mono new_cells_later [OF y(2)])
    ultimately show ?thesis using y(1) ys(1) extends_trans [OF y(2) ys(2)]
      by (intro exI [of _ "y # ys"] exI [of _ h2]) simp
  qed
  then show ?case unfolding runs_def by blast
qed

text \<open>One level of \<open>deepCopy\<close> over a part that returns, and the cell written for it.\<close>

lemma runs_level:
  assumes f: "runs c f Q x" and step: "\<And>n h. holds_cells c h \<Longrightarrow> deepCopy (Suc n) v h = do { (y, h) \<leftarrow> f n x h; Some (k y h) }"
    and k: "\<And>h h' y. extends h h' \<Longrightarrow> Q (new_cells h h') y \<Longrightarrow>
      extends h' (snd (k y h')) \<and> denotes (new_cells h (snd (k y h'))) (fst (k y h')) t"
  shows "runs c deepCopy (\<lambda>c v. denotes c v t) v"
proof -
  obtain n0 where n0: "\<And>h. holds_cells c h \<Longrightarrow>
      \<exists>y h'. (\<forall>n\<ge>n0. f n x h = Some (y, h')) \<and> extends h h' \<and> Q (new_cells h h') y"
    using f unfolding runs_def by blast
  have "\<exists>v' h'. (\<forall>n\<ge>Suc n0. deepCopy n v h = Some (v', h')) \<and> extends h h' \<and> denotes (new_cells h h') v' t"
    if h: "holds_cells c h" for h
  proof -
    obtain y h1 where y: "\<forall>n\<ge>n0. f n x h = Some (y, h1)" "extends h h1" "Q (new_cells h h1) y"
      using n0 [OF h] by blast
    have "deepCopy n v h = Some (fst (k y h1), snd (k y h1))" if "Suc n0 \<le> n" for n
    proof -
      from that obtain m where "n = Suc m" "n0 \<le> m" by (cases n) simp_all
      then show ?thesis using step [OF h, of m] y(1) by simp
    qed
    then show ?thesis using k [OF y(2,3)] extends_trans [OF y(2)] by blast
  qed
  then show ?thesis unfolding runs_def by blast
qed

lemma runs_leaf:
  assumes "\<And>n h. deepCopy (Suc n) v h = Some (v, h)" and "\<And>c. denotes c v t"
  shows "runs c deepCopy (\<lambda>c v. denotes c v t) v"
proof -
  have "deepCopy n v h = Some (v, h)" if "1 \<le> n" for n h using assms(1) that by (cases n) auto
  then have "\<forall>n\<ge>1. deepCopy n v h = Some (v, h)" for h by blast
  then show ?thesis unfolding runs_def using assms(2) by (meson holds_cells_def extends_refl)
qed


lemma zero_denotes: "denotes c v t \<Longrightarrow> denotes c' (zero_value v) (zero_tree t)"
proof (induction rule: denotes.induct)
  case (struct fs ts)
  then show ?case by (auto intro!: denotes.struct simp: list_all2_map1 list_all2_map2 elim!: list_all2_mono)
qed (auto intro: denotes.intros)

lemma denotes_new:
  assumes "extends h h1" and "alloc cl h1 = (a, h2)"
  shows "new_cells h h1 \<subseteq>\<^sub>m new_cells h h2" and "new_cells h h2 a = Some cl" and "extends h1 h2"
proof -
  have f: "fresh_above h1" using assms(1) by (simp add: extends_def)
  show "extends h1 h2" by (rule alloc_cell(1) [OF f assms(2)])
  then show "new_cells h h1 \<subseteq>\<^sub>m new_cells h h2" by (rule new_cells_earlier [OF assms(1)])
  show "new_cells h h2 a = Some cl" using alloc_cell(2,3) [OF f assms(2)] assms(1)
    by (simp add: new_cells_def extends_def)
qed

lemma runs_entry:
  assumes "runs c deepCopy (\<lambda>c v. denotes c v t) v"
  shows "runs c (\<lambda>n. copy_entry (deepCopy n)) (\<lambda>c e. fst e = k \<and> denotes c (snd e) t) (k, v)"
  using assms unfolding runs_def copy_entry_def by (fastforce simp del: deepCopy.simps)

lemma runs_field:
  assumes "runs c deepCopy (\<lambda>c v. denotes c v (wipe t)) v" and "denotes c v t"
  shows "runs c (\<lambda>n. copy_field (deepCopy n)) (\<lambda>c e. fst e = k \<and> denotes c (snd e) (if k then wipe t else zero_tree t)) (k, v)"
proof (cases k)
  case True
  then show ?thesis using runs_entry [OF assms(1), of k] by (simp add: runs_def copy_field_def)
next
  case False
  have "denotes c' (zero_value v) (zero_tree t)" for c' by (rule zero_denotes [OF assms(2)])
  then have "\<exists>y h'. (\<forall>n\<ge>0. copy_field (deepCopy n) (k, v) h = Some (y, h')) \<and> extends h h' \<and>
      fst y = k \<and> denotes (new_cells h h') (snd y) (if k then wipe t else zero_tree t)" if "holds_cells c h" for h
    using False that by (auto simp: copy_field_def holds_cells_def intro: extends_refl)
  then show ?thesis unfolding runs_def by blast
qed

text \<open>Every value that unfolds to a finite tree is copied.\<close>

lemma deepCopy_runs: "denotes c v t \<Longrightarrow> runs c deepCopy (\<lambda>c v. denotes c v (wipe t)) v"
proof (induction rule: denotes.induct)
  case (pointer a v t)
  show ?case
  proof (rule runs_level [OF pointer.IH])
    show "deepCopy (Suc n) (Pointer (Some a)) h =
      do { (y, h) \<leftarrow> deepCopy n v h; Some ((\<lambda>y h. let (a', h) = alloc (Pointee y) h in (Pointer (Some a'), h)) y h) }"
      if "holds_cells c h" for n h
    proof -
      have "g_cells h a = Some (Pointee v)" using that pointer.hyps(1) by (force simp: holds_cells_def map_le_def)
      then show ?thesis by (simp add: split_beta Let_def)
    qed
  next
    fix h h' y assume "extends h h'" "denotes (new_cells h h') y (wipe t)"
    then show "extends h' (snd (let (a', h) = alloc (Pointee y) h' in (Pointer (Some a'), h))) \<and>
        denotes (new_cells h (snd (let (a', h) = alloc (Pointee y) h' in (Pointer (Some a'), h))))
          (fst (let (a', h) = alloc (Pointee y) h' in (Pointer (Some a'), h))) (wipe (TPointer (Some t)))"
      by (cases "alloc (Pointee y) h'") (auto intro!: denotes.pointer dest: denotes_new intro: denotes_mono)
  qed
next
  case (slice a vs offset len ts)
  have r: "runs c (\<lambda>n. copy_all (deepCopy n)) (\<lambda>c ys. list_all2 (\<lambda>y t. denotes c y (wipe t)) ys ts) (take len (drop offset vs))"
    by (rule runs_copy_all [OF list_all2_mono [OF slice.IH]]) (auto intro: denotes_mono)
  show ?case
  proof (rule runs_level [OF r])
    show "deepCopy (Suc n) (Slice (Some (a, offset, len))) h =
      do { (y, h) \<leftarrow> copy_all (deepCopy n) (take len (drop offset vs)) h;
           Some ((\<lambda>y h. let (a', h) = alloc (Elements y) h in (Slice (Some (a', 0, len)), h)) y h) }"
      if "holds_cells c h" for n h
    proof -
      have "g_cells h a = Some (Elements vs)" using that slice.hyps(1) by (force simp: holds_cells_def map_le_def)
      then show ?thesis using slice.hyps(2) by (simp add: split_beta Let_def)
    qed
  next
    fix h h' ys assume e: "extends h h'" "list_all2 (\<lambda>y t. denotes (new_cells h h') y (wipe t)) ys ts"
    obtain a' h2 where al: "alloc (Elements ys) h' = (a', h2)" by (cases "alloc (Elements ys) h'")
    have len: "length ys = len" using list_all2_lengthD [OF e(2)] list_all2_lengthD [OF slice.IH] slice.hyps(2) by simp
    have "list_all2 (denotes (new_cells h h2)) ys (map wipe ts)"
      unfolding list_all2_map2 using e(2) by (rule list_all2_mono) (blast intro: denotes_mono denotes_new(1) [OF e(1) al])
    then have "denotes (new_cells h h2) (Slice (Some (a', 0, len))) (wipe (TSlice (Some ts)))"
      using denotes_new(2) [OF e(1) al] len by (auto intro!: denotes.slice)
    then show "extends h' (snd (let (a', h) = alloc (Elements ys) h' in (Slice (Some (a', 0, len)), h))) \<and>
        denotes (new_cells h (snd (let (a', h) = alloc (Elements ys) h' in (Slice (Some (a', 0, len)), h))))
          (fst (let (a', h) = alloc (Elements ys) h' in (Slice (Some (a', 0, len)), h))) (wipe (TSlice (Some ts)))"
      using denotes_new(3) [OF e(1) al] by (simp add: al)
  qed
next
  case (map_entries a es ts)
  have r: "runs c (\<lambda>n. copy_all (copy_entry (deepCopy n)))
      (\<lambda>c ys. list_all2 (\<lambda>y t. fst y = fst t \<and> denotes c (snd y) (wipe (snd t))) ys ts) es"
  proof (rule runs_copy_all [OF list_all2_mono [OF map_entries.IH]])
    fix e :: "gscalar \<times> gval" and t :: "gscalar \<times> gtree" assume "fst e = fst t \<and> denotes c (snd e) (snd t) \<and> runs c deepCopy (\<lambda>c v. denotes c v (wipe (snd t))) (snd e)"
    then show "runs c (\<lambda>n. copy_entry (deepCopy n)) (\<lambda>c y. fst y = fst t \<and> denotes c (snd y) (wipe (snd t))) e"
      using runs_entry [of c "wipe (snd t)" "snd e" "fst e"] by (cases e) simp
  qed (auto intro: denotes_mono)
  show ?case
  proof (rule runs_level [OF r])
    show "deepCopy (Suc n) (GoMap (Some a)) h =
      do { (y, h) \<leftarrow> copy_all (copy_entry (deepCopy n)) es h;
           Some ((\<lambda>y h. let (a', h) = alloc (Entries y) h in (GoMap (Some a'), h)) y h) }"
      if "holds_cells c h" for n h
    proof -
      have "g_cells h a = Some (Entries es)" using that map_entries.hyps(1) by (force simp: holds_cells_def map_le_def)
      then show ?thesis by (simp add: split_beta Let_def)
    qed
  next
    fix h h' ys assume e: "extends h h'" "list_all2 (\<lambda>y t. fst y = fst t \<and> denotes (new_cells h h') (snd y) (wipe (snd t))) ys ts"
    obtain a' h2 where al: "alloc (Entries ys) h' = (a', h2)" by (cases "alloc (Entries ys) h'")
    have "list_all2 (\<lambda>e t. fst e = fst t \<and> denotes (new_cells h h2) (snd e) (snd t)) ys (map (map_prod id wipe) ts)"
      unfolding list_all2_map2 using e(2) by (rule list_all2_mono) (auto intro: denotes_mono denotes_new(1) [OF e(1) al])
    then have "denotes (new_cells h h2) (GoMap (Some a')) (wipe (TMap (Some ts)))"
      using denotes_new(2) [OF e(1) al] by (auto intro!: denotes.map_entries)
    then show "extends h' (snd (let (a', h) = alloc (Entries ys) h' in (GoMap (Some a'), h))) \<and>
        denotes (new_cells h (snd (let (a', h) = alloc (Entries ys) h' in (GoMap (Some a'), h))))
          (fst (let (a', h) = alloc (Entries ys) h' in (GoMap (Some a'), h))) (wipe (TMap (Some ts)))"
      using denotes_new(3) [OF e(1) al] by (simp add: al)
  qed
next
  case (iface v t)
  show ?case
  proof (rule runs_level [OF iface.IH])
    show "deepCopy (Suc n) (Iface (Some v)) h = do { (y, h) \<leftarrow> deepCopy n v h; Some ((\<lambda>y h. (Iface (Some y), h)) y h) }" for n h
      by simp
  qed (auto intro: denotes.iface extends_refl simp: extends_def)
next
  case (struct fs ts)
  have r: "runs c (\<lambda>n. copy_all (copy_field (deepCopy n)))
      (\<lambda>c ys. list_all2 (\<lambda>y t. fst y = fst t \<and> denotes c (snd y) (if fst t then wipe (snd t) else zero_tree (snd t))) ys ts) fs"
  proof (rule runs_copy_all [OF list_all2_mono [OF struct.IH]])
    fix e :: "bool \<times> gval" and t :: "bool \<times> gtree" assume "fst e = fst t \<and> denotes c (snd e) (snd t) \<and> runs c deepCopy (\<lambda>c v. denotes c v (wipe (snd t))) (snd e)"
    then show "runs c (\<lambda>n. copy_field (deepCopy n))
        (\<lambda>c y. fst y = fst t \<and> denotes c (snd y) (if fst t then wipe (snd t) else zero_tree (snd t))) e"
      using runs_field [of c "snd t" "snd e" "fst e"] by (cases e) simp
  qed (auto intro: denotes_mono)
  show ?case
  proof (rule runs_level [OF r])
    show "deepCopy (Suc n) (Struct fs) h = do { (y, h) \<leftarrow> copy_all (copy_field (deepCopy n)) fs h; Some ((\<lambda>y h. (Struct y, h)) y h) }" for n h
      by simp
  next
    fix h h' ys assume e: "extends h h'"
      "list_all2 (\<lambda>y t. fst y = fst t \<and> denotes (new_cells h h') (snd y) (if fst t then wipe (snd t) else zero_tree (snd t))) ys ts"
    have "list_all2 (\<lambda>f t. fst f = fst t \<and> denotes (new_cells h h') (snd f) (snd t)) ys
        (map (\<lambda>(e, t). (e, if e then wipe t else zero_tree t)) ts)"
      unfolding list_all2_map2 using e(2) by (rule list_all2_mono) auto
    then show "extends h' (snd (Struct ys, h')) \<and> denotes (new_cells h (snd (Struct ys, h'))) (fst (Struct ys, h')) (wipe (TStruct ts))"
      using e(1) by (auto intro!: denotes.struct simp: extends_def)
  qed
qed (auto intro!: runs_leaf denotes.intros)


lemma wipe_exported: "all_exported t \<Longrightarrow> wipe t = t"
proof (induction t rule: wipe.induct)
  case (2 t)
  then show ?case by (cases t) auto
next
  case (3 ts)
  then show ?case by (cases ts) (auto simp: list_all_iff intro!: map_idI)
next
  case (4 ts)
  then show ?case by (cases ts) (fastforce simp: list_all_iff intro!: map_idI)+
next
  case (5 t)
  then show ?case by (cases t) auto
next
  case (6 fs)
  then show ?case by (fastforce simp: list_all_iff intro!: map_idI)
qed simp

section \<open>What Clone gives\<close>

text \<open>C19: \<open>Clone\<close> returns on every value that unfolds to a finite tree, whatever it shares inside; the copy unfolds to
  the same tree, unexported fields zeroed and a tree without them unchanged; and the two share nothing: whatever is
  later written to the cells of one, the other unfolds to what it did.\<close>

theorem clone_independent:
  assumes "denotes (g_cells h) v t" and "fresh_above h"
  shows "\<exists>n0 v' h'. (\<forall>n\<ge>n0. deepCopy n v h = Some (v', h')) \<and>
    (\<forall>c. (\<forall>a\<ge>g_next h. c a = g_cells h' a) \<longrightarrow> denotes c v' (wipe t)) \<and>
    (\<forall>c. (\<forall>a<g_next h. c a = g_cells h' a) \<longrightarrow> denotes c v t) \<and>
    (all_exported t \<longrightarrow> wipe t = t)"
proof -
  obtain n0 v' h' where r: "\<forall>n\<ge>n0. deepCopy n v h = Some (v', h')" "extends h h'" "denotes (new_cells h h') v' (wipe t)"
    using deepCopy_runs [OF assms(1)] assms(2) unfolding runs_def holds_cells_def by (meson map_le_refl)
  have "denotes c v' (wipe t)" if "\<forall>a\<ge>g_next h. c a = g_cells h' a" for c
    by (rule denotes_mono [OF r(3)]) (use that in \<open>auto simp: new_cells_def map_le_def\<close>)
  moreover have "denotes c v t" if "\<forall>a<g_next h. c a = g_cells h' a" for c
  proof (rule denotes_mono [OF assms(1)])
    have "c a = g_cells h a" if "g_cells h a \<noteq> None" for a
    proof -
      have "a < g_next h" using assms(2) that by (metis fresh_above_def not_less)
      then show ?thesis using \<open>\<forall>a<g_next h. c a = g_cells h' a\<close> r(2) by (simp add: extends_def)
    qed
    then show "g_cells h \<subseteq>\<^sub>m c" by (auto simp: map_le_def dom_def)
  qed
  ultimately show ?thesis using r(1) wipe_exported by blast
qed

text \<open>A site list whose two elements share one pointer, next to a nil map and an extension value.\<close>

definition sample_value :: gval where
  "sample_value = Struct [(True, Slice (Some (0, 0, 2))), (True, GoMap None), (True, GoMap (Some 2))]"

definition sample_gheap :: gheap where
  "sample_gheap = \<lparr>g_cells = [0 \<mapsto> Elements [Pointer (Some 1), Pointer (Some 1)], 1 \<mapsto> Pointee (Scalar (GoInt 7)),
     2 \<mapsto> Entries [(GoString ''worker'', Iface (Some (Scalar (GoString ''x''))))]], g_next = 3\<rparr>"

definition sample_tree :: gtree where
  "sample_tree = TStruct [(True, TSlice (Some [TPointer (Some (TScalar (GoInt 7))), TPointer (Some (TScalar (GoInt 7)))])),
     (True, TMap None), (True, TMap (Some [(GoString ''worker'', TIface (Some (TScalar (GoString ''x''))))]))]"

lemma sample_denotes: "denotes (g_cells sample_gheap) sample_value sample_tree"
proof -
  have "denotes (g_cells sample_gheap) (Slice (Some (0, 0, 2)))
      (TSlice (Some [TPointer (Some (TScalar (GoInt 7))), TPointer (Some (TScalar (GoInt 7)))]))"
    by (rule denotes.slice [of _ _ "[Pointer (Some 1), Pointer (Some 1)]"]) (auto simp: sample_gheap_def intro!: denotes.intros)
  moreover have "denotes (g_cells sample_gheap) (GoMap (Some 2)) (TMap (Some [(GoString ''worker'', TIface (Some (TScalar (GoString ''x''))))]))"
    by (rule denotes.map_entries [of _ _ "[(GoString ''worker'', Iface (Some (Scalar (GoString ''x''))))]"])
      (auto simp: sample_gheap_def intro!: denotes.intros)
  ultimately show ?thesis unfolding sample_value_def sample_tree_def by (auto intro!: denotes.intros)
qed

theorem clone_independent_witness:
  "\<exists>n0 v' h'. deepCopy n0 sample_value sample_gheap = Some (v', h') \<and>
     denotes ((g_cells h')(1 \<mapsto> Pointee (Scalar (GoInt 8)))) v' sample_tree"
proof -
  have "fresh_above sample_gheap" by (simp add: fresh_above_def sample_gheap_def)
  from clone_independent [OF sample_denotes this] obtain n0 v' h' where
    r: "\<forall>n\<ge>n0. deepCopy n sample_value sample_gheap = Some (v', h')"
    and c: "\<forall>c. (\<forall>a\<ge>g_next sample_gheap. c a = g_cells h' a) \<longrightarrow> denotes c v' (wipe sample_tree)"
    by blast
  have "wipe sample_tree = sample_tree" by (simp add: sample_tree_def)
  then have "denotes ((g_cells h')(1 \<mapsto> Pointee (Scalar (GoInt 8)))) v' sample_tree"
    using c by (simp add: sample_gheap_def)
  then show ?thesis using r by blast
qed

text \<open>
  A pointer to itself, which an embedding program can put into an extension value, is followed for ever; and a value
  of a struct with unexported fields, such as the time a YAML timestamp in an extension decodes to, loses them.
\<close>

lemma deepCopy_cycle:
  assumes "g_cells h a = Some (Pointee (Pointer (Some a)))"
  shows "deepCopy n (Pointer (Some a)) h = None"
  using assms by (induction n) simp_all

lemma deepCopy_time:
  "deepCopy 3 (Iface (Some (Struct [(False, Scalar (GoInt 5)), (False, Scalar (GoInt 63871459200)), (False, Pointer None)]))) h =
   Some (Iface (Some (Struct [(False, Scalar (GoInt 0)), (False, Scalar (GoInt 0)), (False, Pointer None)])), h)"
  by (simp add: numeral_3_eq_3 copy_field_def)

end
