(* ===== verification/Workers.thy ===== *)
theory Workers
  imports Honest
begin

text \<open>
  \<open>workers/handler.go\<close> and \<open>workers/runtime.go\<close>: JavaScript handlers. The
  JavaScript engine (goja) is a parameter: a runtime is a value that each
  operation on it takes and returns. What is modelled is the code around it:
  the rewriting of module syntax, the pool of runtimes, the call and the
  answer. A runtime has a number, so that several requests can be followed; the
  pool is a \<open>sync.Pool\<close>, which hands out any of its items, or none, and may drop
  them.
\<close>

section \<open>Module syntax\<close>

text \<open>The three regular expressions, as matchers on the text after \<open>prev\<close>: what
  replaces the match, and the text after it.\<close>

definition re_space :: "char \<Rightarrow> bool" where
  "re_space c = (c \<in> set [CHR '' '', CHR 0x09, CHR 0x0A, CHR 0x0C, CHR 0x0D])"

definition re_word :: "char \<Rightarrow> bool" where
  "re_word c = (let n = of_char c :: nat in is_digit c \<or> 65 \<le> n \<and> n \<le> 90 \<or> 97 \<le> n \<and> n \<le> 122 \<or> n = 95)"

definition spaces1 :: "string \<Rightarrow> string option" where
  "spaces1 s = (if takeWhile re_space s = [] then None else Some (dropWhile re_space s))"

definition word_end :: "string \<Rightarrow> bool" where
  "word_end s = (case s of [] \<Rightarrow> True | c # _ \<Rightarrow> \<not> re_word c)"

type_synonym matcher = "char option \<Rightarrow> string \<Rightarrow> (string \<times> string) option"

definition exportDefault :: matcher where
  "exportDefault prev s =
     (if (case prev of None \<Rightarrow> True | Some c \<Rightarrow> \<not> re_word c)
      then Option.bind (cutPrefix s ''export'') (\<lambda>t. Option.bind (spaces1 t) (\<lambda>t.
           Option.bind (cutPrefix t ''default'') (\<lambda>t. Option.bind (spaces1 t) (\<lambda>t.
             Some (''var __exports = '', t)))))
      else None)"

definition line_start :: "char option \<Rightarrow> bool" where
  "line_start prev = (case prev of None \<Rightarrow> True | Some c \<Rightarrow> c = CHR 0x0A)"

definition functionKeyword :: "string \<Rightarrow> string option" where
  "functionKeyword s =
     (let t = (case Option.bind (cutPrefix s ''async'') spaces1 of Some t \<Rightarrow> t | None \<Rightarrow> s)
      in Option.bind (cutPrefix t ''function'') (\<lambda>u. if word_end u then Some u else None))"

definition exportFunction :: matcher where
  "exportFunction prev s =
     (if line_start prev
      then Option.bind (cutPrefix s ''export'') (\<lambda>t. Option.bind (spaces1 t) (\<lambda>t.
           map_option (\<lambda>u. (take (length t - length u) t, u)) (functionKeyword t)))
      else None)"

definition bindingKeyword :: "string \<Rightarrow> string option" where
  "bindingKeyword s =
     map_option the (find (\<lambda>u. case u of None \<Rightarrow> False | Some u \<Rightarrow> word_end u)
       (map (cutPrefix s) [''const'', ''let'', ''var'', ''class'']))"

definition exportBinding :: matcher where
  "exportBinding prev s =
     (if line_start prev
      then Option.bind (cutPrefix s ''export'') (\<lambda>t. Option.bind (spaces1 t) (\<lambda>t.
           map_option (\<lambda>u. (take (length t - length u) t, u)) (bindingKeyword t)))
      else None)"

text \<open>\<open>ReplaceAllString\<close>, for expressions that match no empty text.\<close>

function replaceAll :: "matcher \<Rightarrow> char option \<Rightarrow> string \<Rightarrow> string" where
  "replaceAll m prev s =
     (case s of
        [] \<Rightarrow> []
      | c # cs \<Rightarrow>
          (case m prev s of
             None \<Rightarrow> c # replaceAll m (Some c) cs
           | Some (r, rest) \<Rightarrow>
               if length rest < length s
               then r @ replaceAll m (Some (last (take (length s - length rest) s))) rest
               else c # replaceAll m (Some c) cs))"
  by pat_completeness auto
termination by (relation "measure (\<lambda>(m, prev, s). length s)") auto

declare replaceAll.simps [simp del]

definition module_to_script :: "string \<Rightarrow> string" where
  "module_to_script script =
     replaceAll exportBinding None (replaceAll exportFunction None (replaceAll exportDefault None script))"

section \<open>The engine\<close>

text \<open>What a fetch handler returned: a plain value, or a promise in one of its states.\<close>

datatype 'v promise = NotPromise | Fulfilled 'v | Rejected 'v | Pending

text \<open>
  \<open>js_call\<close> runs the fetch function with its \<open>this\<close> value and arguments;
  \<open>js_interrupt\<close> is \<open>Interrupt\<close>, which the runtime carries until it is thrown.
\<close>

record ('p, 'vm, 'v) js =
  js_compile :: "string \<Rightarrow> 'p result"
  js_new :: "'vm"
  js_prelude :: "'p"
  js_run :: "'p \<Rightarrow> 'vm \<Rightarrow> unit result \<times> 'vm"
  js_get :: "string \<Rightarrow> 'vm \<Rightarrow> 'v option"
  js_method :: "'v \<Rightarrow> string \<Rightarrow> 'vm \<Rightarrow> 'v option"
  js_env :: "(string, string) gomap \<Rightarrow> 'vm \<Rightarrow> 'v \<times> 'vm"
  js_context :: "string list \<Rightarrow> 'vm \<Rightarrow> 'v \<times> 'vm"
  js_request :: "'v option \<Rightarrow> string \<Rightarrow> string \<Rightarrow> (string, string) gomap \<Rightarrow> string option \<Rightarrow> 'vm \<Rightarrow> 'v result \<times> 'vm"
  js_call :: "'v \<Rightarrow> 'v \<Rightarrow> 'v list \<Rightarrow> 'vm \<Rightarrow> 'v result \<times> 'vm"
  js_promise :: "'v \<Rightarrow> 'vm \<Rightarrow> 'v promise"
  js_response :: "'v option \<Rightarrow> 'v \<Rightarrow> 'vm \<Rightarrow> 'v result \<times> 'vm"
  js_status :: "'v \<Rightarrow> 'vm \<Rightarrow> int"
  js_body :: "'v \<Rightarrow> 'vm \<Rightarrow> string"
  js_headers :: "'v \<Rightarrow> 'vm \<Rightarrow> string list result"
  js_text :: "'v \<Rightarrow> string"
  js_interrupt :: "'vm \<Rightarrow> 'vm"
  js_message :: "gerror \<Rightarrow> string"

record ('vm, 'v) instance_of =
  in_vm :: 'vm
  in_exports :: 'v
  in_fetch :: 'v
  in_request :: "'v option"
  in_response :: "'v option"
  in_env :: 'v
  in_ctx :: 'v

record 'p worker =
  wk_program :: 'p
  wk_env :: "(string, string) gomap"

text \<open>The pool and the runtimes by number.\<close>

record ('vm, 'v) runtimes =
  rt_pool :: "nat list"
  rt_insts :: "(nat, ('vm, 'v) instance_of) gomap"
  rt_next :: nat

section \<open>Runtimes\<close>

definition newInstance :: "('p, 'vm, 'v) js \<Rightarrow> 'p worker \<Rightarrow> ('vm, 'v) instance_of result" where
  "newInstance js w =
     (case js_run js (js_prelude js) (js_new js) of
        (Inl e, _) \<Rightarrow> Inl e
      | (Inr _, vm) \<Rightarrow>
     (case js_run js (wk_program w) vm of
        (Inl e, _) \<Rightarrow> Inl e
      | (Inr _, vm) \<Rightarrow>
     (case js_get js ''__exports'' vm of
        None \<Rightarrow> Inl (Errorf ''script has no default export'' [])
      | Some exports \<Rightarrow>
     (case js_method js exports ''fetch'' vm of
        None \<Rightarrow> Inl (Errorf ''default export has no fetch method'' [])
      | Some fetch \<Rightarrow>
          (let (env, vm1) = js_env js (wk_env w) vm;
               (ctx, vm2) = js_context js [''waitUntil'', ''passThroughOnException''] vm1
           in Inr \<lparr>in_vm = vm2, in_exports = exports, in_fetch = fetch, in_request = js_get js ''Request'' vm2,
                   in_response = js_get js ''__response'' vm, in_env = env, in_ctx = ctx\<rparr>)))))"

definition Worker_New :: "('p, 'vm, 'v) js \<Rightarrow> string \<Rightarrow> (string, string) gomap \<Rightarrow>
    ('p worker \<times> ('vm, 'v) runtimes) result" where
  "Worker_New js script env =
     rbind (js_compile js (module_to_script script)) (\<lambda>p.
       let w = \<lparr>wk_program = p, wk_env = env\<rparr>
       in rbind (newInstance js w) (\<lambda>first.
            Inr (w, \<lparr>rt_pool = [0], rt_insts = [(0, first)], rt_next = 1\<rparr>)))"

text \<open>The configuration of a worker is its script and environment; decoding it from
  YAML tries a scalar first, into the script alone.\<close>

definition workerConfig_UnmarshalYAML :: "string result \<Rightarrow> (string \<times> (string, string) gomap) result \<Rightarrow>
    (string \<times> (string, string) gomap) result" where
  "workerConfig_UnmarshalYAML scalar plain = (case scalar of Inr script \<Rightarrow> Inr (script, []) | Inl _ \<Rightarrow> plain)"

text \<open>\<open>Factory\<close>: \<open>decode\<close> is the decoded configuration of the handler, its script
  and environment.\<close>

definition Worker_Factory :: "('p, 'vm, 'v) js \<Rightarrow> (string \<times> (string, string) gomap) result \<Rightarrow>
    ('p worker \<times> ('vm, 'v) runtimes) result" where
  "Worker_Factory js decode =
     rbind decode (\<lambda>(script, env).
       if trimSpace script = [] then Inl (Errorf ''worker script is required'' [])
       else Worker_New js script env)"

text \<open>What the pool gives for a choice, and putting a runtime back.\<close>

definition pool_take :: "nat option \<Rightarrow> ('vm, 'v) runtimes \<Rightarrow> nat option \<times> ('vm, 'v) runtimes" where
  "pool_take pick rt =
     (case pick of
        None \<Rightarrow> (None, rt)
      | Some i \<Rightarrow>
          if i < length (rt_pool rt)
          then (Some (rt_pool rt ! i), rt\<lparr>rt_pool := take i (rt_pool rt) @ drop (Suc i) (rt_pool rt)\<rparr>)
          else (None, rt))"

definition worker_instance :: "('p, 'vm, 'v) js \<Rightarrow> 'p worker \<Rightarrow> nat option \<Rightarrow> ('vm, 'v) runtimes \<Rightarrow>
    nat result \<times> ('vm, 'v) runtimes" where
  "worker_instance js w pick rt =
     (case pool_take pick rt of
        (Some n, rt') \<Rightarrow> (Inr n, rt')
      | (None, rt') \<Rightarrow>
          (case newInstance js w of
             Inl e \<Rightarrow> (Inl e, rt')
           | Inr inst \<Rightarrow>
               (Inr (rt_next rt'), rt'\<lparr>rt_insts := mput (rt_next rt') inst (rt_insts rt'), rt_next := Suc (rt_next rt')\<rparr>)))"

definition worker_release :: "nat \<Rightarrow> bool \<Rightarrow> ('vm, 'v) runtimes \<Rightarrow> ('vm, 'v) runtimes" where
  "worker_release n stopped rt = (if stopped then rt\<lparr>rt_pool := n # rt_pool rt\<rparr> else rt)"

section \<open>Calls\<close>

record js_result =
  jr_status :: int
  jr_headers :: "string list"
  jr_body :: string

definition worker_requestURL :: "request \<Rightarrow> string" where
  "worker_requestURL r =
     (if r_tls r then ''https'' else ''http'') @ ''://'' @ r_host r @ requestURI (r_url r)"

text \<open>The headers as properties of an object: a property holds one value.\<close>

definition worker_headers :: "header \<Rightarrow> (string, string) gomap" where
  "worker_headers h = foldl (\<lambda>m (name, vs). foldl (\<lambda>m v. mput name v m) m vs) [] h"

definition settle :: "('p, 'vm, 'v) js \<Rightarrow> 'v \<Rightarrow> 'vm \<Rightarrow> 'v result" where
  "settle js value vm =
     (case js_promise js value vm of
        NotPromise \<Rightarrow> Inr value
      | Fulfilled v \<Rightarrow> Inr v
      | Rejected reason \<Rightarrow> Inl (Errorf ''fetch rejected: %v'' [js_text js reason])
      | Pending \<Rightarrow> Inl (Errorf ''fetch returned a promise that never settled'' []))"

definition read_result :: "('p, 'vm, 'v) js \<Rightarrow> 'v \<Rightarrow> 'vm \<Rightarrow> js_result result" where
  "read_result js plain vm =
     rbind (js_headers js plain vm) (\<lambda>headers.
       let status = js_status js plain vm
       in if status < 100 \<or> 999 < status then Inl (Errorf ''invalid response status %d'' [itoa status])
          else Inr \<lparr>jr_status = status, jr_headers = headers, jr_body = js_body js plain vm\<rparr>)"

definition call_instance :: "('p, 'vm, 'v) js \<Rightarrow> request \<Rightarrow> string \<Rightarrow> ('vm, 'v) instance_of \<Rightarrow>
    js_result result \<times> ('vm, 'v) instance_of" where
  "call_instance js r body inst =
     (case js_request js (in_request inst) (worker_requestURL r) (r_method r) (worker_headers (r_header r))
             (if body = [] then None else Some body) (in_vm inst) of
        (Inl e, vm) \<Rightarrow> (Inl e, inst\<lparr>in_vm := vm\<rparr>)
      | (Inr rq, vm) \<Rightarrow>
     (case js_call js (in_fetch inst) (in_exports inst) [rq, in_env inst, in_ctx inst] vm of
        (Inl e, vm) \<Rightarrow> (Inl e, inst\<lparr>in_vm := vm\<rparr>)
      | (Inr value, vm) \<Rightarrow>
     (case settle js value vm of
        Inl e \<Rightarrow> (Inl e, inst\<lparr>in_vm := vm\<rparr>)
      | Inr value \<Rightarrow>
     (case js_response js (in_response inst) value vm of
        (Inl e, vm) \<Rightarrow> (Inl e, inst\<lparr>in_vm := vm\<rparr>)
      | (Inr plain, vm) \<Rightarrow> (read_result js plain vm, inst\<lparr>in_vm := vm\<rparr>)))))"

section \<open>The handler\<close>

definition MaxBodyBytes :: nat where
  "MaxBodyBytes = 10485760"

text \<open>Reading one byte more than the limit; a body cut off by a policy is an error
  where the policy's limit comes first.\<close>

definition worker_body :: "request \<Rightarrow> string result" where
  "worker_body r =
     (let n = min (length (r_body r)) (MaxBodyBytes + 1)
      in case r_bodyLimit r of
           Some l \<Rightarrow> if l < int n then Inl (Errorf ''http: request body too large'' []) else Inr (take n (r_body r))
         | None \<Rightarrow> Inr (take n (r_body r)))"

fun add_headers :: "string list \<Rightarrow> header \<Rightarrow> header" where
  "add_headers (name # v # rest) h = add_headers rest (headerAdd name v h)"
| "add_headers _ h = h"

text \<open>
  The choices of a request's environment: which runtime the pool gives, when
  the request's context is done (an interrupt that comes while the script runs
  is pending from its start), and whether its deadline has passed at the end.
\<close>

datatype arrival = NotDone | DoneDuring | DoneAfter

record worker_choice =
  wc_pick :: "nat option"
  wc_arrival :: arrival
  wc_expired :: bool

definition interrupt_instance :: "('p, 'vm, 'v) js \<Rightarrow> ('vm, 'v) instance_of \<Rightarrow> ('vm, 'v) instance_of" where
  "interrupt_instance js inst = inst\<lparr>in_vm := js_interrupt js (in_vm inst)\<rparr>"

definition on_instance :: "nat \<Rightarrow> (('vm, 'v) instance_of \<Rightarrow> ('vm, 'v) instance_of) \<Rightarrow>
    ('vm, 'v) runtimes \<Rightarrow> ('vm, 'v) runtimes" where
  "on_instance n f rt =
     (case mget (rt_insts rt) n of
        None \<Rightarrow> rt
      | Some inst \<Rightarrow> rt\<lparr>rt_insts := mput n (f inst) (rt_insts rt)\<rparr>)"

definition worker_call :: "('p, 'vm, 'v) js \<Rightarrow> request \<Rightarrow> string \<Rightarrow> nat \<Rightarrow> ('vm, 'v) runtimes \<Rightarrow> js_result result" where
  "worker_call js r body n rt =
     (case mget (rt_insts rt) n of
        None \<Rightarrow> Inl (Errorf ''unreachable'' [])
      | Some inst \<Rightarrow> fst (call_instance js r body inst))"

definition worker_serve :: "('p, 'vm, 'v) js \<Rightarrow> worker_choice \<Rightarrow> request \<Rightarrow> string \<Rightarrow> nat \<Rightarrow> ('vm, 'v) runtimes \<Rightarrow>
    js_result result \<times> ('vm, 'v) runtimes" where
  "worker_serve js c r body n rt =
     (let rt1 = (if wc_arrival c = DoneDuring then on_instance n (interrupt_instance js) rt else rt);
          res = worker_call js r body n rt1;
          rt2 = on_instance n (\<lambda>i. snd (call_instance js r body i)) rt1;
          rt3 = (if wc_arrival c = DoneAfter then on_instance n (interrupt_instance js) rt2 else rt2)
      in (res, worker_release n (wc_arrival c = NotDone) rt3))"

definition Worker_ServeHTTP :: "('p, 'vm, 'v) js \<Rightarrow> 'p worker \<Rightarrow> worker_choice \<Rightarrow> ('vm, 'v) runtimes handler" where
  "Worker_ServeHTTP js w c r x =
     (case worker_body r of
        Inl e \<Rightarrow> (Returned, httpError (''read request body: '' @ js_message js e) 400 x)
      | Inr body \<Rightarrow>
          if MaxBodyBytes < length body then (Returned, httpError ''request body too large'' 413 x)
          else case worker_instance js w (wc_pick c) (x_shared x) of
            (Inl e, rt) \<Rightarrow> (Returned, httpError (''worker: '' @ js_message js e) 500 (x\<lparr>x_shared := rt\<rparr>))
          | (Inr n, rt) \<Rightarrow>
              (case worker_serve js c r body n rt of
                 (Inl e, rt) \<Rightarrow>
                   (Returned, httpError (''worker: '' @ js_message js e) (if wc_expired c then 504 else 500)
                      (x\<lparr>x_shared := rt\<rparr>))
               | (Inr out, rt) \<Rightarrow>
                   (Returned, writeBody (jr_body out) (writeHeader (jr_status out)
                      (on_tracker (\<lambda>t. t\<lparr>rw_header := add_headers (jr_headers out) (rw_header t)\<rparr>)
                         (x\<lparr>x_shared := rt\<rparr>))))))"

section \<open>Requests that overlap\<close>

text \<open>
  The state of a worker: its runtimes, which request holds which runtime, and
  the runtimes that were interrupted. Any number of requests take a step each
  in any order; \<open>drop\<close> is the pool's garbage collection.
\<close>

type_synonym ('vm, 'v) worker_state = "('vm, 'v) runtimes \<times> (nat \<times> nat) list \<times> nat set"

inductive worker_step :: "('p, 'vm, 'v) js \<Rightarrow> 'p worker \<Rightarrow> ('vm, 'v) worker_state \<Rightarrow> ('vm, 'v) worker_state \<Rightarrow> bool"
  for js :: "('p, 'vm, 'v) js" and w :: "'p worker" where
  take_runtime: "rid \<notin> fst ` set busy \<Longrightarrow> worker_instance js w pick rt = (Inr n, rt') \<Longrightarrow>
    worker_step js w (rt, busy, dirty) (rt', (rid, n) # busy, dirty)"
| no_runtime: "worker_instance js w pick rt = (Inl e, rt') \<Longrightarrow>
    worker_step js w (rt, busy, dirty) (rt', busy, dirty)"
| drop_runtime: "pool_take pick rt = (Some n, rt') \<Longrightarrow>
    worker_step js w (rt, busy, dirty) (rt', busy, dirty)"
| interrupt: "(rid, n) \<in> set busy \<Longrightarrow>
    worker_step js w (rt, busy, dirty) (on_instance n (interrupt_instance js) rt, busy, insert n dirty)"
| execute: "(rid, n) \<in> set busy \<Longrightarrow>
    worker_step js w (rt, busy, dirty) (on_instance n (\<lambda>i. snd (call_instance js r body i)) rt, busy, dirty)"
| release: "(rid, n) \<in> set busy \<Longrightarrow>
    worker_step js w (rt, busy, dirty) (worker_release n (n \<notin> dirty) rt, filter (\<lambda>p. fst p \<noteq> rid) busy, dirty)"

inductive_cases worker_stepE: "worker_step js w s s'"

definition worker_ok :: "('vm, 'v) worker_state \<Rightarrow> bool" where
  "worker_ok s \<longleftrightarrow> (case s of (rt, busy, dirty) \<Rightarrow>
     distinct (rt_pool rt @ map snd busy) \<and> distinct (map fst busy) \<and>
     set (rt_pool rt) \<inter> dirty = {} \<and>
     (\<forall>n \<in> set (rt_pool rt) \<union> snd ` set busy \<union> dirty. n < rt_next rt) \<and>
     (\<forall>n < rt_next rt. mget (rt_insts rt) n \<noteq> None))"

lemma worker_okI:
  assumes "distinct (rt_pool rt)" "distinct (map snd busy)" "distinct (map fst busy)"
    "set (rt_pool rt) \<inter> (snd ` set busy \<union> dirty) = {}"
    "\<And>n. n \<in> set (rt_pool rt) \<union> snd ` set busy \<union> dirty \<Longrightarrow> n < rt_next rt"
    "\<And>n. n < rt_next rt \<Longrightarrow> mget (rt_insts rt) n \<noteq> None"
  shows "worker_ok (rt, busy, dirty)"
  using assms by (auto simp: worker_ok_def)

lemma pool_take_Some:
  assumes "pool_take pick rt = (Some n, rt')"
  shows "\<exists>i < length (rt_pool rt). n = rt_pool rt ! i \<and>
           rt' = rt\<lparr>rt_pool := take i (rt_pool rt) @ drop (Suc i) (rt_pool rt)\<rparr>"
  using assms by (auto simp: pool_take_def split: option.splits if_splits)

lemma pool_take_None: "pool_take pick rt = (None, rt') \<Longrightarrow> rt' = rt"
  by (auto simp: pool_take_def split: option.splits if_splits)

lemma distinct_remove_nth:
  assumes "distinct xs" "i < length xs"
  shows "distinct (take i xs @ drop (Suc i) xs)" "set (take i xs @ drop (Suc i) xs) = set xs - {xs ! i}"
proof -
  have "xs = take i xs @ xs ! i # drop (Suc i) xs" using assms(2) by (rule id_take_nth_drop)
  with assms(1) have d: "distinct (take i xs @ xs ! i # drop (Suc i) xs)" by simp
  then show "distinct (take i xs @ drop (Suc i) xs)" by simp
  have "set xs = set (take i xs @ xs ! i # drop (Suc i) xs)"
    using \<open>xs = _\<close> by simp
  then show "set (take i xs @ drop (Suc i) xs) = set xs - {xs ! i}" using d by auto
qed

lemma pool_take_ok:
  assumes "worker_ok (rt, busy, dirty)" "pool_take pick rt = (Some n, rt')"
  shows "worker_ok (rt', busy, dirty)"
    "rid \<notin> fst ` set busy \<Longrightarrow> worker_ok (rt', (rid, n) # busy, dirty)"
proof -
  obtain i where i: "i < length (rt_pool rt)" "n = rt_pool rt ! i"
    "rt' = rt\<lparr>rt_pool := take i (rt_pool rt) @ drop (Suc i) (rt_pool rt)\<rparr>"
    using pool_take_Some [OF assms(2)] by blast
  have "distinct (rt_pool rt)" using assms(1) by (simp add: worker_ok_def)
  note rest = distinct_remove_nth [OF this i(1), folded i(2)]
  have n: "n \<in> set (rt_pool rt)" using i by simp
  show "worker_ok (rt', busy, dirty)"
    using assms(1) rest unfolding i(3) by (intro worker_okI) (auto simp: worker_ok_def)
  show "worker_ok (rt', (rid, n) # busy, dirty)" if "rid \<notin> fst ` set busy"
    using assms(1) rest n that unfolding i(3) by (intro worker_okI) (auto simp: worker_ok_def)
qed

lemma worker_instance_ok:
  assumes "worker_ok (rt, busy, dirty)" "worker_instance js w pick rt = (res, rt')"
  shows "case res of Inl e \<Rightarrow> worker_ok (rt', busy, dirty)
    | Inr n \<Rightarrow> n \<notin> dirty \<and> (rid \<notin> fst ` set busy \<longrightarrow> worker_ok (rt', (rid, n) # busy, dirty))"
proof -
  obtain taken rt1 where t: "pool_take pick rt = (taken, rt1)" by fastforce
  show ?thesis
  proof (cases taken)
    case (Some n)
    then have "n \<in> set (rt_pool rt)" using pool_take_Some t by fastforce
    then have "n \<notin> dirty" using assms(1) by (auto simp: worker_ok_def)
    then show ?thesis using assms t Some pool_take_ok by (auto simp: worker_instance_def)
  next
    case None
    then have rt1: "rt1 = rt" using t pool_take_None by blast
    show ?thesis
    proof (cases "newInstance js w")
      case (Inl e)
      then show ?thesis using assms t None rt1 by (auto simp: worker_instance_def)
    next
      case (Inr inst)
      let ?rt = "rt\<lparr>rt_insts := mput (rt_next rt) inst (rt_insts rt), rt_next := Suc (rt_next rt)\<rparr>"
      have res: "res = Inr (rt_next rt)" "rt' = ?rt"
        using assms(2) t None rt1 Inr by (auto simp: worker_instance_def)
      have less: "n < rt_next rt" if "n \<in> set (rt_pool rt) \<union> snd ` set busy \<union> dirty" for n
        using assms(1) that by (simp add: worker_ok_def)
      then have fresh: "rt_next rt \<notin> set (rt_pool rt) \<union> snd ` set busy \<union> dirty" by blast
      have "worker_ok (?rt, (rid, rt_next rt) # busy, dirty)" if "rid \<notin> fst ` set busy"
        using assms(1) fresh that less
        by (intro worker_okI) (auto simp: worker_ok_def less_Suc_eq)
      with res fresh show ?thesis by simp
    qed
  qed
qed

lemma on_instance_fields [simp]:
  "rt_pool (on_instance n f rt) = rt_pool rt" "rt_next (on_instance n f rt) = rt_next rt"
  by (simp_all add: on_instance_def split: option.split)

lemma on_instance_get:
  "mget (rt_insts (on_instance n f rt)) m =
     (if m = n then map_option f (mget (rt_insts rt) n) else mget (rt_insts rt) m)"
  by (simp add: on_instance_def split: option.split)

lemma on_instance_ok: "worker_ok (rt, busy, dirty) \<Longrightarrow> worker_ok (on_instance n f rt, busy, dirty)"
  by (simp add: worker_ok_def on_instance_get)

lemma interrupt_ok:
  assumes "worker_ok (rt, busy, dirty)" "(rid, n) \<in> set busy"
  shows "worker_ok (on_instance n f rt, busy, insert n dirty)"
proof -
  have "n \<in> snd ` set busy" using assms(2) by force
  then show ?thesis using assms(1)
    by (intro worker_okI) (auto simp: worker_ok_def on_instance_get)
qed

lemma release_ok:
  assumes "worker_ok (rt, busy, dirty)" "(rid, n) \<in> set busy"
  shows "worker_ok (worker_release n (n \<notin> dirty) rt, filter (\<lambda>p. fst p \<noteq> rid) busy, dirty)"
proof -
  have n: "n \<in> snd ` set busy" using assms(2) by force
  have d: "distinct (map fst busy)" "distinct (map snd busy)"
    using assms(1) by (auto simp: worker_ok_def)
  have gone: "n \<notin> snd ` set (filter (\<lambda>p. fst p \<noteq> rid) busy)"
  proof
    assume "n \<in> snd ` set (filter (\<lambda>p. fst p \<noteq> rid) busy)"
    then obtain q where "(q, n) \<in> set busy" "q \<noteq> rid" by auto
    then show False using assms(2) d(2) by (metis distinct_map inj_onD prod.inject snd_conv)
  qed
  have "distinct (map fst (filter (\<lambda>p. fst p \<noteq> rid) busy))" "distinct (map snd (filter (\<lambda>p. fst p \<noteq> rid) busy))"
    using d by (simp_all add: distinct_map_filter)
  moreover have less: "m < rt_next rt" if "m \<in> set (rt_pool rt) \<union> snd ` set busy \<union> dirty" for m
    using assms(1) that by (simp add: worker_ok_def)
  moreover have "n \<notin> set (rt_pool rt)" using assms(1) n by (auto simp: worker_ok_def)
  moreover have "n < rt_next rt" by (rule less) (use n in simp)
  ultimately show ?thesis using assms(1) gone
    by (intro worker_okI) (auto simp: worker_ok_def worker_release_def intro: less)
qed

lemma worker_step_ok: "worker_step js w s s' \<Longrightarrow> worker_ok s \<Longrightarrow> worker_ok s'"
proof (induction rule: worker_step.induct)
  case (take_runtime rid busy pick rt n rt' dirty)
  then show ?case using worker_instance_ok [of rt busy dirty js w pick "Inr n" rt' rid] by simp
next
  case (no_runtime pick rt e rt' busy dirty)
  then show ?case using worker_instance_ok [of rt busy dirty js w pick "Inl e" rt'] by simp
next
  case drop_runtime
  then show ?case using pool_take_ok(1) by blast
next
  case interrupt
  then show ?case using interrupt_ok by blast
next
  case execute
  then show ?case using on_instance_ok by blast
next
  case release
  then show ?case using release_ok by blast
qed

lemma worker_steps_ok:
  assumes "(worker_step js w)\<^sup>*\<^sup>* s s'" "worker_ok s"
  shows "worker_ok s'"
  using assms by (induction rule: rtranclp_induct) (auto intro: worker_step_ok)

lemma Worker_New_ok: "Worker_New js script env = Inr (w, rt) \<Longrightarrow> worker_ok (rt, [], {})"
  by (auto simp: Worker_New_def Let_def rbind_Inr_iff worker_ok_def)


section \<open>The handler is a run of steps\<close>

lemma worker_take_step:
  assumes "worker_instance js w pick rt = (Inr n, rt')" "rid \<notin> fst ` set busy"
  shows "(worker_step js w)\<^sup>*\<^sup>* (rt, busy, dirty) (rt', (rid, n) # busy, dirty)"
  using worker_step.take_runtime [OF assms(2, 1)] by blast

lemma worker_serve_run:
  assumes "worker_serve js c r body n rt = (res, rt')" "rid \<notin> fst ` set busy" "n \<notin> dirty"
  shows "\<exists>dirty'. (worker_step js w)\<^sup>*\<^sup>* (rt, (rid, n) # busy, dirty) (rt', busy, dirty')"
proof -
  define rt1 where "rt1 = (if wc_arrival c = DoneDuring then on_instance n (interrupt_instance js) rt else rt)"
  define rt2 where "rt2 = on_instance n (\<lambda>i. snd (call_instance js r body i)) rt1"
  define rt3 where "rt3 = (if wc_arrival c = DoneAfter then on_instance n (interrupt_instance js) rt2 else rt2)"
  define d1 where "d1 = (if wc_arrival c = DoneDuring then insert n dirty else dirty)"
  define d3 where "d3 = (if wc_arrival c = DoneAfter then insert n d1 else d1)"
  let ?busy = "(rid, n) # busy"
  have stopped: "(wc_arrival c = NotDone) = (n \<notin> d3)"
    using assms(3) by (cases "wc_arrival c") (simp_all add: d1_def d3_def)
  have rt': "rt' = worker_release n (n \<notin> d3) rt3"
    using assms(1) by (auto simp: worker_serve_def Let_def rt1_def rt2_def rt3_def stopped)
  have held: "(rid, n) \<in> set ?busy" by simp
  have "(worker_step js w)\<^sup>*\<^sup>* (rt, ?busy, dirty) (rt1, ?busy, d1)"
    by (auto simp: rt1_def d1_def intro!: r_into_rtranclp worker_step.interrupt held)
  also have "(worker_step js w)\<^sup>*\<^sup>* (rt1, ?busy, d1) (rt2, ?busy, d1)"
    using worker_step.execute [OF held] unfolding rt2_def by blast
  also have "(worker_step js w)\<^sup>*\<^sup>* (rt2, ?busy, d1) (rt3, ?busy, d3)"
    by (auto simp: rt3_def d3_def intro!: r_into_rtranclp worker_step.interrupt held)
  also have "(worker_step js w)\<^sup>*\<^sup>* (rt3, ?busy, d3) (rt', filter (\<lambda>p. fst p \<noteq> rid) ?busy, d3)"
    unfolding rt' using worker_step.release [OF held] by blast
  also have "filter (\<lambda>p. fst p \<noteq> rid) ?busy = busy"
    using assms(2) by (auto simp: filter_id_conv)
  finally show ?thesis by blast
qed

lemma worker_take_run:
  assumes "worker_ok (rt, busy, dirty)" "rid \<notin> fst ` set busy"
    and inst: "worker_instance js w pick rt = (Inr n, rt1)" and serve: "worker_serve js c r body n rt1 = (res, rt')"
  shows "\<exists>dirty'. (worker_step js w)\<^sup>*\<^sup>* (rt, busy, dirty) (rt', busy, dirty')"
proof -
  have clean: "n \<notin> dirty" using worker_instance_ok [OF assms(1) inst, of rid] by simp
  from worker_serve_run [OF serve assms(2) clean] worker_take_step [OF inst assms(2)]
  show ?thesis by (meson rtranclp_trans)
qed


section \<open>Answers\<close>

text \<open>The codes the handler writes are codes \<open>net/http\<close> takes; it panics for others.\<close>

definition valid_codes :: "tracker \<Rightarrow> bool" where
  "valid_codes t \<longleftrightarrow> (\<forall>c \<in> set (rw_codes t). 100 \<le> c \<and> c \<le> 999)"

lemma valid_codes_writeHeader:
  "valid_codes t \<Longrightarrow> 100 \<le> c \<Longrightarrow> c \<le> 999 \<Longrightarrow> valid_codes (tracker_WriteHeader c t)"
  by (auto simp: valid_codes_def tracker_WriteHeader_def under_writeHeader_def)

lemma valid_codes_Write: "valid_codes t \<Longrightarrow> valid_codes (snd (tracker_Write d t))"
  by (auto simp: valid_codes_def tracker_Write_def under_write_def under_start_def under_writeHeader_def Let_def)

lemma valid_codes_header [simp]: "valid_codes (t\<lparr>rw_header := h\<rparr>) = valid_codes t"
  by (simp add: valid_codes_def)

text \<open>On exchanges.\<close>

definition codes_ok :: "'g exchange \<Rightarrow> bool" where
  "codes_ok x = valid_codes (x_tracker x)"

lemma codes_ok_simps [simp]:
  "codes_ok (x\<lparr>x_shared := g\<rparr>) = codes_ok x"
  "codes_ok (on_tracker (\<lambda>t. t\<lparr>rw_header := f t\<rparr>) x) = codes_ok x"
  by (simp_all add: codes_ok_def on_tracker_def)

lemma codes_ok_writeHeader: "codes_ok x \<Longrightarrow> 100 \<le> c \<Longrightarrow> c \<le> 999 \<Longrightarrow> codes_ok (writeHeader c x)"
  by (simp add: codes_ok_def writeHeader_def on_tracker_def valid_codes_writeHeader)

lemma codes_ok_writeBody: "codes_ok x \<Longrightarrow> codes_ok (writeBody d x)"
  by (simp add: codes_ok_def writeBody_def on_tracker_def valid_codes_Write)

lemma codes_ok_httpError: "codes_ok x \<Longrightarrow> 100 \<le> c \<Longrightarrow> c \<le> 999 \<Longrightarrow> codes_ok (httpError m c x)"
  by (simp add: httpError_def codes_ok_writeBody codes_ok_writeHeader setHeader_def delHeader_def)

lemma read_result_status: "read_result js v vm = Inr out \<Longrightarrow> 100 \<le> jr_status out \<and> jr_status out \<le> 999"
  by (auto simp: read_result_def rbind_Inr_iff Let_def split: if_splits)

lemma call_status: "fst (call_instance js r body inst) = Inr out \<Longrightarrow> 100 \<le> jr_status out \<and> jr_status out \<le> 999"
  by (auto simp: call_instance_def read_result_status split: prod.splits sum.splits)

lemma worker_serve_status:
  "worker_serve js c r body n rt = (Inr out, rt') \<Longrightarrow> 100 \<le> jr_status out \<and> jr_status out \<le> 999"
  by (auto simp: worker_serve_def worker_call_def Let_def dest: call_status split: option.splits)

text \<open>A worker answers with codes that \<open>net/http\<close> takes, whatever the script
  returns; a body that cannot be read or is over 10 MiB is answered 400 or 413
  and reaches no runtime.\<close>

theorem worker_answer:
  assumes "rw_codes (x_tracker x) = []" and "t_status (x_tracker x) = 0"
  shows "valid_codes (x_tracker (snd (Worker_ServeHTTP js w c r x))) \<and>
         (case worker_body r of
            Inl e \<Rightarrow> t_status (x_tracker (snd (Worker_ServeHTTP js w c r x))) = 400 \<and>
                     x_shared (snd (Worker_ServeHTTP js w c r x)) = x_shared x
          | Inr body \<Rightarrow>
              10485760 < length body \<longrightarrow>
                t_status (x_tracker (snd (Worker_ServeHTTP js w c r x))) = 413 \<and>
                x_shared (snd (Worker_ServeHTTP js w c r x)) = x_shared x)"
proof (rule conjI)
  have "codes_ok x" using assms(1) by (simp add: codes_ok_def valid_codes_def)
  then have "codes_ok (snd (Worker_ServeHTTP js w c r x))"
    by (auto simp: Worker_ServeHTTP_def codes_ok_httpError
        intro!: codes_ok_writeBody codes_ok_writeHeader dest: worker_serve_status split: sum.split prod.split)
  then show "valid_codes (x_tracker (snd (Worker_ServeHTTP js w c r x)))" by (simp add: codes_ok_def)
  show "case worker_body r of
      Inl e \<Rightarrow> t_status (x_tracker (snd (Worker_ServeHTTP js w c r x))) = 400 \<and>
               x_shared (snd (Worker_ServeHTTP js w c r x)) = x_shared x
    | Inr body \<Rightarrow>
        10485760 < length body \<longrightarrow>
          t_status (x_tracker (snd (Worker_ServeHTTP js w c r x))) = 413 \<and>
          x_shared (snd (Worker_ServeHTTP js w c r x)) = x_shared x"
    using assms(2)
    by (auto simp: Worker_ServeHTTP_def MaxBodyBytes_def httpError_status split: sum.split)
qed

lemma exchange_ok_header [simp]:
  "exchange_ok (on_tracker (\<lambda>t. t\<lparr>rw_header := f t\<rparr>) x) = exchange_ok x"
  by (simp add: exchange_ok_def on_tracker_def)

interpretation worker: honest_handler "Worker_ServeHTTP js w c" for js w c
  by unfold_locales
    (auto simp: Worker_ServeHTTP_def exchange_ok_httpError exchange_ok_writeBody exchange_ok_writeHeader
      split: sum.split prod.split)

text \<open>Of a request header with several values a script sees the last only.\<close>

lemma repeated_header_lost:
  "worker_headers [(''X-Forwarded-For'', [''10.0.0.1'', ''10.0.0.2''])] = [(''X-Forwarded-For'', ''10.0.0.2'')]"
  by (simp add: worker_headers_def)

text \<open>The rewriting does not know string literals.\<close>

lemma literal_rewritten:
  "module_to_script ''x=`export default y`'' = ''x=`var __exports = y`''"
  by code_simp

section \<open>A sample engine\<close>

text \<open>An engine whose runtimes count calls and whose scripts all answer \<open>hi\<close>.\<close>

definition sample_js :: "(string, nat, nat) js" where
  "sample_js = \<lparr>js_compile = Inr, js_new = 0, js_prelude = [], js_run = \<lambda>p vm. (Inr (), vm), js_get = \<lambda>n vm. Some 0,
     js_method = \<lambda>v n vm. Some 1, js_env = \<lambda>e vm. (2, vm), js_context = \<lambda>ns vm. (3, vm),
     js_request = \<lambda>k url meth hdr body vm. (Inr 4, vm), js_call = \<lambda>f this args vm. (Inr 5, Suc vm),
     js_promise = \<lambda>v vm. NotPromise, js_response = \<lambda>f v vm. (Inr v, vm), js_status = \<lambda>v vm. 200,
     js_body = \<lambda>v vm. ''hi'', js_headers = \<lambda>v vm. Inr [''X-A'', ''b''], js_text = \<lambda>v. [], js_interrupt = id,
     js_message = \<lambda>e. ''error''\<rparr>"

definition sample_worker :: "string worker" where
  "sample_worker = \<lparr>wk_program = ''{}'', wk_env = []\<rparr>"

definition sample_instance :: "(nat, nat) instance_of" where
  "sample_instance = \<lparr>in_vm = 0, in_exports = 0, in_fetch = 1, in_request = Some 0, in_response = Some 0,
     in_env = 2, in_ctx = 3\<rparr>"

definition sample_runtimes :: "(nat, nat) runtimes" where
  "sample_runtimes = \<lparr>rt_pool = [0], rt_insts = [(0, sample_instance)], rt_next = 1\<rparr>"

definition worker_exchange :: "(nat, nat) runtimes exchange" where
  "worker_exchange = \<lparr>x_tracker = newTracker 10, x_state = None, x_now = 0, x_shared = sample_runtimes\<rparr>"

lemma sample_instance_new: "newInstance sample_js sample_worker = Inr sample_instance"
  by (simp add: newInstance_def sample_js_def sample_instance_def)

lemma sample_worker_new: "Worker_New sample_js ''{}'' [] = Inr (sample_worker, sample_runtimes)"
proof -
  have "module_to_script ''{}'' = ''{}''" by code_simp
  moreover have "js_compile sample_js = Inr" by (simp add: sample_js_def)
  ultimately show ?thesis using sample_instance_new
    by (simp add: Worker_New_def sample_worker_def sample_runtimes_def)
qed

text \<open>Two requests overlap: the first takes the pooled runtime, the second a new one.\<close>

lemma sample_overlap:
  "(worker_step sample_js sample_worker)\<^sup>*\<^sup>* (sample_runtimes, [], {})
     (\<lparr>rt_pool = [], rt_insts = [(0, sample_instance), (1, sample_instance)], rt_next = 2\<rparr>, [(8, 1), (7, 0)], {})"
proof -
  have first: "worker_instance sample_js sample_worker (Some 0) sample_runtimes = (Inr 0, sample_runtimes\<lparr>rt_pool := []\<rparr>)"
    by (simp add: worker_instance_def pool_take_def sample_runtimes_def)
  have second: "worker_instance sample_js sample_worker None (sample_runtimes\<lparr>rt_pool := []\<rparr>) =
      (Inr 1, \<lparr>rt_pool = [], rt_insts = [(0, sample_instance), (1, sample_instance)], rt_next = 2\<rparr>)"
    by (simp add: worker_instance_def pool_take_def sample_runtimes_def sample_instance_new)
  show ?thesis
    using worker_take_step [OF first, of 7 "[]" "{}"] worker_take_step [OF second, of 8 "[(7, 0)]" "{}"]
    by (simp add: rtranclp_trans)
qed



theorem worker_answer_witness:
  "\<forall>c. valid_codes (x_tracker (snd (Worker_ServeHTTP sample_js sample_worker c (get_request ''h'' ''/'' [] []) worker_exchange)))"
proof
  fix c
  have "rw_codes (x_tracker worker_exchange) = []" "t_status (x_tracker worker_exchange) = 0"
    by (simp_all add: worker_exchange_def newTracker_def)
  then show "valid_codes (x_tracker (snd (Worker_ServeHTTP sample_js sample_worker c (get_request ''h'' ''/'' [] []) worker_exchange)))"
    by (rule worker_answer [THEN conjunct1])
qed

end
