(* ===== verification/Options.thy ===== *)
theory Options
  imports Honest
begin

text \<open>
  The options of \<open>New\<close> and \<open>Validate\<close> (\<open>server.go\<close>, \<open>acme.go\<close>): functions applied
  in order to options that start empty, beside the environment. The logger and
  the observers, who only receive records, are not part of the model's options.
\<close>

type_synonym ('l, 'w) Option = "('l, 'w) options \<Rightarrow> ('l, 'w) options"

definition WithDataDir :: "string \<Rightarrow> ('l, 'w) Option" where
  "WithDataDir dir = (\<lambda>opts. opts\<lparr>o_dataDir := dir\<rparr>)"

definition WithCertificateSource :: "certificate list result \<Rightarrow> ('l, 'w) Option" where
  "WithCertificateSource source = (\<lambda>opts. opts\<lparr>o_tls := (o_tls opts)\<lparr>te_source := Some source\<rparr>\<rparr>)"

definition WithHTTP01Store :: "(string \<Rightarrow> string \<Rightarrow> string option) \<Rightarrow> ('l, 'w) Option" where
  "WithHTTP01Store store = (\<lambda>opts. opts\<lparr>o_http01 := Some store\<rparr>)"

definition WithMiddleware :: "'l gateway middleware list \<Rightarrow> ('l, 'w) Option" where
  "WithMiddleware middleware = (\<lambda>opts. opts\<lparr>o_middleware := o_middleware opts @ middleware\<rparr>)"

definition WithHandler :: "string \<Rightarrow> (json \<Rightarrow> 'l gateway handler result) \<Rightarrow> ('l, 'w) Option" where
  "WithHandler name factory = (\<lambda>opts. opts\<lparr>o_handlers := mput name factory (o_handlers opts)\<rparr>)"

text \<open>The options before any is applied, in an environment.\<close>

definition empty_options :: "'l gateway env \<Rightarrow> tls_env \<Rightarrow> 'w acme_env \<Rightarrow> 'l rate_ops \<Rightarrow> ('l, 'w) options" where
  "empty_options env tlse acmee rates =
     \<lparr>o_env = env, o_handlers = [], o_middleware = [], o_dataDir = [], o_tls = tlse\<lparr>te_source := None\<rparr>,
      o_acme = acmee, o_rates = rates, o_http01 = None\<rparr>"

definition newOptions :: "('l, 'w) options \<Rightarrow> ('l, 'w) Option list \<Rightarrow> ('l, 'w) options" where
  "newOptions base list = foldl (\<lambda>opts f. f opts) base list"

text \<open>The last registration of a name counts; middleware runs in the order given,
  the first outermost.\<close>

lemma newOptions_append: "newOptions base (fs @ gs) = newOptions (newOptions base fs) gs"
  by (simp add: newOptions_def)

lemma WithHandler_registers:
  "mget (o_handlers (newOptions base (fs @ [WithHandler name factory]))) name' =
     (if name' = name then Some factory else mget (o_handlers (newOptions base fs)) name')"
  by (simp add: newOptions_def WithHandler_def)

lemma WithMiddleware_order:
  "Chain h (o_middleware (newOptions base (fs @ [WithMiddleware ms]))) =
     Chain (Chain h ms) (o_middleware (newOptions base fs))"
  by (simp add: newOptions_def WithMiddleware_def Chain_append)

text \<open>
  Options made of handlers and middleware that answer through the tracker are
  honest, which is what the records of requests rest on: an embedding program
  owes it for what it registers, one option at a time.
\<close>

definition honest_option :: "('l, 'w) Option \<Rightarrow> bool" where
  "honest_option f \<longleftrightarrow> (\<forall>opts. honest_options opts \<longrightarrow> honest_options (f opts))"

lemma honest_option_With:
  "honest_option (WithDataDir dir)"
  "honest_option (WithCertificateSource source)"
  "honest_option (WithHTTP01Store store)"
  by (simp_all add: honest_option_def honest_options_def WithDataDir_def WithCertificateSource_def WithHTTP01Store_def)

lemma honest_option_WithMiddleware:
  "(\<And>m. m \<in> set ms \<Longrightarrow> honest_middleware m) \<Longrightarrow> honest_option (WithMiddleware ms)"
  by (auto simp: honest_option_def honest_options_def WithMiddleware_def)

lemma honest_option_WithHandler:
  "(\<And>v h. factory v = Inr h \<Longrightarrow> honest_handler h) \<Longrightarrow> honest_option (WithHandler name factory)"
  by (auto simp: honest_option_def honest_options_def honest_registry_def WithHandler_def split: if_splits)

lemma newOptions_honest:
  assumes "honest_env env" "\<And>f. f \<in> set fs \<Longrightarrow> honest_option f"
  shows "honest_options (newOptions (empty_options env tlse acmee rates) fs)"
proof -
  have "honest_options (empty_options env tlse acmee rates)"
    using assms(1) by (simp add: honest_options_def honest_registry_def empty_options_def)
  with assms(2) show ?thesis
  proof (induction fs rule: rev_induct)
    case (snoc f fs)
    then have "honest_options (newOptions (empty_options env tlse acmee rates) fs)" by simp
    then show ?case using snoc.prems(1) [of f]
      by (simp add: newOptions_def honest_option_def)
  qed (simp add: newOptions_def)
qed

end
