(* ===== verification/Spec2Isabelle.thy ===== *)
theory Spec2Isabelle
  imports Api_Json Run Sign Clone Encoding Workers Options
begin

text \<open>
  A model of yabber, an HTTP and HTTPS gateway on Go's \<open>net/http\<close>: it terminates
  TLS, routes requests by host and path, limits them by policies, and answers
  from upstreams, files, redirects or fixed responses. A configuration is
  compiled to an immutable snapshot; a running server replaces its snapshot as
  a whole, and only when every listener of the new one is bound. A management
  API and a web panel change the configuration; a command line wraps them.

  \<^bold>\<open>Conventions.\<close> A Go function is a HOL function of the same name (or
  \<open>receiver_name\<close>), a struct a record, a nil pointer \<open>None\<close>, an error a value of
  \<open>gerror\<close> that keeps the format string of the source, a fallible result
  \<open>gerror + 'a\<close>, a map an association list with distinct keys. Strings are
  byte strings. Durations and \<open>int\<close> fields are integers, with the wrap-around
  written out where the code can reach it; addresses are words of their
  width. What a function mutates it takes and returns. A lock is not modelled
  as such: an operation the code runs under its lock is one step, and
  interleavings are sequences of steps. What lies outside \<open>src/\<close> (the operating
  system's files and sockets, TLS, X.509, the CA, YAML, hashes and signatures,
  the clock) is a field of an environment record or an argument.

  \<^bold>\<open>Foundations.\<close> \<open>Prelude\<close>: errors, results, Go maps. \<open>Go_Strings\<close>, \<open>Go_Net\<close>,
  \<open>Go_Url\<close>, \<open>Base64\<close>: the functions of the standard library that the code calls.

  \<^bold>\<open>Requests.\<close> \<open>Hosts\<close> (\<open>hosts.go\<close>): the table of host patterns, against a
  locale of tables. \<open>Http\<close>: requests, headers, the exchange a handler works on,
  the response tracker and \<open>middleware.go\<close>; a handler is a function on
  exchanges, middleware a function on handlers. \<open>Client_IP\<close> (\<open>clientip.go\<close>): the
  client is the rightmost untrusted hop. \<open>Rate_Limiter\<close>: token buckets in a map
  and a list ordered by use, refining a table of clients (locale
  \<open>keyed_limiter\<close>). \<open>Policy\<close> (\<open>policy.go\<close>): a policy runs once per request however
  many scopes name it; the concurrency limit is a machine over acquire and
  release events. \<open>Proxy\<close> (\<open>proxy.go\<close>): prefixes, upstreams, the forwarded headers,
  error statuses. \<open>Handlers\<close> (\<open>handlers.go\<close>): files, responses, redirects; what
  hidden files hold does not influence an answer. \<open>Mux\<close>: the \<open>ServeMux\<close> of the
  standard library, with the theorem that the most specific pattern wins.
  \<open>Observability\<close>: metrics, their text format, request IDs. \<open>Serve\<close> (\<open>serve.go\<close>):
  the entry point with its recovery; every request is counted once, and the
  record tells what the client got, for which \<open>Honest\<close> shows that every handler
  of a snapshot answers through the tracker only. \<open>Workers\<close> (\<open>workers/*.go\<close>):
  handlers in JavaScript; requests that overlap never share a runtime, and the
  handler is a run of the steps for which that is shown.

  \<^bold>\<open>Configuration.\<close> \<open>Config\<close> (\<open>config.go\<close>): the data and relative paths.
    \<open>Duration\<close>, \<open>Json_Codec\<close>, \<open>Encoding\<close> (\<open>encoding.go\<close>): the JSON form, on trees. A
  locale states that what a type encodes decodes back; each kind, slices,
  pointers and structs are instances of it, from the text of a duration up to
  a whole configuration.
  \<open>Clone\<close> (\<open>clone.go\<close>): the reflective deep copy over a heap of
  cells; it returns on acyclic values, and writes through the copy never reach
  the original. \<open>Compile\<close> and \<open>Snapshot\<close> (\<open>compile.go\<close>): a configuration becomes a
  snapshot in which every host of every site is served on its listeners by
  that site and no other, TLS hosts have a certificate or are managed by ACME,
  and state of unchanged policies and upstreams survives. \<open>Save\<close> (\<open>save.go\<close>): the
  file holds the old or the new configuration.

  \<^bold>\<open>Server.\<close> \<open>Tls\<close> (\<open>tls.go\<close>): loading certificates, of those for a name the one
  that expires last. \<open>Acme\<close> (\<open>acme.go\<close>): accounts, challenges, renewal, backoff,
  the maintenance round. \<open>Server\<close> (\<open>server.go\<close>): start, apply with rollback,
  refresh, shutdown. \<open>Lifecycle\<close> and \<open>Reachable\<close>: the sockets that are open are
  exactly those of the running listeners, in every state a program can reach
  by calling the operations in any order (an inductive step relation).
  \<open>Options\<close>: what an embedding program registers, and what it owes for it.
  \<open>Events\<close> (\<open>events.go\<close>): the ring buffer against a locale of bounded logs.

  \<^bold>\<open>Management.\<close> \<open>Api\<close> (\<open>api/*.go\<close>): the endpoints over a server behind a locale of
  stores. \<open>Api_Changes\<close>: a change is applied, saved and answered as one step, a
  stale \<open>If-Match\<close> changes nothing, sites form a map from identities. \<open>Api_Json\<close>:
  what was read may be written back. \<open>Web\<close>
  (\<open>web/web.go\<close>, admin listener): no request without the token, and none from
  another origin through the panel, reaches the server. \<open>Command\<close>, \<open>Run\<close>
  (\<open>cmd/yabber/main.go\<close>, \<open>run.go\<close>, \<open>admin.go\<close>): the loop over signals and requests;
  the file loads to what is running. \<open>Pid_File\<close> (\<open>pidfile_unix.go\<close>): processes that
  interleave at each system call. \<open>Self_Update\<close> (\<open>update.go\<close>): only a signed
  release with the right checksum is installed. \<open>Sign\<close> (\<open>tools/sign\<close>): what it
  prints an update accepts.

  \<^bold>\<open>Loops.\<close> Recursion is structural or has a termination proof (the import map
  of the panel and the parser of durations consume their text, \<open>itoa_nat\<close> its
  number). Fuel appears in \<open>deepCopy\<close> only, as the depth of recursion: with
  \<open>None\<close> for exhaustion, enough fuel exists on every acyclic value and none
  suffices on a pointer to itself (\<open>deepCopy_cycle\<close>), which the code follows
  for ever. Loops that run for the life of a process (the ACME loop, the
  drain of connections, signals) are one round of the loop, iterated by the
  step relation or by a fold over the sequence of events.

  \<^bold>\<open>Not modelled.\<close> The JavaScript interpreter (goja): a parameter of \<open>Workers\<close>, with
  \<open>prelude.js\<close>; \<open>cmd/yabber/worker.go\<close> registers that handler under a build tag.
  YAML: the codec is a third-party package, so \<open>Parse\<close> and the text that \<open>Save\<close>
  writes are parameters, and the YAML half of \<open>encoding.go\<close> is left out.
  The text of JSON: the codec works on trees, with numbers for their values and
  strings of valid UTF-8.
  The Windows pid file takes no lock, so there is nothing to show of it. Flag
  parsing, printing and the format of log lines. Of the standard library:
  protocol upgrades, trailers and 1xx responses of the reverse proxy, non-ASCII
  case folding, and floating-point rounding, for which rationals stand.
\<close>

end
